(* ===== verification/Prelude.thy ===== *)
theory Prelude
  imports Main "HOL-Library.Word"
begin

unbundle bit_operations_syntax

section \<open>Shared vocabulary of the development\<close>

text \<open>
  The types and small combinators every component uses.
  \<^item> Go's fixed-width integers are words: \<open>u8\<close>, \<open>u16\<close>, \<open>u32\<close>, \<open>u64\<close>; arithmetic wraps as
    it does in Go. \<open>Fixed64\<close> (\<^verbatim>\<open>common.Fixed64\<close>, an int64) is a \<open>u64\<close> read with \<open>sint\<close>
    wherever the code compares it.
  \<^item> A Go string is a byte sequence: an HOL \<open>string\<close>, whose characters are the bytes.
  \<^item> A run-time panic of the program is a value of \<open>go_panic\<close>; a computation that may panic
    returns \<open>go_panic + 'a\<close> (\<open>'a res\<close>), composed by \<open>bindR\<close> and \<open>foldR\<close>.
  \<^item> \<open>hex.EncodeToString\<close> of the standard library, which makes the map keys of the code.
\<close>

named_theorems codec_simps \<open>how the readers and writers of the wire format compute\<close>
named_theorems undo_simps \<open>how a change and its rollback compute\<close>

type_synonym u8 = "8 word"
type_synonym u16 = "16 word"
type_synonym u32 = "32 word"
type_synonym u64 = "64 word"
type_synonym Fixed64 = "64 word"
type_synonym bytes = "u8 list"
type_synonym Uint256 = bytes
type_synonym Uint168 = bytes

abbreviation MaxUint32 :: u32 where
  "MaxUint32 \<equiv> 4294967295"

subsection \<open>Panics\<close>

datatype go_panic =
    NilDereference
  | TypeAssertion
  | IndexOutOfRange
  | PanicMsg string

type_synonym 'a res = "go_panic + 'a"

definition bindR :: "'e + 'a \<Rightarrow> ('a \<Rightarrow> 'e + 'b) \<Rightarrow> 'e + 'b" where
  "bindR m f = (case m of Inl e \<Rightarrow> Inl e | Inr x \<Rightarrow> f x)"

lemma bindR_simps [simp]:
  "bindR (Inl e) f = Inl e"
  "bindR (Inr x) f = f x"
  by (simp_all add: bindR_def)

lemma bindR_Inr_iff [simp]: "bindR m f = Inr y \<longleftrightarrow> (\<exists>x. m = Inr x \<and> f x = Inr y)"
  by (cases m) auto

lemma bindR_Inl_iff: "bindR m f = Inl e \<longleftrightarrow> m = Inl e \<or> (\<exists>x. m = Inr x \<and> f x = Inl e)"
  by (cases m) auto

lemma bindR_assoc: "bindR (bindR m f) g = bindR m (\<lambda>x. bindR (f x) g)"
  by (cases m) auto

lemma bindR_return [simp]: "bindR m Inr = m"
  by (cases m) auto

text \<open>A \<^verbatim>\<open>for range\<close> loop whose body may panic: it stops at the first panic.\<close>

fun foldR :: "('a \<Rightarrow> 's \<Rightarrow> 'e + 's) \<Rightarrow> 'a list \<Rightarrow> 's \<Rightarrow> 'e + 's" where
  "foldR f [] s = Inr s"
| "foldR f (x # xs) s = bindR (f x s) (foldR f xs)"

lemma foldR_append: "foldR f (xs @ ys) s = bindR (foldR f xs s) (foldR f ys)"
  by (induction xs arbitrary: s) (auto simp: bindR_def split: sum.splits)

lemma foldR_pure: "foldR (\<lambda>x s. Inr (f x s)) xs s = Inr (fold f xs s)"
  by (induction xs arbitrary: s) auto

text \<open>A predicate every iteration keeps is kept by the loop.\<close>

lemma foldR_invariant:
  assumes "foldR f xs s = Inr t" and "P s"
    and "\<And>x s t. x \<in> set xs \<Longrightarrow> P s \<Longrightarrow> f x s = Inr t \<Longrightarrow> P t"
  shows "P t"
  using assms
proof (induction xs arbitrary: s)
  case Nil
  then show ?case by simp
next
  case (Cons x xs)
  from Cons.prems(1) obtain u where u: "f x s = Inr u" "foldR f xs u = Inr t"
    by auto
  from u(1) Cons.prems(2,3) have "P u" by (meson list.set_intros(1))
  with u(2) Cons.prems(3) show ?case
    by (meson Cons.IH list.set_intros(2))
qed

lemma foldR_map: "foldR f (map g xs) s = foldR (\<lambda>x. f (g x)) xs s"
  by (induction xs arbitrary: s) (simp_all add: bindR_def split: sum.splits)

subsection \<open>Bytes, strings and hexadecimal keys\<close>

definition char_byte :: "char \<Rightarrow> u8" where
  "char_byte c = word_of_nat (of_char c)"

definition byte_char :: "u8 \<Rightarrow> char" where
  "byte_char b = char_of (unat b)"

lemma byte_char_char_byte [simp]: "byte_char (char_byte c) = c"
  by (simp add: byte_char_def char_byte_def unat_of_nat)

lemma unat_u8_less: "unat (b :: u8) < 256"
proof -
  have "unat b < 2 ^ LENGTH(8)" by (rule unsigned_less)
  then show ?thesis by simp
qed

lemma char_byte_byte_char [simp]: "char_byte (byte_char b) = b"
  using unat_u8_less [of b] by (simp add: byte_char_def char_byte_def)

text \<open>\<^verbatim>\<open>[]byte(s)\<close> and \<^verbatim>\<open>string(b)\<close>.\<close>

definition string_bytes :: "string \<Rightarrow> bytes" where
  "string_bytes s = map char_byte s"

definition bytes_string :: "bytes \<Rightarrow> string" where
  "bytes_string bs = map byte_char bs"

lemma bytes_string_string_bytes [simp]: "bytes_string (string_bytes s) = s"
  by (simp add: bytes_string_def string_bytes_def comp_def)

lemma string_bytes_bytes_string [simp]: "string_bytes (bytes_string bs) = bs"
  by (simp add: bytes_string_def string_bytes_def comp_def)

lemma length_string_bytes [simp]: "length (string_bytes s) = length s"
  by (simp add: string_bytes_def)

lemma length_bytes_string [simp]: "length (bytes_string bs) = length bs"
  by (simp add: bytes_string_def)

definition hexDigit :: "nat \<Rightarrow> char" where
  "hexDigit n = ''0123456789abcdef'' ! n"

text \<open>\<^verbatim>\<open>encoding/hex.EncodeToString\<close>: two lower-case digits for each byte.\<close>

fun hexEncodeToString :: "bytes \<Rightarrow> string" where
  "hexEncodeToString [] = []"
| "hexEncodeToString (b # bs) =
     hexDigit (unat b div 16) # hexDigit (unat b mod 16) # hexEncodeToString bs"

lemma hexDigit_inj:
  assumes "m < 16" and "n < 16" and "hexDigit m = hexDigit n"
  shows "m = n"
proof -
  have "distinct ''0123456789abcdef''" by simp
  with assms show ?thesis
    unfolding hexDigit_def by (subst (asm) nth_eq_iff_index_eq) simp_all
qed

lemma hexEncode_byte_inj:
  assumes "hexDigit (unat (b :: u8) div 16) = hexDigit (unat c div 16)"
    and "hexDigit (unat b mod 16) = hexDigit (unat c mod 16)"
  shows "b = c"
proof -
  have "unat b < 256" and "unat c < 256"
    by (rule unat_u8_less)+
  then have "unat b div 16 = unat c div 16"
    using hexDigit_inj [OF _ _ assms(1)] by auto
  moreover have "unat b mod 16 = unat c mod 16"
    using hexDigit_inj [OF _ _ assms(2)] by auto
  ultimately have "unat b = unat c"
    by (metis div_mult_mod_eq)
  then show ?thesis by (rule unsigned_word_eqI)
qed

lemma hexEncodeToString_inject [simp]: "hexEncodeToString xs = hexEncodeToString ys \<longleftrightarrow> xs = ys"
proof (induction xs arbitrary: ys)
  case Nil
  then show ?case by (cases ys) auto
next
  case (Cons x xs)
  then show ?case
    by (cases ys) (auto dest: hexEncode_byte_inj)
qed

lemma length_hexEncodeToString [simp]: "length (hexEncodeToString bs) = 2 * length bs"
  by (induction bs) auto

subsection \<open>Maps and sets\<close>

text \<open>
  A Go map is a partial function. \<^verbatim>\<open>delete(m, k)\<close> is \<open>m(k := None)\<close>, \<^verbatim>\<open>m[k] = v\<close> is
  \<open>m(k \<mapsto> v)\<close>. The order in which \<^verbatim>\<open>range\<close> visits a map is not specified by the language:
  an operation that ranges over a map takes as a parameter \<open>ord\<close> the function that lists its keys, and
  a property assumes of it only \<open>ranges ord\<close>: it lists the keys of a finite map, each once.
\<close>

definition ranges :: "('k set \<Rightarrow> 'k list) \<Rightarrow> bool" where
  "ranges ord \<longleftrightarrow> (\<forall>A. finite A \<longrightarrow> distinct (ord A) \<and> set (ord A) = A)"

lemma rangesD [dest]: "ranges ord \<Longrightarrow> finite A \<Longrightarrow> distinct (ord A) \<and> set (ord A) = A"
  by (auto simp: ranges_def)

lemma ranges_length: "ranges ord \<Longrightarrow> finite A \<Longrightarrow> length (ord A) = card A"
  by (metis distinct_card rangesD)

lemma ranges_sorted: "ranges (sorted_list_of_set :: 'a::linorder set \<Rightarrow> 'a list)"
  by (simp add: ranges_def)

lemma fun_upd_idle [simp]: "m k = v \<Longrightarrow> m(k := v) = m"
  by auto

lemma insert_remove [undo_simps]: "x \<notin> A \<Longrightarrow> insert x A - {x} = A"
  by auto

lemma remove_insert [undo_simps]: "x \<in> A \<Longrightarrow> insert x (A - {x}) = A"
  by auto

subsection \<open>Signed 64-bit amounts\<close>

abbreviation fixed :: "Fixed64 \<Rightarrow> int" where
  "fixed \<equiv> sint"

lemma fixed_add_exact:
  fixes a b :: Fixed64
  assumes "- (2 ^ 63) \<le> fixed a + fixed b" and "fixed a + fixed b < 2 ^ 63"
  shows "fixed (a + b) = fixed a + fixed b"
proof -
  have "sint (a + b) = signed_take_bit 63 (sint a + sint b)"
    using sint_word_ariths(1) [of a b] by simp
  then show ?thesis
    using assms by (simp add: signed_take_bit_int_eq_self_iff)
qed

end
