(* ===== verification/Codec.thy ===== *)
theory Codec
  imports Prelude
begin

section \<open>The wire format: common/serialize.go\<close>

text \<open>
  The primitive writers and readers every payload, transaction and checkpoint is built from.
  A writer is modelled by the bytes it appends: the \<^verbatim>\<open>io.Writer\<close> is a \<^verbatim>\<open>bytes.Buffer\<close>, whose
  Write never fails. A reader consumes a prefix of the remaining input and returns the value with
  the rest, or the error the code returns with the input left unread. \<open>rbind\<close> is the sequencing
  \<^verbatim>\<open>x, err := m(r); if err != nil { return err }\<close>.

  The contract of a Serialize / Deserialize pair is the locale \<open>codec\<close> (reading back what was
  written gives the value and leaves the rest of the input), and \<open>canonical_codec\<close> for the pairs
  where, besides, a reader accepts no other bytes than those its writer produces.
\<close>

datatype read_error =
    EOF
  | ErrUnexpectedEOF
  | NonCanonicalVarInt u64 u8 u64
  | LargerThanMax string u64 u32
  | StringTooLong u64
  | ErrMsg string
  | MakeSlicePanic

type_synonym 'a reader = "bytes \<Rightarrow> (read_error \<times> bytes) + ('a \<times> bytes)"

definition rret :: "'a \<Rightarrow> 'a reader" where
  [codec_simps]: "rret x r = Inr (x, r)"

definition rfail :: "read_error \<Rightarrow> 'a reader" where
  [codec_simps]: "rfail e r = Inl (e, r)"

definition rbind :: "'a reader \<Rightarrow> ('a \<Rightarrow> 'b reader) \<Rightarrow> 'b reader" where
  [codec_simps]: "rbind m k r = (case m r of Inl e \<Rightarrow> Inl e | Inr (x, r') \<Rightarrow> k x r')"

text \<open>\<^verbatim>\<open>if err != nil { return errors.New(msg) }\<close>; a panic is no error and goes through.\<close>

definition rwrap :: "string \<Rightarrow> 'a reader \<Rightarrow> 'a reader" where
  [codec_simps]: "rwrap msg m r = (case m r of Inl (e, r') \<Rightarrow> Inl (if e = MakeSlicePanic then e else ErrMsg msg, r') | Inr y \<Rightarrow> Inr y)"

text \<open>
  \<^verbatim>\<open>make([]T, n)\<close> with \<open>n\<close> read from the wire: the run time panics when the slice would exceed the
  address space (\<^verbatim>\<open>maxAlloc\<close>, 2^48 bytes on a 64-bit platform).
\<close>

definition makeSlice :: "nat \<Rightarrow> u64 \<Rightarrow> unit reader" where
  "makeSlice elemSize n = (if elemSize * unat n > 2 ^ 48 then rfail MakeSlicePanic else rret ())"

text \<open>\<^verbatim>\<open>for i := 0; i < n; i++ { x.Deserialize(r); xs = append(xs, x) }\<close>\<close>

fun readN :: "nat \<Rightarrow> 'a reader \<Rightarrow> 'a list reader" where
  "readN 0 m = rret []"
| "readN (Suc n) m = rbind m (\<lambda>x. rbind (readN n m) (\<lambda>xs. rret (x # xs)))"

lemma rwrap_Inr_iff [simp]: "rwrap msg m r = Inr y \<longleftrightarrow> m r = Inr y"
  by (auto simp: rwrap_def split: sum.splits)

lemma rbind_Inr_iff:
  "rbind m k r = Inr y \<longleftrightarrow> (\<exists>x r'. m r = Inr (x, r') \<and> k x r' = Inr y)"
  by (auto simp: rbind_def split: sum.splits)

lemma rret_Inr_iff: "rret x r = Inr (y, r') \<longleftrightarrow> y = x \<and> r' = r"
  by (auto simp: rret_def)

lemma readN_length: "readN n m r = Inr (xs, r') \<Longrightarrow> length xs = n"
  by (induction n arbitrary: r xs r') (auto simp: rbind_Inr_iff rret_Inr_iff)

subsection \<open>The contracts of a Serialize / Deserialize pair\<close>

locale codec =
  fixes enc :: "'a \<Rightarrow> bytes"
    and dec :: "'a reader"
    and ok :: "'a \<Rightarrow> bool"
  assumes dec_enc: "ok x \<Longrightarrow> dec (enc x @ r) = Inr (x, r)"
begin

lemma dec_enc_end: "ok x \<Longrightarrow> dec (enc x) = Inr (x, [])"
  using dec_enc [of x "[]"] by simp

text \<open>No encoding is a proper prefix of another: a stream of records parses in one way.\<close>

lemma prefix_free:
  assumes "ok x" and "ok y" and "enc x @ r = enc y @ r'"
  shows "x = y \<and> r = r'"
proof -
  have "Inr (x, r) = dec (enc x @ r)" by (simp add: dec_enc assms(1))
  also have "\<dots> = Inr (y, r')" by (simp only: assms(3) dec_enc [OF assms(2)])
  finally show ?thesis by simp
qed

lemma enc_inject: "ok x \<Longrightarrow> ok y \<Longrightarrow> enc x = enc y \<longleftrightarrow> x = y"
  using prefix_free [of x y "[]" "[]"] by auto

lemma readN_enc:
  "\<forall>x \<in> set xs. ok x \<Longrightarrow> readN (length xs) dec (concat (map enc xs) @ r) = Inr (xs, r)"
proof (induction xs)
  case Nil
  then show ?case by (simp add: rret_def)
next
  case (Cons x xs)
  then have "dec (enc x @ concat (map enc xs) @ r) = Inr (x, concat (map enc xs) @ r)"
    by (simp add: dec_enc)
  with Cons show ?case by (simp add: rbind_def rret_def)
qed

end

locale canonical_codec = codec +
  assumes enc_dec: "dec bs = Inr (x, r) \<Longrightarrow> ok x \<and> bs = enc x @ r"
begin

lemma dec_Inr_iff: "dec bs = Inr (x, r) \<longleftrightarrow> ok x \<and> bs = enc x @ r"
  using enc_dec dec_enc by auto

text \<open>Two byte strings that decode to the same value are the same bytes.\<close>

lemma not_malleable: "dec bs = Inr (x, []) \<Longrightarrow> dec bs' = Inr (x, []) \<Longrightarrow> bs = bs'"
  by (auto dest!: enc_dec)

lemma readN_Inr:
  "readN n dec bs = Inr (xs, r) \<Longrightarrow>
     length xs = n \<and> (\<forall>x \<in> set xs. ok x) \<and> bs = concat (map enc xs) @ r"
  by (induction n arbitrary: bs xs)
     (fastforce simp: rbind_Inr_iff rret_Inr_iff dest: enc_dec)+

end

subsection \<open>Fixed-width integers\<close>

text \<open>\<^verbatim>\<open>encoding/binary.LittleEndian\<close>: the least significant byte first.\<close>

fun putLE :: "nat \<Rightarrow> 'a::len word \<Rightarrow> bytes" where
  "putLE 0 v = []"
| "putLE (Suc n) v = ucast v # putLE n (drop_bit 8 v)"

fun getLE :: "bytes \<Rightarrow> 'a::len word" where
  "getLE [] = 0"
| "getLE (b # bs) = ucast b OR push_bit 8 (getLE bs)"

lemma length_putLE [simp]: "length (putLE n v) = n"
  by (induction n arbitrary: v) auto

lemma getLE_putLE_take_bit: "getLE (putLE n v) = take_bit (8 * n) v"
proof (induction n arbitrary: v)
  case 0
  then show ?case by simp
next
  case (Suc n)
  show ?case
    by (rule bit_word_eqI) (auto simp: Suc bit_simps)
qed

lemma getLE_putLE: "8 * n = LENGTH('a) \<Longrightarrow> getLE (putLE n v) = (v :: 'a::len word)"
  by (simp add: getLE_putLE_take_bit)

text \<open>\<open>putLE n\<close> reads only the low \<open>8 * n\<close> bits.\<close>

lemma putLE_cong:
  "\<forall>i < 8 * n. bit v i = bit w i \<Longrightarrow> putLE n (v :: 'a::len word) = putLE n w"
proof (induction n arbitrary: v w)
  case 0
  then show ?case by simp
next
  case (Suc n)
  have "ucast v = (ucast w :: u8)"
    by (rule bit_word_eqI) (use Suc.prems in \<open>auto simp: bit_simps\<close>)
  moreover have "putLE n (drop_bit 8 v) = putLE n (drop_bit 8 w)"
    by (rule Suc.IH) (use Suc.prems in \<open>auto simp: bit_simps\<close>)
  ultimately show ?case by simp
qed

lemma putLE_getLE:
  "length bs = n \<Longrightarrow> 8 * n \<le> LENGTH('a) \<Longrightarrow> putLE n (getLE bs :: 'a::len word) = bs"
proof (induction bs arbitrary: n)
  case Nil
  then show ?case by simp
next
  case (Cons b bs)
  then obtain m where m: "n = Suc m" "length bs = m" "8 * Suc m \<le> LENGTH('a)"
    by auto
  have low: "ucast (ucast b OR push_bit 8 (getLE bs) :: 'a word) = b"
    by (rule bit_word_eqI) (use m(3) in \<open>auto simp: bit_simps\<close>)
  have high: "putLE m (drop_bit 8 (ucast b OR push_bit 8 (getLE bs) :: 'a word)) =
      putLE m (getLE bs :: 'a word)"
    by (rule putLE_cong) (use m(3) in \<open>auto simp: bit_simps dest: bit_imp_le_length\<close>)
  from Cons.IH [of m] m low high show ?case
    by simp
qed

text \<open>\<^verbatim>\<open>io.ReadFull\<close>: exactly \<open>n\<close> bytes, or io.EOF when there is none and
  io.ErrUnexpectedEOF when there are too few.\<close>

definition ReadFull :: "nat \<Rightarrow> bytes reader" where
  "ReadFull n r =
     (if n \<le> length r then Inr (take n r, drop n r)
      else Inl (if r = [] then EOF else ErrUnexpectedEOF, []))"

lemma ReadFull_append [codec_simps]: "length b = n \<Longrightarrow> ReadFull n (b @ r) = Inr (b, r)"
  by (simp add: ReadFull_def)

lemma ReadFull_Inr: "ReadFull n r = Inr (b, r') \<longleftrightarrow> length b = n \<and> r = b @ r'"
  by (auto simp: ReadFull_def split: if_splits)

definition WriteUint8 :: "u8 \<Rightarrow> bytes" where
  "WriteUint8 val = [val]"

definition WriteUint16 :: "u16 \<Rightarrow> bytes" where
  "WriteUint16 val = putLE 2 val"

definition WriteUint32 :: "u32 \<Rightarrow> bytes" where
  "WriteUint32 val = putLE 4 val"

definition WriteUint64 :: "u64 \<Rightarrow> bytes" where
  "WriteUint64 val = putLE 8 val"

definition ReadUint8 :: "u8 reader" where
  "ReadUint8 = rbind (ReadFull 1) (\<lambda>buf. rret (buf ! 0))"

definition ReadUint16 :: "u16 reader" where
  "ReadUint16 = rbind (ReadFull 2) (\<lambda>buf. rret (getLE buf))"

definition ReadUint32 :: "u32 reader" where
  "ReadUint32 = rbind (ReadFull 4) (\<lambda>buf. rret (getLE buf))"

definition ReadUint64 :: "u64 reader" where
  "ReadUint64 = rbind (ReadFull 8) (\<lambda>buf. rret (getLE buf))"

interpretation u8: canonical_codec WriteUint8 ReadUint8 "\<lambda>_. True"
proof
  show "ReadUint8 (WriteUint8 x @ r) = Inr (x, r)" for x r
    by (simp add: WriteUint8_def ReadUint8_def ReadFull_def codec_simps)
  show "True \<and> bs = WriteUint8 x @ r" if "ReadUint8 bs = Inr (x, r)" for bs x r
    using that by (auto simp: WriteUint8_def ReadUint8_def ReadFull_Inr rbind_Inr_iff
        rret_Inr_iff length_Suc_conv)
qed

text \<open>The three wider integers have one proof, by the width.\<close>

lemma le_canonical_codec:
  assumes "8 * n = LENGTH('a::len)"
  shows "canonical_codec (putLE n :: 'a word \<Rightarrow> bytes) (rbind (ReadFull n) (\<lambda>buf. rret (getLE buf)))
    (\<lambda>_. True)"
proof
  show "rbind (ReadFull n) (\<lambda>buf. rret (getLE buf)) (putLE n x @ r) = Inr (x, r)"
    for x :: "'a word" and r
    by (simp add: codec_simps getLE_putLE [OF assms])
  show "True \<and> bs = putLE n x @ r"
    if "rbind (ReadFull n) (\<lambda>buf. rret (getLE buf)) bs = Inr (x, r)" for bs r and x :: "'a word"
    using that assms by (auto simp: ReadFull_Inr rbind_Inr_iff rret_Inr_iff putLE_getLE)
qed

interpretation u16: canonical_codec WriteUint16 ReadUint16 "\<lambda>_. True"
  unfolding WriteUint16_def [abs_def] ReadUint16_def by (rule le_canonical_codec) simp

interpretation u32: canonical_codec WriteUint32 ReadUint32 "\<lambda>_. True"
  unfolding WriteUint32_def [abs_def] ReadUint32_def by (rule le_canonical_codec) simp

interpretation u64: canonical_codec WriteUint64 ReadUint64 "\<lambda>_. True"
  unfolding WriteUint64_def [abs_def] ReadUint64_def by (rule le_canonical_codec) simp

lemmas uint_dec_enc [codec_simps] =
  u8.dec_enc [simplified] u16.dec_enc [simplified] u32.dec_enc [simplified] u64.dec_enc [simplified]

subsection \<open>Variable-length integers, byte strings and strings\<close>

definition WriteVarUint :: "u64 \<Rightarrow> bytes" where
  "WriteVarUint val =
     (if val < 0xfd then WriteUint8 (ucast val)
      else if val \<le> 0xffff then WriteUint8 0xfd @ WriteUint16 (ucast val)
      else if val \<le> 0xffffffff then WriteUint8 0xfe @ WriteUint32 (ucast val)
      else WriteUint8 0xff @ WriteUint64 val)"

definition VarUintSerializeSize :: "u64 \<Rightarrow> nat" where
  "VarUintSerializeSize val =
     (if val < 0xfd then 1 else if val \<le> 0xffff then 3 else if val \<le> 0xffffffff then 5 else 9)"

definition ReadVarUint :: "u64 reader" where
  "ReadVarUint = rbind ReadUint8 (\<lambda>discriminant.
     if discriminant = 0xff then
       rbind ReadUint64 (\<lambda>rv. let min = 0x100000000 in
         if rv < min then rfail (NonCanonicalVarInt rv discriminant min) else rret rv)
     else if discriminant = 0xfe then
       rbind ReadUint32 (\<lambda>sv. let rv = ucast sv; min = 0x10000 in
         if rv < min then rfail (NonCanonicalVarInt rv discriminant min) else rret rv)
     else if discriminant = 0xfd then
       rbind ReadUint16 (\<lambda>sv. let rv = ucast sv; min = 0xfd in
         if rv < min then rfail (NonCanonicalVarInt rv discriminant min) else rret rv)
     else rret (ucast discriminant))"

text \<open>A value that fits survives the conversion to a narrower type and back.\<close>

lemma ucast_ucast_id:
  assumes "unat w < 2 ^ LENGTH('b::len)"
  shows "ucast (ucast (w :: 'a::len word) :: 'b word) = w"
proof (rule bit_word_eqI)
  fix i
  have "\<not> bit w i" if "LENGTH('b) \<le> i"
  proof -
    have "take_bit LENGTH('b) (unat w) = unat w"
      using assms by (simp add: take_bit_nat_eq_self)
    then have "take_bit LENGTH('b) w = w"
      by (metis unsigned_take_bit_eq unsigned_word_eqI)
    then show ?thesis
      using that by (metis bit_take_bit_iff not_less)
  qed
  then show "bit (ucast (ucast w :: 'b word) :: 'a word) i \<longleftrightarrow> bit w i"
    by (cases "LENGTH('b) \<le> i") (auto simp: bit_simps dest: bit_imp_le_length)
qed

lemma unat_ucast_less:
  "unat w < 2 ^ LENGTH('b::len) \<Longrightarrow> unat (ucast (w :: 'a::len word) :: 'b word) = unat w"
  by (simp add: unsigned_ucast_eq take_bit_nat_eq_self)

lemma unat_ucast_bound: "unat (ucast (w :: 'b::len word) :: 'a::len word) < 2 ^ LENGTH('b)"
proof -
  have "unat (ucast w :: 'a word) \<le> unat w"
    by (simp add: unsigned_ucast_eq take_bit_nat_less_eq_self)
  also have "unat w < 2 ^ LENGTH('b)" by (rule unsigned_less)
  finally show ?thesis .
qed

lemma ucast_up_ucast:
  "LENGTH('b::len) \<le> LENGTH('a::len) \<Longrightarrow> ucast (ucast (w :: 'b word) :: 'a word) = w"
  by (rule bit_word_eqI) (auto simp: bit_simps)

lemma ReadVarUint_WriteVarUint: "ReadVarUint (WriteVarUint val @ r) = Inr (val, r)"
proof -
  consider "val < 0xfd" | "\<not> val < 0xfd" "val \<le> 0xffff"
    | "\<not> val \<le> 0xffff" "\<not> val < 0xfd" "val \<le> 0xffffffff"
    | "\<not> val \<le> 0xffffffff" "\<not> val \<le> 0xffff" "\<not> val < 0xfd"
    by (auto simp: word_le_nat_alt word_less_nat_alt)
  then show ?thesis
  proof cases
    case 1
    then have "unat (ucast val :: u8) < 253" and "ucast (ucast val :: u8) = val"
      by (simp_all add: word_less_nat_alt unat_ucast_less ucast_ucast_id)
    moreover from this(1) have "(ucast val :: u8) \<noteq> 0xff" "(ucast val :: u8) \<noteq> 0xfe"
      "(ucast val :: u8) \<noteq> 0xfd" by auto
    ultimately show ?thesis
      using 1 by (simp add: WriteVarUint_def ReadVarUint_def codec_simps)
  next
    case 2
    then have "ucast (ucast val :: u16) = val"
      by (intro ucast_ucast_id) (simp add: word_le_nat_alt)
    with 2 show ?thesis
      by (simp add: WriteVarUint_def ReadVarUint_def codec_simps)
  next
    case 3
    then have "ucast (ucast val :: u32) = val"
      by (intro ucast_ucast_id) (simp add: word_le_nat_alt)
    moreover from 3 have "\<not> val < 0x10000"
      by (simp add: word_le_nat_alt word_less_nat_alt)
    ultimately show ?thesis
      using 3 by (simp add: WriteVarUint_def ReadVarUint_def codec_simps)
  next
    case 4
    then have "\<not> val < 0x100000000"
      by (simp add: word_le_nat_alt word_less_nat_alt)
    with 4 show ?thesis
      by (simp add: WriteVarUint_def ReadVarUint_def codec_simps)
  qed
qed

text \<open>The reader accepts the shortest form only.\<close>

lemma ReadVarUint_canonical:
  assumes "ReadVarUint bs = Inr (val, r)"
  shows "bs = WriteVarUint val @ r"
proof -
  from assms obtain d r1 where d: "bs = WriteUint8 d @ r1"
    unfolding ReadVarUint_def by (auto simp: rbind_Inr_iff u8.dec_Inr_iff)
  note step = assms [unfolded d ReadVarUint_def, simplified codec_simps, simplified]
  consider "d = 0xff" | "d = 0xfe" | "d = 0xfd" | "d \<noteq> 0xff" "d \<noteq> 0xfe" "d \<noteq> 0xfd" by blast
  then show ?thesis
  proof cases
    case 1
    with step have "r1 = WriteUint64 val @ r" and "\<not> val < 0x100000000"
      by (auto simp: u64.dec_Inr_iff codec_simps Let_def split: sum.splits if_splits)
    moreover from this(2) have "\<not> val < 0xfd" "\<not> val \<le> 0xffff" "\<not> val \<le> 0xffffffff"
      by (simp_all add: word_le_nat_alt word_less_nat_alt)
    ultimately show ?thesis
      using d 1 by (simp add: WriteVarUint_def)
  next
    case 2
    with step obtain sv where r1: "r1 = WriteUint32 sv @ r" and "\<not> val < 0x10000" and v: "val = ucast sv"
      by (auto simp: u32.dec_Inr_iff codec_simps Let_def split: sum.splits if_splits)
    moreover have "unat val < 2 ^ LENGTH(32)"
      unfolding v by (rule unat_ucast_bound)
    ultimately have "\<not> val < 0xfd" "\<not> val \<le> 0xffff" "val \<le> 0xffffffff"
      by (simp_all add: word_le_nat_alt word_less_nat_alt)
    moreover have "ucast val = sv" by (simp add: v ucast_up_ucast)
    ultimately show ?thesis
      using d 2 r1 by (simp add: WriteVarUint_def)
  next
    case 3
    with step obtain sv where r1: "r1 = WriteUint16 sv @ r" and nc: "\<not> val < 0xfd" and v: "val = ucast sv"
      by (auto simp: u16.dec_Inr_iff codec_simps Let_def split: sum.splits if_splits)
    have "unat val < 2 ^ LENGTH(16)"
      unfolding v by (rule unat_ucast_bound)
    then have "val \<le> 0xffff"
      by (simp add: word_le_nat_alt)
    moreover have "ucast val = sv" by (simp add: v ucast_up_ucast)
    ultimately show ?thesis
      using d 3 r1 nc by (simp add: WriteVarUint_def)
  next
    case 4
    with step have v: "val = ucast d" and r1: "r1 = r" by (simp_all add: codec_simps)
    have "unat d \<noteq> 255" "unat d \<noteq> 254" "unat d \<noteq> 253"
      using 4 by (auto simp: word_eq_iff_unsigned [where ?'a = nat])
    with unat_u8_less [of d] have "unat d < 253" by linarith
    then have "val < 0xfd"
      by (simp add: v word_less_nat_alt unsigned_ucast_eq take_bit_nat_eq_self)
    with d r1 v show ?thesis
      by (simp add: WriteVarUint_def ucast_up_ucast)
  qed
qed

interpretation varUint: canonical_codec WriteVarUint ReadVarUint "\<lambda>_. True"
  by unfold_locales (auto simp: ReadVarUint_WriteVarUint dest: ReadVarUint_canonical)

lemma length_WriteVarUint: "length (WriteVarUint val) = VarUintSerializeSize val"
  by (simp add: WriteVarUint_def VarUintSerializeSize_def WriteUint8_def WriteUint16_def
      WriteUint32_def WriteUint64_def)

definition WriteVarBytes :: "bytes \<Rightarrow> bytes" where
  "WriteVarBytes b = WriteVarUint (word_of_nat (length b)) @ b"

definition WriteVarString :: "string \<Rightarrow> bytes" where
  "WriteVarString str = WriteVarUint (word_of_nat (length str)) @ string_bytes str"

definition ReadVarBytes :: "u32 \<Rightarrow> string \<Rightarrow> bytes reader" where
  "ReadVarBytes maxAllowed fieldName = rbind ReadVarUint (\<lambda>count.
     if count > ucast maxAllowed then rfail (LargerThanMax fieldName count maxAllowed)
     else ReadFull (unat count))"

definition MaxVarStringLength :: u64 where
  "MaxVarStringLength = 1024 * 1024 * 16"

definition ReadVarString :: "string reader" where
  "ReadVarString = rbind ReadVarUint (\<lambda>count.
     if count > MaxVarStringLength then rfail (StringTooLong count)
     else rbind (ReadFull (unat count)) (\<lambda>buf. rret (bytes_string buf)))"

text \<open>
  \<^verbatim>\<open>ReadBytes\<close> calls Read once and takes any positive number of bytes for success: on a short
  input the rest of the result is the zero bytes of the fresh slice.
\<close>

definition ReadBytes :: "nat \<Rightarrow> bytes reader" where
  "ReadBytes n r =
     (if n = 0 then Inr ([], r)
      else if r = [] then Inl (EOF, [])
      else Inr (take n r @ replicate (n - length r) 0, drop n r))"

lemma unat_word_of_nat_u64: "n < 2 ^ 64 \<Longrightarrow> unat (word_of_nat n :: u64) = n"
  by (simp add: unat_of_nat)

lemma unat_u32_less: "unat (w :: u32) < 2 ^ 32"
proof -
  have "unat w < 2 ^ LENGTH(32)" by (rule unsigned_less)
  then show ?thesis by simp
qed

lemma unat_u32_u64: "unat (ucast (w :: u32) :: u64) = unat w"
  using unat_u32_less [of w] by (simp add: unat_ucast_less)

lemma varBytes_canonical_codec:
  "canonical_codec WriteVarBytes (ReadVarBytes mx name) (\<lambda>b. length b \<le> unat mx)"
proof
  fix b :: bytes and r assume "length b \<le> unat mx"
  moreover from this have "unat (word_of_nat (length b) :: u64) = length b"
    using unat_u32_less [of mx] by (intro unat_word_of_nat_u64) simp
  ultimately show "ReadVarBytes mx name (WriteVarBytes b @ r) = Inr (b, r)"
    by (simp add: ReadVarBytes_def WriteVarBytes_def codec_simps varUint.dec_enc
        word_less_nat_alt unat_u32_u64)
next
  fix bs b r assume "ReadVarBytes mx name bs = Inr (b, r)"
  then obtain c where c: "bs = WriteVarUint c @ b @ r" "\<not> c > ucast mx" "length b = unat c"
    by (auto simp: ReadVarBytes_def rbind_Inr_iff varUint.dec_Inr_iff rfail_def ReadFull_Inr
        split: if_splits)
  from c(2) have "unat c \<le> unat mx"
    by (simp add: word_less_nat_alt unat_u32_u64 not_less)
  with c show "length b \<le> unat mx \<and> bs = WriteVarBytes b @ r"
    by (simp add: WriteVarBytes_def)
qed

interpretation varBytes: canonical_codec WriteVarBytes "ReadVarBytes mx name" "\<lambda>b. length b \<le> unat mx"
  for mx name
  by (rule varBytes_canonical_codec)

lemma MaxVarStringLength_nat: "unat MaxVarStringLength = 16777216"
  by (simp add: MaxVarStringLength_def)

interpretation varString: canonical_codec WriteVarString ReadVarString "\<lambda>s. length s \<le> 16777216"
proof
  fix s r assume "length (s :: string) \<le> 16777216"
  moreover from this have "unat (word_of_nat (length s) :: u64) = length s"
    by (intro unat_word_of_nat_u64) simp
  ultimately show "ReadVarString (WriteVarString s @ r) = Inr (s, r)"
    by (simp add: ReadVarString_def WriteVarString_def codec_simps varUint.dec_enc
        word_less_nat_alt MaxVarStringLength_nat)
next
  fix bs s r assume "ReadVarString bs = Inr (s, r)"
  then obtain c b where c: "bs = WriteVarUint c @ b @ r" "\<not> c > MaxVarStringLength"
      "length b = unat c" "s = bytes_string b"
    by (auto simp: ReadVarString_def rbind_Inr_iff rret_Inr_iff varUint.dec_Inr_iff rfail_def
        ReadFull_Inr split: if_splits)
  then show "length s \<le> 16777216 \<and> bs = WriteVarString s @ r"
    by (simp add: WriteVarString_def word_less_nat_alt MaxVarStringLength_nat)
qed

subsection \<open>Counted lists\<close>

text \<open>A list on the wire: its length as a variable-length integer, then its elements. The reader
  allocates the slice before it reads the elements.\<close>

definition writeList :: "('a \<Rightarrow> bytes) \<Rightarrow> 'a list \<Rightarrow> bytes" where
  "writeList enc xs = WriteVarUint (word_of_nat (length xs)) @ concat (map enc xs)"

definition readList :: "nat \<Rightarrow> 'a reader \<Rightarrow> 'a list reader" where
  "readList elemSize dec =
     rbind ReadVarUint (\<lambda>n. rbind (makeSlice elemSize n) (\<lambda>_. readN (unat n) dec))"

lemma makeSlice_Inr [simp]:
  "makeSlice sz n r = Inr ((), r') \<longleftrightarrow> sz * unat n \<le> 2 ^ 48 \<and> r' = r"
  by (auto simp: makeSlice_def rfail_def rret_def)

definition list_wf :: "nat \<Rightarrow> ('a \<Rightarrow> bool) \<Rightarrow> 'a list \<Rightarrow> bool" where
  "list_wf sz ok xs \<longleftrightarrow> (\<forall>x \<in> set xs. ok x) \<and> sz * length xs \<le> 2 ^ 48 \<and> length xs < 2 ^ 64"

context codec
begin

lemma codec_list: "codec (writeList enc) (readList sz dec) (list_wf sz ok)"
proof
  fix xs r assume ok: "list_wf sz ok xs"
  then have "unat (word_of_nat (length xs) :: u64) = length xs"
    by (simp add: list_wf_def unat_word_of_nat_u64)
  then show "readList sz dec (writeList enc xs @ r) = Inr (xs, r)"
    using ok by (simp add: readList_def writeList_def codec_simps varUint.dec_enc readN_enc
        list_wf_def makeSlice_def)
qed

end

context canonical_codec
begin

lemma canonical_codec_list: "canonical_codec (writeList enc) (readList sz dec) (list_wf sz ok)"
proof (rule canonical_codec.intro [OF codec_list], unfold_locales)
  fix bs xs r assume "readList sz dec bs = Inr (xs, r)"
  then obtain n r1 where n: "bs = WriteVarUint n @ r1" "sz * unat n \<le> 2 ^ 48"
      "readN (unat n) dec r1 = Inr (xs, r)"
    by (auto simp: readList_def rbind_Inr_iff varUint.dec_Inr_iff)
  from readN_Inr [OF n(3)] have xs: "length xs = unat n" "\<forall>x \<in> set xs. ok x"
      "r1 = concat (map enc xs) @ r" by auto
  have "unat n < 2 ^ LENGTH(64)" by (rule unsigned_less)
  with n xs show "list_wf sz ok xs \<and> bs = writeList enc xs @ r"
    by (simp add: list_wf_def writeList_def)
qed

end

lemmas var_dec_enc [codec_simps] =
  varUint.dec_enc [simplified] varBytes.dec_enc varString.dec_enc

subsection \<open>Hashes and amounts: common/uint256.go, uint168.go, fixed64.go\<close>

definition Uint256_Serialize :: "Uint256 \<Rightarrow> bytes" where
  "Uint256_Serialize u = u"

definition Uint256_Deserialize :: "Uint256 reader" where
  "Uint256_Deserialize = ReadFull 32"

definition Uint168_Serialize :: "Uint168 \<Rightarrow> bytes" where
  "Uint168_Serialize u = u"

definition Uint168_Deserialize :: "Uint168 reader" where
  "Uint168_Deserialize = ReadFull 21"

definition Fixed64_Serialize :: "Fixed64 \<Rightarrow> bytes" where
  "Fixed64_Serialize f = WriteUint64 f"

definition Fixed64_Deserialize :: "Fixed64 reader" where
  "Fixed64_Deserialize = ReadUint64"

interpretation uint256: canonical_codec Uint256_Serialize Uint256_Deserialize "\<lambda>u. length u = 32"
  by unfold_locales (auto simp: Uint256_Serialize_def Uint256_Deserialize_def ReadFull_Inr)

interpretation uint168: canonical_codec Uint168_Serialize Uint168_Deserialize "\<lambda>u. length u = 21"
  by unfold_locales (auto simp: Uint168_Serialize_def Uint168_Deserialize_def ReadFull_Inr)

interpretation fixed64: canonical_codec Fixed64_Serialize Fixed64_Deserialize "\<lambda>_. True"
  unfolding Fixed64_Serialize_def [abs_def] Fixed64_Deserialize_def by unfold_locales

lemmas hash_dec_enc [codec_simps] =
  uint256.dec_enc uint168.dec_enc fixed64.dec_enc [simplified]

text \<open>\<^verbatim>\<open>Compare\<close> reads both hashes from the last byte down: the numeric order of the
  little-endian values.\<close>

fun compareFrom :: "nat \<Rightarrow> bytes \<Rightarrow> bytes \<Rightarrow> int" where
  "compareFrom 0 u v = 0"
| "compareFrom (Suc i) u v =
     (if u ! i > v ! i then 1 else if u ! i < v ! i then -1 else compareFrom i u v)"

definition Uint256_Compare :: "Uint256 \<Rightarrow> Uint256 \<Rightarrow> int" where
  "Uint256_Compare u v = compareFrom 32 u v"

definition Uint168_Compare :: "Uint168 \<Rightarrow> Uint168 \<Rightarrow> int" where
  "Uint168_Compare u v = compareFrom 21 u v"

text \<open>The number a little-endian byte string stands for.\<close>

fun leVal :: "bytes \<Rightarrow> nat" where
  "leVal [] = 0"
| "leVal (b # bs) = unat b + 256 * leVal bs"

lemma leVal_append: "leVal (xs @ ys) = leVal xs + 256 ^ length xs * leVal ys"
  by (induction xs) (auto simp: algebra_simps)

lemma leVal_less: "leVal xs < 256 ^ length xs"
proof (induction xs)
  case Nil
  then show ?case by simp
next
  case (Cons b xs)
  then have "leVal xs + 1 \<le> 256 ^ length xs" by simp
  then have "256 * leVal xs + 256 \<le> 256 * 256 ^ length xs" by (metis add_mult_distrib2 mult.right_neutral mult_le_mono2)
  with unat_u8_less [of b] show ?case by simp
qed

lemma leVal_take_Suc:
  "i < length u \<Longrightarrow> leVal (take (Suc i) u) = leVal (take i u) + 256 ^ i * unat (u ! i)"
  by (simp add: take_Suc_conv_app_nth leVal_append)

lemma compareFrom_leVal:
  assumes "i \<le> length u" and "i \<le> length v"
  shows "compareFrom i u v = sgn (int (leVal (take i u)) - int (leVal (take i v)))"
  using assms
proof (induction i)
  case 0
  then show ?case by simp
next
  case (Suc i)
  let ?a = "leVal (take i u)" and ?b = "leVal (take i v)"
  have bound: "?a < 256 ^ i" "?b < 256 ^ i"
    using leVal_less [of "take i u"] leVal_less [of "take i v"] Suc.prems by (simp_all add: min_def)
  have step: "x + 256 ^ i * m < y + 256 ^ i * n" if "m < n" "x < 256 ^ i" for x y m n :: nat
  proof -
    have "256 ^ i * (m + 1) \<le> 256 ^ i * n" using that(1) by (intro mult_le_mono2) simp
    then show ?thesis using that(2) by (simp add: algebra_simps)
  qed
  note unfold = leVal_take_Suc [of i u] leVal_take_Suc [of i v]
  consider "u ! i > v ! i" | "u ! i < v ! i" | "u ! i = v ! i" by force
  then show ?case
  proof cases
    case 1
    then have "?b + 256 ^ i * unat (v ! i) < ?a + 256 ^ i * unat (u ! i)"
      by (intro step) (use bound in \<open>simp_all add: word_less_nat_alt\<close>)
    with 1 Suc.prems show ?thesis by (simp add: unfold del: of_nat_add)
  next
    case 2
    then have "?a + 256 ^ i * unat (u ! i) < ?b + 256 ^ i * unat (v ! i)"
      by (intro step) (use bound in \<open>simp_all add: word_less_nat_alt\<close>)
    with 2 Suc.prems show ?thesis by (auto simp: unfold simp del: of_nat_add)
  next
    case 3
    with Suc show ?thesis by (simp add: unfold)
  qed
qed

subsection \<open>WriteElement and ReadElement\<close>

text \<open>
  The dynamically typed element writer. \<open>EData\<close> is the fall-back \<^verbatim>\<open>binary.Write\<close>, which takes
  any fixed-size value and is given here by its little-endian bytes (a float64, for example).
\<close>

datatype element =
    EUint8 u8
  | EUint16 u16
  | EUint32 u32
  | EUint64 u64
  | EBool bool
  | EFixed64 Fixed64
  | EUint256 Uint256
  | EData bytes

datatype element_type =
    TUint8 | TUint16 | TUint32 | TUint64 | TBool | TFixed64 | TUint256 | TData nat

fun WriteElement :: "element \<Rightarrow> bytes" where
  "WriteElement (EUint8 e) = WriteUint8 e"
| "WriteElement (EUint16 e) = WriteUint16 e"
| "WriteElement (EUint32 e) = WriteUint32 e"
| "WriteElement (EUint64 e) = WriteUint64 e"
| "WriteElement (EBool e) = (if e then WriteUint8 0x01 else WriteUint8 0x00)"
| "WriteElement (EFixed64 e) = WriteUint64 e"
| "WriteElement (EUint256 e) = e"
| "WriteElement (EData e) = e"

fun WriteElements :: "element list \<Rightarrow> bytes" where
  "WriteElements [] = []"
| "WriteElements (e # es) = WriteElement e @ WriteElements es"

fun ReadElement :: "element_type \<Rightarrow> element reader" where
  "ReadElement TUint8 = rbind ReadUint8 (\<lambda>rv. rret (EUint8 rv))"
| "ReadElement TUint16 = rbind ReadUint16 (\<lambda>rv. rret (EUint16 rv))"
| "ReadElement TUint32 = rbind ReadUint32 (\<lambda>rv. rret (EUint32 rv))"
| "ReadElement TUint64 = rbind ReadUint64 (\<lambda>rv. rret (EUint64 rv))"
| "ReadElement TBool = rbind ReadUint8 (\<lambda>rv. rret (EBool (rv \<noteq> 0x00)))"
| "ReadElement TFixed64 = rbind ReadUint64 (\<lambda>rv. rret (EFixed64 rv))"
| "ReadElement TUint256 = rbind (ReadFull 32) (\<lambda>buf. rret (EUint256 buf))"
| "ReadElement (TData n) = rbind (ReadFull n) (\<lambda>buf. rret (EData buf))"

fun ReadElements :: "element_type list \<Rightarrow> element list reader" where
  "ReadElements [] = rret []"
| "ReadElements (t # ts) = rbind (ReadElement t) (\<lambda>e. rbind (ReadElements ts) (\<lambda>es. rret (e # es)))"

fun element_type_of :: "element \<Rightarrow> element_type" where
  "element_type_of (EUint8 _) = TUint8"
| "element_type_of (EUint16 _) = TUint16"
| "element_type_of (EUint32 _) = TUint32"
| "element_type_of (EUint64 _) = TUint64"
| "element_type_of (EBool _) = TBool"
| "element_type_of (EFixed64 _) = TFixed64"
| "element_type_of (EUint256 _) = TUint256"
| "element_type_of (EData d) = TData (length d)"

fun element_wf :: "element \<Rightarrow> bool" where
  "element_wf (EUint256 u) \<longleftrightarrow> length u = 32"
| "element_wf _ \<longleftrightarrow> True"

lemma ReadElement_WriteElement:
  "element_wf e \<Longrightarrow> ReadElement (element_type_of e) (WriteElement e @ r) = Inr (e, r)"
  by (cases e) (simp_all add: codec_simps)

lemma ReadElements_WriteElements:
  "\<forall>e \<in> set es. element_wf e \<Longrightarrow>
     ReadElements (map element_type_of es) (WriteElements es @ r) = Inr (es, r)"
  by (induction es) (simp_all add: codec_simps ReadElement_WriteElement)

subsection \<open>Properties\<close>

text \<open>
  C10. The variable-length integer is canonical: the reader accepts exactly the bytes the writer
  produces, so every value has one encoding, and it leaves the rest of the stream untouched.
\<close>

theorem varuint_canonical: "ReadVarUint bs = Inr (v, r) \<longleftrightarrow> bs = WriteVarUint v @ r"
  by (simp add: varUint.dec_Inr_iff)

text \<open>
  A length-prefixed byte string is read exactly as it was written, and never beyond the
  limit the caller allows: the reader succeeds on a string of at most \<open>maxAllowed\<close> bytes and on nothing else.
\<close>

theorem varbytes_bounded:
  "ReadVarBytes maxAllowed name bs = Inr (b, r) \<longleftrightarrow> length b \<le> unat maxAllowed \<and> bs = WriteVarBytes b @ r"
  by (rule varBytes.dec_Inr_iff)

text \<open>
  Comparing two hashes byte by byte from the top orders them as the 256-bit numbers they
  stand for: the result is the sign of the difference of their little-endian values.
\<close>

theorem uint256_compare_numeric:
  assumes "length u = 32" and "length v = 32"
  shows "Uint256_Compare u v = sgn (int (leVal u) - int (leVal v))"
  using compareFrom_leVal [of 32 u v] assms by (simp add: Uint256_Compare_def)

theorem uint256_compare_numeric_witness:
  "Uint256_Compare (replicate 31 2 @ [5]) (replicate 31 9 @ [3]) =
     sgn (int (leVal (replicate 31 2 @ [5])) - int (leVal (replicate 31 9 @ [3])))"
  by (rule uint256_compare_numeric) simp_all

text \<open>
  Whatever sequence of elements \<^verbatim>\<open>WriteElements\<close> writes, \<^verbatim>\<open>ReadElements\<close> with the matching
  types reads back.
\<close>

theorem elements_round_trip:
  assumes "\<forall>e \<in> set es. element_wf e"
  shows "ReadElements (map element_type_of es) (WriteElements es @ r) = Inr (es, r)"
  using assms by (rule ReadElements_WriteElements)

theorem elements_round_trip_witness:
  "ReadElements [TUint32, TBool] (WriteElements [EUint32 7, EBool True] @ [9]) =
     Inr ([EUint32 7, EBool True], [9])"
  using elements_round_trip [of "[EUint32 7, EBool True]" "[9]"] by simp

end
