(* ===== verification/Payload.thy ===== *)
theory Payload
  imports Codec
begin

section \<open>The DPoS payloads: core/types/payload\<close>

text \<open>
  The payloads the DPoS state machine consumes, with their Serialize and Deserialize methods.
  Each pair is an interpretation of \<open>codec\<close> (or \<open>canonical_codec\<close>), proved field by field from
  the interpretations of Codec. The memoised \<^verbatim>\<open>hash\<close> field of the structs is left out: \<open>Hash\<close> is a
  function of the serialised bytes, and the digest (\<^verbatim>\<open>common.Hash\<close>, a double SHA-256) is a parameter.
\<close>

abbreviation SignatureLength :: u32 where "SignatureLength \<equiv> 64"
abbreviation NegativeBigLength :: u32 where "NegativeBigLength \<equiv> 33"
abbreviation MaxBlockContextSize :: u32 where "MaxBlockContextSize \<equiv> 8000000"
abbreviation MaxBlockHeaderSize :: u32 where "MaxBlockHeaderSize \<equiv> 1000000"

text \<open>The proof pattern of a record codec: unfold both sides, step through the fields.\<close>

lemmas decode_step = rbind_Inr_iff rret_Inr_iff rwrap_Inr_iff u8.dec_Inr_iff u16.dec_Inr_iff
  u32.dec_Inr_iff u64.dec_Inr_iff varUint.dec_Inr_iff varBytes.dec_Inr_iff varString.dec_Inr_iff
  uint256.dec_Inr_iff uint168.dec_Inr_iff fixed64.dec_Inr_iff

subsection \<open>Proposals, votes and confirmations of the consensus\<close>

record DPOSProposal =
  proposal_Sponsor :: bytes
  proposal_BlockHash :: Uint256
  proposal_ViewOffset :: u32
  proposal_Sign :: bytes

definition DPOSProposal_SerializeUnsigned :: "DPOSProposal \<Rightarrow> bytes" where
  "DPOSProposal_SerializeUnsigned p =
     WriteVarBytes (proposal_Sponsor p) @ Uint256_Serialize (proposal_BlockHash p) @
     WriteUint32 (proposal_ViewOffset p)"

definition DPOSProposal_Serialize :: "DPOSProposal \<Rightarrow> bytes" where
  "DPOSProposal_Serialize p = DPOSProposal_SerializeUnsigned p @ WriteVarBytes (proposal_Sign p)"

definition DPOSProposal_DeserializeUnSigned :: "(bytes \<times> Uint256 \<times> u32) reader" where
  "DPOSProposal_DeserializeUnSigned =
     rbind (ReadVarBytes NegativeBigLength ''public key'') (\<lambda>sponsor.
     rbind Uint256_Deserialize (\<lambda>blockHash.
     rbind ReadUint32 (\<lambda>viewOffset. rret (sponsor, blockHash, viewOffset))))"

definition DPOSProposal_Deserialize :: "DPOSProposal reader" where
  "DPOSProposal_Deserialize =
     rbind DPOSProposal_DeserializeUnSigned (\<lambda>(sponsor, blockHash, viewOffset).
     rbind (ReadVarBytes SignatureLength ''sign data'') (\<lambda>sign.
     rret \<lparr>proposal_Sponsor = sponsor, proposal_BlockHash = blockHash,
           proposal_ViewOffset = viewOffset, proposal_Sign = sign\<rparr>))"

definition DPOSProposal_Hash :: "(bytes \<Rightarrow> Uint256) \<Rightarrow> DPOSProposal \<Rightarrow> Uint256" where
  "DPOSProposal_Hash H p = H (DPOSProposal_SerializeUnsigned p)"

definition DPOSProposal_wf :: "DPOSProposal \<Rightarrow> bool" where
  "DPOSProposal_wf p \<longleftrightarrow> length (proposal_Sponsor p) \<le> 33 \<and> length (proposal_BlockHash p) = 32 \<and>
     length (proposal_Sign p) \<le> 64"

lemmas proposal_defs = DPOSProposal_Serialize_def DPOSProposal_SerializeUnsigned_def
  DPOSProposal_Deserialize_def DPOSProposal_DeserializeUnSigned_def DPOSProposal_wf_def

interpretation proposal: canonical_codec DPOSProposal_Serialize DPOSProposal_Deserialize DPOSProposal_wf
  by (unfold_locales, simp add: proposal_defs codec_simps, auto simp: proposal_defs decode_step)

record DPOSProposalVote =
  vote_ProposalHash :: Uint256
  vote_Signer :: bytes
  vote_Accept :: bool
  vote_Sign :: bytes

definition DPOSProposalVote_SerializeUnsigned :: "DPOSProposalVote \<Rightarrow> bytes" where
  "DPOSProposalVote_SerializeUnsigned v =
     Uint256_Serialize (vote_ProposalHash v) @ WriteVarBytes (vote_Signer v) @
     WriteUint8 (if vote_Accept v then 1 else 0)"

definition DPOSProposalVote_Serialize :: "DPOSProposalVote \<Rightarrow> bytes" where
  "DPOSProposalVote_Serialize v = DPOSProposalVote_SerializeUnsigned v @ WriteVarBytes (vote_Sign v)"

definition DPOSProposalVote_DeserializeUnsigned :: "(Uint256 \<times> bytes \<times> bool) reader" where
  "DPOSProposalVote_DeserializeUnsigned =
     rbind Uint256_Deserialize (\<lambda>proposalHash.
     rbind (ReadVarBytes NegativeBigLength ''public key'') (\<lambda>signer.
     rbind ReadUint8 (\<lambda>acceptValue. rret (proposalHash, signer, acceptValue = 1))))"

definition DPOSProposalVote_Deserialize :: "DPOSProposalVote reader" where
  "DPOSProposalVote_Deserialize =
     rbind DPOSProposalVote_DeserializeUnsigned (\<lambda>(proposalHash, signer, accept).
     rbind (ReadVarBytes SignatureLength ''sign data'') (\<lambda>sign.
     rret \<lparr>vote_ProposalHash = proposalHash, vote_Signer = signer, vote_Accept = accept,
           vote_Sign = sign\<rparr>))"

definition DPOSProposalVote_Hash :: "(bytes \<Rightarrow> Uint256) \<Rightarrow> DPOSProposalVote \<Rightarrow> Uint256" where
  "DPOSProposalVote_Hash H v = H (DPOSProposalVote_SerializeUnsigned v)"

definition DPOSProposalVote_wf :: "DPOSProposalVote \<Rightarrow> bool" where
  "DPOSProposalVote_wf v \<longleftrightarrow> length (vote_ProposalHash v) = 32 \<and> length (vote_Signer v) \<le> 33 \<and>
     length (vote_Sign v) \<le> 64"

interpretation proposalVote: codec DPOSProposalVote_Serialize DPOSProposalVote_Deserialize DPOSProposalVote_wf
  by unfold_locales
     (auto simp: DPOSProposalVote_Serialize_def DPOSProposalVote_SerializeUnsigned_def
       DPOSProposalVote_Deserialize_def DPOSProposalVote_DeserializeUnsigned_def
       DPOSProposalVote_wf_def codec_simps)

text \<open>The vote is not canonical: any byte but 1 in the place of \<open>Accept\<close> reads as a rejection.\<close>

lemma DPOSProposalVote_malleable:
  "length ph = 32 \<Longrightarrow> length sg \<le> 33 \<Longrightarrow> length sn \<le> 64 \<Longrightarrow> b \<noteq> 1 \<Longrightarrow>
   DPOSProposalVote_Deserialize (ph @ WriteVarBytes sg @ [b] @ WriteVarBytes sn) =
   Inr (\<lparr>vote_ProposalHash = ph, vote_Signer = sg, vote_Accept = False, vote_Sign = sn\<rparr>, [])"
  using u8.dec_enc [of b "WriteVarBytes sn"] uint256.dec_enc [of ph "WriteVarBytes sg @ b # WriteVarBytes sn"]
    varBytes.dec_enc [of sn SignatureLength "''sign data''" "[]"]
  by (simp add: DPOSProposalVote_Deserialize_def DPOSProposalVote_DeserializeUnsigned_def
      WriteUint8_def Uint256_Serialize_def codec_simps)

record Confirm =
  confirm_Proposal :: DPOSProposal
  confirm_Votes :: "DPOSProposalVote list"

definition Confirm_TryAppend ::
    "(bytes \<Rightarrow> Uint256) \<Rightarrow> Confirm \<Rightarrow> DPOSProposalVote \<Rightarrow> bool \<times> Confirm" where
  "Confirm_TryAppend H p v =
     (if DPOSProposal_Hash H (confirm_Proposal p) = vote_ProposalHash v
      then (True, p\<lparr>confirm_Votes := confirm_Votes p @ [v]\<rparr>)
      else (False, p))"

text \<open>The size of a \<^verbatim>\<open>DPOSProposalVote\<close> in memory, 96 bytes, bounds the count the reader accepts.\<close>

definition Confirm_Serialize :: "Confirm \<Rightarrow> bytes" where
  "Confirm_Serialize p =
     DPOSProposal_Serialize (confirm_Proposal p) @
     WriteUint64 (word_of_nat (length (confirm_Votes p))) @
     concat (map DPOSProposalVote_Serialize (confirm_Votes p))"

definition Confirm_Deserialize :: "Confirm reader" where
  "Confirm_Deserialize =
     rbind DPOSProposal_Deserialize (\<lambda>proposal.
     rbind ReadUint64 (\<lambda>signCount.
     rbind (makeSlice 96 signCount) (\<lambda>_.
     rbind (readN (unat signCount) DPOSProposalVote_Deserialize) (\<lambda>votes.
     rret \<lparr>confirm_Proposal = proposal, confirm_Votes = votes\<rparr>))))"

definition Confirm_wf :: "Confirm \<Rightarrow> bool" where
  "Confirm_wf p \<longleftrightarrow> DPOSProposal_wf (confirm_Proposal p) \<and>
     list_wf 96 DPOSProposalVote_wf (confirm_Votes p)"

interpretation confirm: codec Confirm_Serialize Confirm_Deserialize Confirm_wf
proof
  fix p r assume wf: "Confirm_wf p"
  then have "unat (word_of_nat (length (confirm_Votes p)) :: u64) = length (confirm_Votes p)"
    by (simp add: Confirm_wf_def list_wf_def unat_word_of_nat_u64)
  with wf show "Confirm_Deserialize (Confirm_Serialize p @ r) = Inr (p, r)"
    by (simp add: Confirm_Serialize_def Confirm_Deserialize_def Confirm_wf_def list_wf_def
        codec_simps proposal.dec_enc proposalVote.readN_enc makeSlice_def)
qed

subsection \<open>Producer transactions\<close>

record ProducerInfo =
  info_OwnerPublicKey :: bytes
  info_NodePublicKey :: bytes
  info_NickName :: string
  info_Url :: string
  info_Location :: u64
  info_NetAddress :: string
  info_Signature :: bytes

definition ProducerInfo_SerializeUnsigned :: "ProducerInfo \<Rightarrow> u8 \<Rightarrow> bytes" where
  "ProducerInfo_SerializeUnsigned a version =
     WriteVarBytes (info_OwnerPublicKey a) @ WriteVarBytes (info_NodePublicKey a) @
     WriteVarString (info_NickName a) @ WriteVarString (info_Url a) @
     WriteUint64 (info_Location a) @ WriteVarString (info_NetAddress a)"

definition ProducerInfo_Serialize :: "u8 \<Rightarrow> ProducerInfo \<Rightarrow> bytes" where
  "ProducerInfo_Serialize version a =
     ProducerInfo_SerializeUnsigned a version @ WriteVarBytes (info_Signature a)"

definition ProducerInfo_DeserializeUnsigned :: "u8 \<Rightarrow> ProducerInfo reader" where
  "ProducerInfo_DeserializeUnsigned version =
     rbind (rwrap ''[ProducerInfo], owner publicKey deserialize failed''
       (ReadVarBytes NegativeBigLength ''own public key'')) (\<lambda>owner.
     rbind (rwrap ''[ProducerInfo], node publicKey deserialize failed''
       (ReadVarBytes NegativeBigLength ''node public key'')) (\<lambda>node.
     rbind (rwrap ''[ProducerInfo], nickName deserialize failed'' ReadVarString) (\<lambda>nick.
     rbind (rwrap ''[ProducerInfo], url deserialize failed'' ReadVarString) (\<lambda>url.
     rbind (rwrap ''[ProducerInfo], location deserialize failed'' ReadUint64) (\<lambda>loc.
     rbind (rwrap ''[ProducerInfo], address deserialize failed'' ReadVarString) (\<lambda>addr.
     rret \<lparr>info_OwnerPublicKey = owner, info_NodePublicKey = node, info_NickName = nick,
           info_Url = url, info_Location = loc, info_NetAddress = addr, info_Signature = []\<rparr>))))))"

definition ProducerInfo_Deserialize :: "u8 \<Rightarrow> ProducerInfo reader" where
  "ProducerInfo_Deserialize version =
     rbind (ProducerInfo_DeserializeUnsigned version) (\<lambda>a.
     rbind (rwrap ''[ProducerInfo], signature deserialize failed''
       (ReadVarBytes SignatureLength ''signature'')) (\<lambda>sig.
     rret (a\<lparr>info_Signature := sig\<rparr>)))"

definition ProducerInfo_wf :: "ProducerInfo \<Rightarrow> bool" where
  "ProducerInfo_wf a \<longleftrightarrow> length (info_OwnerPublicKey a) \<le> 33 \<and> length (info_NodePublicKey a) \<le> 33 \<and>
     length (info_NickName a) \<le> 16777216 \<and> length (info_Url a) \<le> 16777216 \<and>
     length (info_NetAddress a) \<le> 16777216 \<and> length (info_Signature a) \<le> 64"

lemmas producerInfo_defs = ProducerInfo_Serialize_def ProducerInfo_SerializeUnsigned_def
  ProducerInfo_Deserialize_def ProducerInfo_DeserializeUnsigned_def ProducerInfo_wf_def

interpretation producerInfo: canonical_codec "ProducerInfo_Serialize version"
    "ProducerInfo_Deserialize version" ProducerInfo_wf for version
  by (unfold_locales, simp add: producerInfo_defs codec_simps, auto simp: producerInfo_defs decode_step)

record ProcessProducer =
  process_OwnerPublicKey :: bytes
  process_Signature :: bytes

definition ProcessProducer_SerializeUnsigned :: "ProcessProducer \<Rightarrow> u8 \<Rightarrow> bytes" where
  "ProcessProducer_SerializeUnsigned a version = WriteVarBytes (process_OwnerPublicKey a)"

definition ProcessProducer_Serialize :: "u8 \<Rightarrow> ProcessProducer \<Rightarrow> bytes" where
  "ProcessProducer_Serialize version a =
     ProcessProducer_SerializeUnsigned a version @ WriteVarBytes (process_Signature a)"

definition ProcessProducer_DeserializeUnsigned :: "u8 \<Rightarrow> bytes reader" where
  "ProcessProducer_DeserializeUnsigned version =
     rwrap ''[ProcessProducer], read owner public key failed''
       (ReadVarBytes NegativeBigLength ''public key'')"

definition ProcessProducer_Deserialize :: "u8 \<Rightarrow> ProcessProducer reader" where
  "ProcessProducer_Deserialize version =
     rbind (ProcessProducer_DeserializeUnsigned version) (\<lambda>owner.
     rbind (rwrap ''[ProcessProducer], signature deserialize failed''
       (ReadVarBytes SignatureLength ''signature'')) (\<lambda>sig.
     rret \<lparr>process_OwnerPublicKey = owner, process_Signature = sig\<rparr>))"

definition ProcessProducer_wf :: "ProcessProducer \<Rightarrow> bool" where
  "ProcessProducer_wf a \<longleftrightarrow>
     length (process_OwnerPublicKey a) \<le> 33 \<and> length (process_Signature a) \<le> 64"

lemmas processProducer_defs = ProcessProducer_Serialize_def ProcessProducer_SerializeUnsigned_def
  ProcessProducer_Deserialize_def ProcessProducer_DeserializeUnsigned_def ProcessProducer_wf_def

interpretation processProducer: canonical_codec "ProcessProducer_Serialize version"
    "ProcessProducer_Deserialize version" ProcessProducer_wf for version
  by (unfold_locales, simp add: processProducer_defs codec_simps, auto simp: processProducer_defs decode_step)

record ActivateProducer =
  activate_NodePublicKey :: bytes
  activate_Signature :: bytes

definition ActivateProducer_SerializeUnsigned :: "ActivateProducer \<Rightarrow> u8 \<Rightarrow> bytes" where
  "ActivateProducer_SerializeUnsigned a version = WriteVarBytes (activate_NodePublicKey a)"

definition ActivateProducer_Serialize :: "u8 \<Rightarrow> ActivateProducer \<Rightarrow> bytes" where
  "ActivateProducer_Serialize version a =
     ActivateProducer_SerializeUnsigned a version @ WriteVarBytes (activate_Signature a)"

definition ActivateProducer_DeserializeUnsigned :: "u8 \<Rightarrow> bytes reader" where
  "ActivateProducer_DeserializeUnsigned version =
     rwrap ''[ActivateProducer], read owner public key failed''
       (ReadVarBytes NegativeBigLength ''public key'')"

definition ActivateProducer_Deserialize :: "u8 \<Rightarrow> ActivateProducer reader" where
  "ActivateProducer_Deserialize version =
     rbind (ActivateProducer_DeserializeUnsigned version) (\<lambda>node.
     rbind (rwrap ''[ActivateProducer], signature deserialize failed''
       (ReadVarBytes SignatureLength ''signature'')) (\<lambda>sig.
     rret \<lparr>activate_NodePublicKey = node, activate_Signature = sig\<rparr>))"

definition ActivateProducer_wf :: "ActivateProducer \<Rightarrow> bool" where
  "ActivateProducer_wf a \<longleftrightarrow>
     length (activate_NodePublicKey a) \<le> 33 \<and> length (activate_Signature a) \<le> 64"

lemmas activateProducer_defs = ActivateProducer_Serialize_def ActivateProducer_SerializeUnsigned_def
  ActivateProducer_Deserialize_def ActivateProducer_DeserializeUnsigned_def ActivateProducer_wf_def

interpretation activateProducer: canonical_codec "ActivateProducer_Serialize version"
    "ActivateProducer_Deserialize version" ActivateProducer_wf for version
  by (unfold_locales, simp add: activateProducer_defs codec_simps, auto simp: activateProducer_defs decode_step)

record UpdateVersion =
  update_StartHeight :: u32
  update_EndHeight :: u32

definition UpdateVersion_Serialize :: "u8 \<Rightarrow> UpdateVersion \<Rightarrow> bytes" where
  "UpdateVersion_Serialize version u =
     WriteUint32 (update_StartHeight u) @ WriteUint32 (update_EndHeight u)"

definition UpdateVersion_Deserialize :: "u8 \<Rightarrow> UpdateVersion reader" where
  "UpdateVersion_Deserialize version =
     rbind ReadUint32 (\<lambda>startHeight. rbind ReadUint32 (\<lambda>endHeight.
     rret \<lparr>update_StartHeight = startHeight, update_EndHeight = endHeight\<rparr>))"

interpretation updateVersion: canonical_codec "UpdateVersion_Serialize version"
    "UpdateVersion_Deserialize version" "\<lambda>_. True" for version
  by (unfold_locales, simp add: UpdateVersion_Serialize_def UpdateVersion_Deserialize_def codec_simps,
      auto simp: UpdateVersion_Serialize_def UpdateVersion_Deserialize_def decode_step)

subsection \<open>Evidence of illegal behaviour\<close>

type_synonym IllegalDataType = u8

interpretation publicKeys: canonical_codec "writeList WriteVarBytes"
    "readList 24 (ReadVarBytes mx name)" "list_wf 24 (\<lambda>b. length b \<le> unat mx)" for mx name
  by (rule varBytes.canonical_codec_list)

record BlockEvidence =
  be_Header :: bytes
  be_BlockConfirm :: bytes
  be_Signers :: "bytes list"

definition BlockEvidence_SerializeUnsigned :: "BlockEvidence \<Rightarrow> bytes" where
  "BlockEvidence_SerializeUnsigned b = WriteVarBytes (be_Header b)"

definition BlockEvidence_SerializeOthers :: "BlockEvidence \<Rightarrow> bytes" where
  "BlockEvidence_SerializeOthers b =
     WriteVarBytes (be_BlockConfirm b) @ writeList WriteVarBytes (be_Signers b)"

definition BlockEvidence_Serialize :: "BlockEvidence \<Rightarrow> bytes" where
  "BlockEvidence_Serialize b = BlockEvidence_SerializeUnsigned b @ BlockEvidence_SerializeOthers b"

definition BlockEvidence_DeserializeUnsigned :: "bytes reader" where
  "BlockEvidence_DeserializeUnsigned = ReadVarBytes MaxBlockContextSize ''block data''"

definition BlockEvidence_DeserializeOthers :: "bytes \<Rightarrow> BlockEvidence reader" where
  "BlockEvidence_DeserializeOthers header =
     rbind (ReadVarBytes MaxBlockHeaderSize ''confirm data'') (\<lambda>conf.
     rbind (readList 24 (ReadVarBytes 33 ''public key'')) (\<lambda>signers.
     rret \<lparr>be_Header = header, be_BlockConfirm = conf, be_Signers = signers\<rparr>))"

definition BlockEvidence_Deserialize :: "BlockEvidence reader" where
  "BlockEvidence_Deserialize =
     rbind BlockEvidence_DeserializeUnsigned BlockEvidence_DeserializeOthers"

definition BlockEvidence_wf :: "BlockEvidence \<Rightarrow> bool" where
  "BlockEvidence_wf b \<longleftrightarrow> length (be_Header b) \<le> 8000000 \<and> length (be_BlockConfirm b) \<le> 1000000 \<and>
     list_wf 24 (\<lambda>k. length k \<le> 33) (be_Signers b)"

lemmas blockEvidence_defs = BlockEvidence_Serialize_def BlockEvidence_SerializeUnsigned_def
  BlockEvidence_SerializeOthers_def BlockEvidence_Deserialize_def
  BlockEvidence_DeserializeUnsigned_def BlockEvidence_DeserializeOthers_def BlockEvidence_wf_def

interpretation blockEvidence: canonical_codec BlockEvidence_Serialize BlockEvidence_Deserialize
    BlockEvidence_wf
  by (unfold_locales, simp add: blockEvidence_defs codec_simps publicKeys.dec_enc,
      auto simp: blockEvidence_defs decode_step publicKeys.dec_Inr_iff)

record DPOSIllegalBlocks =
  ib_CoinType :: u32
  ib_BlockHeight :: u32
  ib_Evidence :: BlockEvidence
  ib_CompareEvidence :: BlockEvidence

definition DPOSIllegalBlocks_SerializeUnsigned :: "DPOSIllegalBlocks \<Rightarrow> bytes" where
  "DPOSIllegalBlocks_SerializeUnsigned d =
     WriteUint32 (ib_CoinType d) @ WriteUint32 (ib_BlockHeight d) @
     BlockEvidence_SerializeUnsigned (ib_Evidence d) @
     BlockEvidence_SerializeUnsigned (ib_CompareEvidence d)"

definition DPOSIllegalBlocks_Serialize :: "u8 \<Rightarrow> DPOSIllegalBlocks \<Rightarrow> bytes" where
  "DPOSIllegalBlocks_Serialize version d =
     DPOSIllegalBlocks_SerializeUnsigned d @
     BlockEvidence_SerializeOthers (ib_Evidence d) @
     BlockEvidence_SerializeOthers (ib_CompareEvidence d)"

definition DPOSIllegalBlocks_DeserializeUnsigned :: "(u32 \<times> u32 \<times> bytes \<times> bytes) reader" where
  "DPOSIllegalBlocks_DeserializeUnsigned =
     rbind ReadUint32 (\<lambda>coinType. rbind ReadUint32 (\<lambda>blockHeight.
     rbind BlockEvidence_DeserializeUnsigned (\<lambda>header.
     rbind BlockEvidence_DeserializeUnsigned (\<lambda>compareHeader.
     rret (coinType, blockHeight, header, compareHeader)))))"

definition DPOSIllegalBlocks_Deserialize :: "u8 \<Rightarrow> DPOSIllegalBlocks reader" where
  "DPOSIllegalBlocks_Deserialize version =
     rbind DPOSIllegalBlocks_DeserializeUnsigned (\<lambda>(coinType, blockHeight, header, compareHeader).
     rbind (BlockEvidence_DeserializeOthers header) (\<lambda>evidence.
     rbind (BlockEvidence_DeserializeOthers compareHeader) (\<lambda>compareEvidence.
     rret \<lparr>ib_CoinType = coinType, ib_BlockHeight = blockHeight, ib_Evidence = evidence,
           ib_CompareEvidence = compareEvidence\<rparr>)))"

definition DPOSIllegalBlocks_Hash :: "(bytes \<Rightarrow> Uint256) \<Rightarrow> DPOSIllegalBlocks \<Rightarrow> Uint256" where
  "DPOSIllegalBlocks_Hash H d = H (DPOSIllegalBlocks_SerializeUnsigned d)"

definition DPOSIllegalBlocks_wf :: "DPOSIllegalBlocks \<Rightarrow> bool" where
  "DPOSIllegalBlocks_wf d \<longleftrightarrow>
     BlockEvidence_wf (ib_Evidence d) \<and> BlockEvidence_wf (ib_CompareEvidence d)"

lemmas illegalBlocks_defs = DPOSIllegalBlocks_Serialize_def DPOSIllegalBlocks_SerializeUnsigned_def
  DPOSIllegalBlocks_Deserialize_def DPOSIllegalBlocks_DeserializeUnsigned_def DPOSIllegalBlocks_wf_def

interpretation illegalBlocks: canonical_codec "DPOSIllegalBlocks_Serialize version"
    "DPOSIllegalBlocks_Deserialize version" DPOSIllegalBlocks_wf for version
  by (unfold_locales, simp add: illegalBlocks_defs blockEvidence_defs codec_simps publicKeys.dec_enc,
      auto simp: illegalBlocks_defs blockEvidence_defs decode_step publicKeys.dec_Inr_iff)

record ProposalEvidence =
  pe_Proposal :: DPOSProposal
  pe_BlockHeader :: bytes
  pe_BlockHeight :: u32

definition ProposalEvidence_Serialize :: "ProposalEvidence \<Rightarrow> bytes" where
  "ProposalEvidence_Serialize d =
     DPOSProposal_Serialize (pe_Proposal d) @ WriteVarBytes (pe_BlockHeader d) @
     WriteUint32 (pe_BlockHeight d)"

definition ProposalEvidence_Deserialize :: "ProposalEvidence reader" where
  "ProposalEvidence_Deserialize =
     rbind DPOSProposal_Deserialize (\<lambda>proposal.
     rbind (ReadVarBytes MaxBlockContextSize ''block header'') (\<lambda>header.
     rbind ReadUint32 (\<lambda>ht.
     rret \<lparr>pe_Proposal = proposal, pe_BlockHeader = header, pe_BlockHeight = ht\<rparr>)))"

definition ProposalEvidence_wf :: "ProposalEvidence \<Rightarrow> bool" where
  "ProposalEvidence_wf d \<longleftrightarrow> DPOSProposal_wf (pe_Proposal d) \<and> length (pe_BlockHeader d) \<le> 8000000"

interpretation proposalEvidence: canonical_codec ProposalEvidence_Serialize
    ProposalEvidence_Deserialize ProposalEvidence_wf
  by (unfold_locales, simp add: ProposalEvidence_Serialize_def ProposalEvidence_Deserialize_def
        ProposalEvidence_wf_def codec_simps proposal.dec_enc,
      auto simp: ProposalEvidence_Serialize_def ProposalEvidence_Deserialize_def
        ProposalEvidence_wf_def decode_step proposal.dec_Inr_iff)

record DPOSIllegalProposals =
  ip_Evidence :: ProposalEvidence
  ip_CompareEvidence :: ProposalEvidence

definition DPOSIllegalProposals_Serialize :: "u8 \<Rightarrow> DPOSIllegalProposals \<Rightarrow> bytes" where
  "DPOSIllegalProposals_Serialize version d =
     ProposalEvidence_Serialize (ip_Evidence d) @ ProposalEvidence_Serialize (ip_CompareEvidence d)"

definition DPOSIllegalProposals_Deserialize :: "u8 \<Rightarrow> DPOSIllegalProposals reader" where
  "DPOSIllegalProposals_Deserialize version =
     rbind ProposalEvidence_Deserialize (\<lambda>e. rbind ProposalEvidence_Deserialize (\<lambda>c.
     rret \<lparr>ip_Evidence = e, ip_CompareEvidence = c\<rparr>))"

definition DPOSIllegalProposals_Hash :: "(bytes \<Rightarrow> Uint256) \<Rightarrow> DPOSIllegalProposals \<Rightarrow> Uint256" where
  "DPOSIllegalProposals_Hash H d = H (DPOSIllegalProposals_Serialize 0 d)"

interpretation illegalProposals: canonical_codec "DPOSIllegalProposals_Serialize version"
    "DPOSIllegalProposals_Deserialize version"
    "\<lambda>d. ProposalEvidence_wf (ip_Evidence d) \<and> ProposalEvidence_wf (ip_CompareEvidence d)" for version
  by (unfold_locales, simp add: DPOSIllegalProposals_Serialize_def DPOSIllegalProposals_Deserialize_def
        codec_simps proposalEvidence.dec_enc,
      auto simp: DPOSIllegalProposals_Serialize_def DPOSIllegalProposals_Deserialize_def
        decode_step proposalEvidence.dec_Inr_iff)

record VoteEvidence =
  ve_ProposalEvidence :: ProposalEvidence
  ve_Vote :: DPOSProposalVote

definition VoteEvidence_Serialize :: "VoteEvidence \<Rightarrow> bytes" where
  "VoteEvidence_Serialize d =
     DPOSProposalVote_Serialize (ve_Vote d) @ ProposalEvidence_Serialize (ve_ProposalEvidence d)"

definition VoteEvidence_Deserialize :: "VoteEvidence reader" where
  "VoteEvidence_Deserialize =
     rbind DPOSProposalVote_Deserialize (\<lambda>v. rbind ProposalEvidence_Deserialize (\<lambda>e.
     rret \<lparr>ve_ProposalEvidence = e, ve_Vote = v\<rparr>))"

definition VoteEvidence_wf :: "VoteEvidence \<Rightarrow> bool" where
  "VoteEvidence_wf d \<longleftrightarrow> ProposalEvidence_wf (ve_ProposalEvidence d) \<and> DPOSProposalVote_wf (ve_Vote d)"

interpretation voteEvidence: codec VoteEvidence_Serialize VoteEvidence_Deserialize VoteEvidence_wf
  by (unfold_locales, simp add: VoteEvidence_Serialize_def VoteEvidence_Deserialize_def
        VoteEvidence_wf_def codec_simps proposalVote.dec_enc proposalEvidence.dec_enc)

record DPOSIllegalVotes =
  iv_Evidence :: VoteEvidence
  iv_CompareEvidence :: VoteEvidence

definition DPOSIllegalVotes_Serialize :: "u8 \<Rightarrow> DPOSIllegalVotes \<Rightarrow> bytes" where
  "DPOSIllegalVotes_Serialize version d =
     VoteEvidence_Serialize (iv_Evidence d) @ VoteEvidence_Serialize (iv_CompareEvidence d)"

definition DPOSIllegalVotes_Deserialize :: "u8 \<Rightarrow> DPOSIllegalVotes reader" where
  "DPOSIllegalVotes_Deserialize version =
     rbind VoteEvidence_Deserialize (\<lambda>e. rbind VoteEvidence_Deserialize (\<lambda>c.
     rret \<lparr>iv_Evidence = e, iv_CompareEvidence = c\<rparr>))"

definition DPOSIllegalVotes_Hash :: "(bytes \<Rightarrow> Uint256) \<Rightarrow> DPOSIllegalVotes \<Rightarrow> Uint256" where
  "DPOSIllegalVotes_Hash H d = H (DPOSIllegalVotes_Serialize 0 d)"

interpretation illegalVotes: codec "DPOSIllegalVotes_Serialize version"
    "DPOSIllegalVotes_Deserialize version"
    "\<lambda>d. VoteEvidence_wf (iv_Evidence d) \<and> VoteEvidence_wf (iv_CompareEvidence d)" for version
  by (unfold_locales, simp add: DPOSIllegalVotes_Serialize_def DPOSIllegalVotes_Deserialize_def
        codec_simps voteEvidence.dec_enc)

record SidechainIllegalData =
  sid_IllegalType :: IllegalDataType
  sid_Height :: u32
  sid_IllegalSigner :: bytes
  sid_Evidence :: Uint256
  sid_CompareEvidence :: Uint256
  sid_GenesisBlockAddress :: string
  sid_Signs :: "bytes list"

definition SidechainIllegalEvidence_Serialize :: "Uint256 \<Rightarrow> bytes" where
  "SidechainIllegalEvidence_Serialize s = Uint256_Serialize s"

definition SidechainIllegalEvidence_Deserialize :: "Uint256 reader" where
  "SidechainIllegalEvidence_Deserialize = Uint256_Deserialize"

definition SidechainIllegalData_SerializeUnsigned :: "SidechainIllegalData \<Rightarrow> bytes" where
  "SidechainIllegalData_SerializeUnsigned s =
     WriteUint8 (sid_IllegalType s) @ WriteUint32 (sid_Height s) @
     WriteVarBytes (sid_IllegalSigner s) @ SidechainIllegalEvidence_Serialize (sid_Evidence s) @
     SidechainIllegalEvidence_Serialize (sid_CompareEvidence s) @
     WriteVarString (sid_GenesisBlockAddress s)"

definition SidechainIllegalData_Serialize :: "u8 \<Rightarrow> SidechainIllegalData \<Rightarrow> bytes" where
  "SidechainIllegalData_Serialize version s =
     SidechainIllegalData_SerializeUnsigned s @ writeList WriteVarBytes (sid_Signs s)"

definition SidechainIllegalData_DeserializeUnsigned :: "SidechainIllegalData reader" where
  "SidechainIllegalData_DeserializeUnsigned =
     rbind ReadUint8 (\<lambda>illegalType. rbind ReadUint32 (\<lambda>ht.
     rbind (ReadVarBytes NegativeBigLength ''public key'') (\<lambda>signer.
     rbind SidechainIllegalEvidence_Deserialize (\<lambda>evidence.
     rbind SidechainIllegalEvidence_Deserialize (\<lambda>compareEvidence.
     rbind ReadVarString (\<lambda>addr.
     rret \<lparr>sid_IllegalType = illegalType, sid_Height = ht, sid_IllegalSigner = signer,
           sid_Evidence = evidence, sid_CompareEvidence = compareEvidence,
           sid_GenesisBlockAddress = addr, sid_Signs = []\<rparr>))))))"

definition SidechainIllegalData_Deserialize :: "u8 \<Rightarrow> SidechainIllegalData reader" where
  "SidechainIllegalData_Deserialize version =
     rbind SidechainIllegalData_DeserializeUnsigned (\<lambda>s.
     rbind (readList 24 (ReadVarBytes SignatureLength ''Signature'')) (\<lambda>signs.
     rret (s\<lparr>sid_Signs := signs\<rparr>)))"

definition SidechainIllegalData_Hash :: "(bytes \<Rightarrow> Uint256) \<Rightarrow> SidechainIllegalData \<Rightarrow> Uint256" where
  "SidechainIllegalData_Hash H s = H (SidechainIllegalData_SerializeUnsigned s)"

definition SidechainIllegalData_wf :: "SidechainIllegalData \<Rightarrow> bool" where
  "SidechainIllegalData_wf s \<longleftrightarrow> length (sid_IllegalSigner s) \<le> 33 \<and> length (sid_Evidence s) = 32 \<and>
     length (sid_CompareEvidence s) = 32 \<and> length (sid_GenesisBlockAddress s) \<le> 16777216 \<and>
     list_wf 24 (\<lambda>k. length k \<le> 64) (sid_Signs s)"

lemmas sidechainIllegalData_defs = SidechainIllegalData_Serialize_def
  SidechainIllegalData_SerializeUnsigned_def SidechainIllegalData_Deserialize_def
  SidechainIllegalData_DeserializeUnsigned_def SidechainIllegalData_wf_def
  SidechainIllegalEvidence_Serialize_def SidechainIllegalEvidence_Deserialize_def

interpretation sidechainIllegalData: canonical_codec "SidechainIllegalData_Serialize version"
    "SidechainIllegalData_Deserialize version" SidechainIllegalData_wf for version
  by (unfold_locales, simp add: sidechainIllegalData_defs codec_simps publicKeys.dec_enc,
      auto simp: sidechainIllegalData_defs decode_step publicKeys.dec_Inr_iff)

record InactiveArbitrators =
  ia_Sponsor :: bytes
  ia_Arbitrators :: "bytes list"
  ia_BlockHeight :: u32

definition InactiveArbitrators_SerializeUnsigned :: "InactiveArbitrators \<Rightarrow> bytes" where
  "InactiveArbitrators_SerializeUnsigned i =
     WriteVarBytes (ia_Sponsor i) @ WriteUint32 (ia_BlockHeight i)"

definition InactiveArbitrators_Serialize :: "u8 \<Rightarrow> InactiveArbitrators \<Rightarrow> bytes" where
  "InactiveArbitrators_Serialize version i =
     InactiveArbitrators_SerializeUnsigned i @ writeList WriteVarBytes (ia_Arbitrators i)"

definition InactiveArbitrators_DeserializeUnsigned :: "(bytes \<times> u32) reader" where
  "InactiveArbitrators_DeserializeUnsigned =
     rbind (ReadVarBytes NegativeBigLength ''public key'') (\<lambda>sponsor.
     rbind ReadUint32 (\<lambda>ht. rret (sponsor, ht)))"

definition InactiveArbitrators_Deserialize :: "u8 \<Rightarrow> InactiveArbitrators reader" where
  "InactiveArbitrators_Deserialize version =
     rbind InactiveArbitrators_DeserializeUnsigned (\<lambda>(sponsor, ht).
     rbind (readList 24 (ReadVarBytes NegativeBigLength ''public key'')) (\<lambda>arbitrators.
     rret \<lparr>ia_Sponsor = sponsor, ia_Arbitrators = arbitrators, ia_BlockHeight = ht\<rparr>))"

definition InactiveArbitrators_Hash :: "(bytes \<Rightarrow> Uint256) \<Rightarrow> InactiveArbitrators \<Rightarrow> Uint256" where
  "InactiveArbitrators_Hash H i = H (InactiveArbitrators_SerializeUnsigned i)"

definition InactiveArbitrators_wf :: "InactiveArbitrators \<Rightarrow> bool" where
  "InactiveArbitrators_wf i \<longleftrightarrow>
     length (ia_Sponsor i) \<le> 33 \<and> list_wf 24 (\<lambda>k. length k \<le> 33) (ia_Arbitrators i)"

lemmas inactiveArbitrators_defs = InactiveArbitrators_Serialize_def
  InactiveArbitrators_SerializeUnsigned_def InactiveArbitrators_Deserialize_def
  InactiveArbitrators_DeserializeUnsigned_def InactiveArbitrators_wf_def

interpretation inactiveArbitrators: canonical_codec "InactiveArbitrators_Serialize version"
    "InactiveArbitrators_Deserialize version" InactiveArbitrators_wf for version
  by (unfold_locales, simp add: inactiveArbitrators_defs codec_simps publicKeys.dec_enc,
      auto simp: inactiveArbitrators_defs decode_step publicKeys.dec_Inr_iff)

subsection \<open>Properties\<close>

text \<open>
  A block confirmation survives the wire: a well-formed confirm, its proposal and every vote
  in it, is read back as it was written.
\<close>

theorem confirm_round_trip:
  assumes "Confirm_wf c"
  shows "Confirm_Deserialize (Confirm_Serialize c @ r) = Inr (c, r)"
  using assms by (rule confirm.dec_enc)

definition sampleConfirm :: Confirm where
  "sampleConfirm = \<lparr>confirm_Proposal = \<lparr>proposal_Sponsor = [2, 3], proposal_BlockHash = replicate 32 7,
       proposal_ViewOffset = 0, proposal_Sign = [4]\<rparr>,
     confirm_Votes = [\<lparr>vote_ProposalHash = replicate 32 5, vote_Signer = [6], vote_Accept = True,
       vote_Sign = [8]\<rparr>]\<rparr>"

theorem confirm_round_trip_witness:
  "Confirm_wf sampleConfirm \<and>
   Confirm_Deserialize (Confirm_Serialize sampleConfirm @ [9]) = Inr (sampleConfirm, [9])"
  using confirm_round_trip [of sampleConfirm "[9]"]
  by (simp add: sampleConfirm_def Confirm_wf_def DPOSProposal_wf_def DPOSProposalVote_wf_def list_wf_def)

text \<open>
  C9. The vote count of a confirm is trusted before a single vote is read: a count whose slice
  would exceed the address space stops the node with a panic, whatever follows it.
\<close>

theorem confirm_count_panics:
  assumes "DPOSProposal_wf p" and "96 * unat n > 2 ^ 48"
  shows "Confirm_Deserialize (DPOSProposal_Serialize p @ WriteUint64 n @ r) = Inl (MakeSlicePanic, r)"
  using assms by (simp add: Confirm_Deserialize_def codec_simps proposal.dec_enc makeSlice_def)

theorem confirm_count_panics_witness:
  "Confirm_Deserialize (DPOSProposal_Serialize (confirm_Proposal sampleConfirm) @ WriteUint64 (2 ^ 63) @ [9]) =
     Inl (MakeSlicePanic, [9])"
  by (rule confirm_count_panics) (simp_all add: sampleConfirm_def DPOSProposal_wf_def)

end
