(* ===== verification/TxPayload.thy ===== *)
theory TxPayload
  imports Payload
begin

section \<open>The other transaction payloads: core/types/payload\<close>

text \<open>
  The payloads of the transactions that are not about DPoS producers: coin base, assets, records,
  the cross-chain transfers and the CR (Cyber Republic) registration and proposal payloads, each
  with its Serialize and Deserialize methods as an interpretation of a codec contract. The last
  section has the \<^verbatim>\<open>types.Payload\<close> interface as a datatype, the dispatch of \<^verbatim>\<open>GetPayload\<close> on the
  transaction type, and the round trip of every payload.
\<close>

abbreviation MaxPayloadDataSize :: u32 where "MaxPayloadDataSize \<equiv> 1048576"
abbreviation MaxSignatureScriptLength :: u32 where "MaxSignatureScriptLength \<equiv> 64001"
abbreviation MaxMultiSignCodeLength :: u32 where "MaxMultiSignCodeLength \<equiv> 34003"
abbreviation PublicKeyScriptLength :: u32 where "PublicKeyScriptLength \<equiv> 35"

subsection \<open>Single bytes\<close>

text \<open>\<^verbatim>\<open>val, err := common.ReadBytes(r, 1)\<close> and then \<^verbatim>\<open>val[0]\<close>: for one byte the short read of
  \<^verbatim>\<open>ReadBytes\<close> cannot happen, and the result is that of \<^verbatim>\<open>ReadUint8\<close>.\<close>

definition ReadByte1 :: "u8 reader" where
  "ReadByte1 = rbind (ReadBytes 1) (\<lambda>val. rret (val ! 0))"

lemma ReadByte1_eq [simp]: "ReadByte1 = ReadUint8"
proof
  fix r show "ReadByte1 r = ReadUint8 r"
    by (cases r) (auto simp: ReadByte1_def ReadUint8_def ReadBytes_def ReadFull_def codec_simps)
qed

subsection \<open>Writers that may fail\<close>

text \<open>
  A Serialize method that checks its receiver has written some bytes when it returns, with or
  without an error; \<open>wseq\<close> is the sequence \<^verbatim>\<open>if err := ...; err != nil { return err }\<close> and
  \<open>serAll\<close> the loop that serialises the elements of a slice. \<open>WNilDereference\<close> marks a panic on
  the way. The contract \<open>checked_codec\<close> is the round trip of such a pair, and \<open>serAll_ok\<close> its form
  for a slice.
\<close>

datatype write_error =
    WErr string
  | WNilDereference

type_synonym written = "bytes \<times> write_error option"

definition wok :: "bytes \<Rightarrow> written" where
  [simp]: "wok bs = (bs, None)"

fun wseq :: "written \<Rightarrow> written \<Rightarrow> written" where
  "wseq (bs, None) (bs', e) = (bs @ bs', e)"
| "wseq (bs, Some e) _ = (bs, Some e)"

fun serAll :: "('a \<Rightarrow> written) \<Rightarrow> 'a list \<Rightarrow> written" where
  "serAll ser [] = wok []"
| "serAll ser (x # xs) = wseq (ser x) (serAll ser xs)"

definition writes :: "written \<Rightarrow> 'a reader \<Rightarrow> 'a \<Rightarrow> bool" where
  "writes w dec x \<longleftrightarrow> (\<exists>bs. w = wok bs \<and> (\<forall>r. dec (bs @ r) = Inr (x, r)))"

lemma writesI: "w = wok bs \<Longrightarrow> (\<And>r. dec (bs @ r) = Inr (x, r)) \<Longrightarrow> writes w dec x"
  by (auto simp: writes_def)

lemma writesE:
  assumes "writes w dec x"
  obtains bs where "w = (bs, None)" and "\<And>r. dec (bs @ r) = Inr (x, r)"
  using assms by (auto simp: writes_def)

locale checked_codec =
  fixes ser :: "'a \<Rightarrow> written"
    and dec :: "'a reader"
    and ok :: "'a \<Rightarrow> bool"
  assumes ser_dec: "ok x \<Longrightarrow> writes (ser x) dec x"
begin

lemma ser_inject: "ok x \<Longrightarrow> ok y \<Longrightarrow> ser x = ser y \<longleftrightarrow> x = y"
  using ser_dec [of x] ser_dec [of y] by (force simp: writes_def)

lemma serAll_ok: "\<forall>x \<in> set xs. ok x \<Longrightarrow> writes (serAll ser xs) (readN (length xs) dec) xs"
proof (induction xs)
  case Nil
  then show ?case by (simp add: writes_def codec_simps)
next
  case (Cons x xs)
  obtain b where b: "ser x = (b, None)" "\<And>r. dec (b @ r) = Inr (x, r)"
    using ser_dec [of x] Cons.prems by (auto elim: writesE)
  obtain bs where bs: "serAll ser xs = (bs, None)" "\<And>r. readN (length xs) dec (bs @ r) = Inr (xs, r)"
    using Cons by (auto elim: writesE)
  show ?case by (rule writesI [of _ "b @ bs"]) (simp_all add: b bs codec_simps)
qed

text \<open>A slice with its length in front of it.\<close>

lemma counted_ok:
  assumes "\<forall>x \<in> set xs. ok x" and "length xs < 2 ^ 64"
  shows "writes (wseq (wok (WriteVarUint (word_of_nat (length xs)))) (serAll ser xs))
           (rbind ReadVarUint (\<lambda>n. readN (unat n) dec)) xs"
proof -
  obtain bs where "serAll ser xs = (bs, None)" "\<And>r. readN (length xs) dec (bs @ r) = Inr (xs, r)"
    using serAll_ok [OF assms(1)] by (auto elim: writesE)
  then show ?thesis
    using assms(2) varUint.dec_enc
    by (intro writesI [of _ "WriteVarUint (word_of_nat (length xs)) @ bs"])
       (simp_all add: rbind_def unat_word_of_nat_u64)
qed

end

text \<open>A writer that cannot fail is a special case.\<close>

sublocale codec \<subseteq> checked: checked_codec "\<lambda>x. wok (enc x)" dec ok
  by unfold_locales (auto simp: writes_def dec_enc)

text \<open>A count that was written as a variable-length integer is read back as the length.\<close>

lemma unat_count [simp]: "length xs < 2 ^ 64 \<Longrightarrow> unat (word_of_nat (length xs) :: u64) = length xs"
  by (rule unat_word_of_nat_u64)

subsection \<open>Coin base, assets and records\<close>

definition CoinBase_Serialize :: "u8 \<Rightarrow> bytes \<Rightarrow> bytes" where
  "CoinBase_Serialize version content = WriteVarBytes content"

definition CoinBase_Deserialize :: "u8 \<Rightarrow> bytes reader" where
  "CoinBase_Deserialize version = ReadVarBytes MaxPayloadDataSize ''payload coinbase data''"

record Asset =
  asset_Name :: string
  asset_Description :: string
  asset_Precision :: u8
  asset_AssetType :: u8
  asset_RecordType :: u8

definition Asset_Serialize :: "Asset \<Rightarrow> bytes" where
  "Asset_Serialize a = WriteVarString (asset_Name a) @ WriteVarString (asset_Description a) @
     [asset_Precision a] @ [asset_AssetType a] @ [asset_RecordType a]"

definition Asset_Deserialize :: "Asset reader" where
  "Asset_Deserialize =
     rbind (rwrap ''[Asset], Name deserialize failed.'' ReadVarString) (\<lambda>name.
     rbind (rwrap ''[Asset], Description deserialize failed.'' ReadVarString) (\<lambda>description.
     rbind (rwrap ''[Asset], Precision deserialize failed.'' ReadByte1) (\<lambda>precision.
     rbind (rwrap ''[Asset], AssetType deserialize failed.'' ReadByte1) (\<lambda>assetType.
     rbind (rwrap ''[Asset], Type deserialize failed.'' ReadByte1) (\<lambda>recordType.
     rret \<lparr>asset_Name = name, asset_Description = description, asset_Precision = precision,
           asset_AssetType = assetType, asset_RecordType = recordType\<rparr>)))))"

definition Asset_Hash :: "(bytes \<Rightarrow> Uint256) \<Rightarrow> Asset \<Rightarrow> Uint256" where
  "Asset_Hash H a = H (Asset_Serialize a)"

definition Asset_wf :: "Asset \<Rightarrow> bool" where
  "Asset_wf a \<longleftrightarrow> length (asset_Name a) \<le> 16777216 \<and> length (asset_Description a) \<le> 16777216"

record RegisterAsset =
  ra_Asset :: Asset
  ra_Amount :: Fixed64
  ra_Controller :: Uint168

definition RegisterAsset_Serialize :: "u8 \<Rightarrow> RegisterAsset \<Rightarrow> bytes" where
  "RegisterAsset_Serialize version a =
     Asset_Serialize (ra_Asset a) @ Fixed64_Serialize (ra_Amount a) @ Uint168_Serialize (ra_Controller a)"

definition RegisterAsset_Deserialize :: "u8 \<Rightarrow> RegisterAsset reader" where
  "RegisterAsset_Deserialize version =
     rbind (rwrap ''[RegisterAsset], Asset Deserialize failed.'' Asset_Deserialize) (\<lambda>asset.
     rbind (rwrap ''[RegisterAsset], Amount Deserialize failed.'' Fixed64_Deserialize) (\<lambda>amount.
     rbind (rwrap ''[RegisterAsset], Amount Deserialize failed.'' Uint168_Deserialize) (\<lambda>controller.
     rret \<lparr>ra_Asset = asset, ra_Amount = amount, ra_Controller = controller\<rparr>)))"

definition RegisterAsset_wf :: "RegisterAsset \<Rightarrow> bool" where
  "RegisterAsset_wf a \<longleftrightarrow> Asset_wf (ra_Asset a) \<and> length (ra_Controller a) = 21"

record Record =
  record_Type :: string
  record_Content :: bytes

definition Record_Serialize :: "u8 \<Rightarrow> Record \<Rightarrow> bytes" where
  "Record_Serialize version a = WriteVarString (record_Type a) @ WriteVarBytes (record_Content a)"

definition Record_Deserialize :: "u8 \<Rightarrow> Record reader" where
  "Record_Deserialize version =
     rbind (rwrap ''[RecordDetail], Type deserialize failed.'' ReadVarString) (\<lambda>ty.
     rbind (rwrap ''[RecordDetail], Record deserialize failed.''
       (ReadVarBytes MaxPayloadDataSize ''payload record data'')) (\<lambda>content.
     rret \<lparr>record_Type = ty, record_Content = content\<rparr>))"

definition Record_wf :: "Record \<Rightarrow> bool" where
  "Record_wf a \<longleftrightarrow> length (record_Type a) \<le> 16777216 \<and> length (record_Content a) \<le> 1048576"

text \<open>A byte written with \<^verbatim>\<open>w.Write([]byte{b})\<close> is the byte \<^verbatim>\<open>WriteUint8\<close> writes.\<close>

lemma write_byte: "b # bs = WriteUint8 b @ bs"
  by (simp add: WriteUint8_def)

interpretation coinBase: canonical_codec "CoinBase_Serialize version" "CoinBase_Deserialize version"
    "\<lambda>c. length c \<le> 1048576" for version
  by (unfold_locales, simp_all add: CoinBase_Serialize_def CoinBase_Deserialize_def codec_simps decode_step)

interpretation asset: canonical_codec Asset_Serialize Asset_Deserialize Asset_wf
  by (unfold_locales, simp add: Asset_Serialize_def Asset_Deserialize_def Asset_wf_def write_byte codec_simps,
      auto simp: Asset_Serialize_def Asset_Deserialize_def Asset_wf_def WriteUint8_def decode_step)

interpretation registerAsset: canonical_codec "RegisterAsset_Serialize version"
    "RegisterAsset_Deserialize version" RegisterAsset_wf for version
  by (unfold_locales, simp add: RegisterAsset_Serialize_def RegisterAsset_Deserialize_def
        RegisterAsset_wf_def codec_simps asset.dec_enc,
      auto simp: RegisterAsset_Serialize_def RegisterAsset_Deserialize_def RegisterAsset_wf_def
        decode_step asset.dec_Inr_iff)

interpretation record_payload: canonical_codec "Record_Serialize version" "Record_Deserialize version" Record_wf
  for version
  by (unfold_locales, simp add: Record_Serialize_def Record_Deserialize_def Record_wf_def codec_simps,
      auto simp: Record_Serialize_def Record_Deserialize_def Record_wf_def decode_step)

subsection \<open>Slices that grow by append\<close>

text \<open>The count is read first and the slice grows element by element: nothing is allocated from
  the count itself.\<close>

definition readAppend :: "'a reader \<Rightarrow> 'a list reader" where
  "readAppend dec = rbind ReadVarUint (\<lambda>n. readN (unat n) dec)"

lemma readAppend_readList: "readAppend dec = readList 0 dec"
  by (rule ext) (auto simp: readAppend_def readList_def makeSlice_def rbind_def rret_def split: sum.splits)

abbreviation slice_wf :: "('a \<Rightarrow> bool) \<Rightarrow> 'a list \<Rightarrow> bool" where
  "slice_wf \<equiv> list_wf 0"

context codec
begin

lemma append_dec_enc [codec_simps]:
  "slice_wf ok xs \<Longrightarrow> readAppend dec (writeList enc xs @ r) = Inr (xs, r)"
  unfolding readAppend_readList by (rule codec.dec_enc [OF codec_list])

end

context canonical_codec
begin

lemma append_dec_Inr_iff:
  "readAppend dec bs = Inr (xs, r) \<longleftrightarrow> slice_wf ok xs \<and> bs = writeList enc xs @ r"
  unfolding readAppend_readList by (rule canonical_codec.dec_Inr_iff [OF canonical_codec_list])

lemma rwrap_canonical: "canonical_codec enc (rwrap msg dec) ok"
  by unfold_locales (auto simp: rwrap_def dec_enc dec_Inr_iff split: sum.splits)

end

interpretation wrapped_hash: canonical_codec Uint256_Serialize "rwrap msg Uint256_Deserialize"
    "\<lambda>u. length u = 32" for msg
  by (rule uint256.rwrap_canonical)

subsection \<open>Side chains\<close>

record SideChainPow =
  scp_SideBlockHash :: Uint256
  scp_SideGenesisHash :: Uint256
  scp_BlockHeight :: u32
  scp_Signature :: bytes

definition SideChainPow_SerializeUnsigned :: "u8 \<Rightarrow> SideChainPow \<Rightarrow> bytes" where
  "SideChainPow_SerializeUnsigned version a =
     Uint256_Serialize (scp_SideBlockHash a) @ Uint256_Serialize (scp_SideGenesisHash a) @
     WriteUint32 (scp_BlockHeight a)"

definition SideChainPow_Serialize :: "u8 \<Rightarrow> SideChainPow \<Rightarrow> bytes" where
  "SideChainPow_Serialize version a =
     SideChainPow_SerializeUnsigned version a @ WriteVarBytes (scp_Signature a)"

definition SideChainPow_Deserialize :: "u8 \<Rightarrow> SideChainPow reader" where
  "SideChainPow_Deserialize version =
     (let failed = ''[SideChainPow], SignatureData dserialize failed.'' in
      rbind (rwrap failed Uint256_Deserialize) (\<lambda>blockHash.
      rbind (rwrap failed Uint256_Deserialize) (\<lambda>genesisHash.
      rbind (rwrap failed ReadUint32) (\<lambda>ht.
      rbind (rwrap failed (ReadVarBytes MaxPayloadDataSize ''payload sidechainpow signed data'')) (\<lambda>sig.
      rret \<lparr>scp_SideBlockHash = blockHash, scp_SideGenesisHash = genesisHash,
            scp_BlockHeight = ht, scp_Signature = sig\<rparr>)))))"

definition SideChainPow_wf :: "SideChainPow \<Rightarrow> bool" where
  "SideChainPow_wf a \<longleftrightarrow> length (scp_SideBlockHash a) = 32 \<and> length (scp_SideGenesisHash a) = 32 \<and>
     length (scp_Signature a) \<le> 1048576"

lemmas sideChainPow_defs = SideChainPow_Serialize_def SideChainPow_SerializeUnsigned_def
  SideChainPow_Deserialize_def SideChainPow_wf_def Let_def

interpretation sideChainPow: canonical_codec "SideChainPow_Serialize version"
    "SideChainPow_Deserialize version" SideChainPow_wf for version
  by (unfold_locales, simp add: sideChainPow_defs codec_simps, auto simp: sideChainPow_defs decode_step)

record WithdrawFromSideChain =
  wfs_BlockHeight :: u32
  wfs_GenesisBlockAddress :: string
  wfs_SideChainTransactionHashes :: "Uint256 list"

definition WithdrawFromSideChain_Serialize :: "u8 \<Rightarrow> WithdrawFromSideChain \<Rightarrow> bytes" where
  "WithdrawFromSideChain_Serialize version t =
     WriteUint32 (wfs_BlockHeight t) @ WriteVarString (wfs_GenesisBlockAddress t) @
     writeList Uint256_Serialize (wfs_SideChainTransactionHashes t)"

definition WithdrawFromSideChain_Deserialize :: "u8 \<Rightarrow> WithdrawFromSideChain reader" where
  "WithdrawFromSideChain_Deserialize version =
     rbind (rwrap ''[WithdrawFromSideChain], BlockHeight deserialize failed.'' ReadUint32) (\<lambda>ht.
     rbind (rwrap ''[WithdrawFromSideChain], GenesisBlockAddress deserialize failed.'' ReadVarString) (\<lambda>addr.
     rbind (rwrap ''[WithdrawFromSideChain], SideChainTransactionHashes count deserialize failed''
       ReadVarUint) (\<lambda>count.
     rbind (readN (unat count) (rwrap
       ''[WithdrawFromSideChain], SideChainTransactionHash deserialize failed.'' Uint256_Deserialize))
       (\<lambda>hashes.
     rret \<lparr>wfs_BlockHeight = ht, wfs_GenesisBlockAddress = addr,
           wfs_SideChainTransactionHashes = hashes\<rparr>))))"

definition WithdrawFromSideChain_wf :: "WithdrawFromSideChain \<Rightarrow> bool" where
  "WithdrawFromSideChain_wf t \<longleftrightarrow> length (wfs_GenesisBlockAddress t) \<le> 16777216 \<and>
     slice_wf (\<lambda>h. length h = 32) (wfs_SideChainTransactionHashes t)"

lemmas withdrawFromSideChain_defs = WithdrawFromSideChain_Serialize_def
  WithdrawFromSideChain_Deserialize_def WithdrawFromSideChain_wf_def

lemma unat_u64_less [simp]: "unat (w :: u64) < 18446744073709551616"
  using unsigned_less [of w] by simp

interpretation withdrawFromSideChain: canonical_codec "WithdrawFromSideChain_Serialize version"
    "WithdrawFromSideChain_Deserialize version" WithdrawFromSideChain_wf for version
  by (unfold_locales, simp add: withdrawFromSideChain_defs codec_simps writeList_def list_wf_def
        wrapped_hash.readN_enc unat_word_of_nat_u64,
      auto simp: withdrawFromSideChain_defs decode_step writeList_def list_wf_def
        dest!: wrapped_hash.readN_Inr)

record TransferCrossChainAsset =
  tcc_CrossChainAddresses :: "string list"
  tcc_OutputIndexes :: "u64 list"
  tcc_CrossChainAmounts :: "Fixed64 list"

fun crossChainEntries :: "string list \<Rightarrow> u64 list \<Rightarrow> Fixed64 list \<Rightarrow> bytes" where
  "crossChainEntries (a # as) (i # is) (m # ms) =
     WriteVarString a @ WriteVarUint i @ Fixed64_Serialize m @ crossChainEntries as is ms"
| "crossChainEntries _ _ _ = []"

definition TransferCrossChainAsset_Serialize :: "u8 \<Rightarrow> TransferCrossChainAsset \<Rightarrow> written" where
  "TransferCrossChainAsset_Serialize version a =
     (if length (tcc_CrossChainAddresses a) \<noteq> length (tcc_OutputIndexes a) \<or>
         length (tcc_OutputIndexes a) \<noteq> length (tcc_CrossChainAmounts a)
      then ([], Some (WErr ''Invalid cross chain asset''))
      else wok (WriteVarUint (word_of_nat (length (tcc_CrossChainAddresses a))) @
        crossChainEntries (tcc_CrossChainAddresses a) (tcc_OutputIndexes a) (tcc_CrossChainAmounts a)))"

definition readCrossChainEntry :: "(string \<times> u64 \<times> Fixed64) reader" where
  "readCrossChainEntry =
     rbind (rwrap ''CrossChainAddresses deserialize failed'' ReadVarString) (\<lambda>address.
     rbind (rwrap ''OutputIndexes index deserialize failed'' ReadVarUint) (\<lambda>index.
     rbind (rwrap ''CrossChainAmounts deserialize failed'' Fixed64_Deserialize) (\<lambda>amount.
     rret (address, index, amount))))"

definition TransferCrossChainAsset_Deserialize :: "u8 \<Rightarrow> TransferCrossChainAsset reader" where
  "TransferCrossChainAsset_Deserialize version =
     rbind (rwrap ''TransferCrossChainAsset length deserialize failed'' ReadVarUint) (\<lambda>len.
     rbind (readN (unat len) readCrossChainEntry) (\<lambda>entries.
     rret \<lparr>tcc_CrossChainAddresses = map fst entries,
           tcc_OutputIndexes = map (\<lambda>e. fst (snd e)) entries,
           tcc_CrossChainAmounts = map (\<lambda>e. snd (snd e)) entries\<rparr>))"

definition TransferCrossChainAsset_wf :: "TransferCrossChainAsset \<Rightarrow> bool" where
  "TransferCrossChainAsset_wf a \<longleftrightarrow>
     length (tcc_CrossChainAddresses a) = length (tcc_OutputIndexes a) \<and>
     length (tcc_OutputIndexes a) = length (tcc_CrossChainAmounts a) \<and>
     slice_wf (\<lambda>s. length s \<le> 16777216) (tcc_CrossChainAddresses a)"

lemma crossChainEntries_read:
  "length as = length is \<Longrightarrow> length is = length ms \<Longrightarrow> \<forall>a \<in> set as. length a \<le> 16777216 \<Longrightarrow>
   readN (length as) readCrossChainEntry (crossChainEntries as is ms @ r) = Inr (zip as (zip is ms), r)"
proof (induction as "is" ms rule: list_induct3)
  case Nil
  then show ?case by (simp add: codec_simps)
next
  case (Cons a as i "is" m ms)
  have "readCrossChainEntry (WriteVarString a @ WriteVarUint i @ Fixed64_Serialize m @ s) =
      Inr ((a, i, m), s)" for s
    using Cons.prems by (simp add: readCrossChainEntry_def codec_simps)
  with Cons show ?case by (simp add: codec_simps)
qed

lemma crossChainEntries_read_n:
  "length as = n \<Longrightarrow> length is = n \<Longrightarrow> length ms = n \<Longrightarrow> \<forall>a \<in> set as. length a \<le> 16777216 \<Longrightarrow>
   readN n readCrossChainEntry (crossChainEntries as is ms @ r) = Inr (zip as (zip is ms), r)"
  using crossChainEntries_read [of as "is" ms r] by simp

lemma map_zip3:
  assumes "length as = length is" and "length is = length ms"
  shows "map fst (zip as (zip is ms)) = as"
    and "map (\<lambda>e. fst (snd e)) (zip as (zip is ms)) = is"
    and "map (\<lambda>e. snd (snd e)) (zip as (zip is ms)) = ms"
  using assms by (induction as "is" ms rule: list_induct3) simp_all

interpretation transferCrossChainAsset: checked_codec "TransferCrossChainAsset_Serialize version"
    "TransferCrossChainAsset_Deserialize version" TransferCrossChainAsset_wf for version
proof
  fix a assume wf: "TransferCrossChainAsset_wf a"
  then show "writes (TransferCrossChainAsset_Serialize version a) (TransferCrossChainAsset_Deserialize version) a"
    by (intro writesI [OF TransferCrossChainAsset_Serialize_def [THEN trans, OF if_not_P]])
       (simp_all add: TransferCrossChainAsset_Deserialize_def TransferCrossChainAsset_wf_def
         list_wf_def codec_simps crossChainEntries_read_n map_zip3)
qed

subsection \<open>Cyber Republic candidates\<close>

record CRInfo =
  crinfo_Code :: bytes
  crinfo_CID :: Uint168
  crinfo_DID :: Uint168
  crinfo_NickName :: string
  crinfo_Url :: string
  crinfo_Location :: u64
  crinfo_Signature :: bytes

abbreviation CRInfoVersion :: u8 where "CRInfoVersion \<equiv> 0"

text \<open>The zero value of a \<^verbatim>\<open>common.Uint168\<close>.\<close>

abbreviation zeroUint168 :: Uint168 where "zeroUint168 \<equiv> replicate 21 0"

definition CRInfo_SerializeUnsigned :: "u8 \<Rightarrow> CRInfo \<Rightarrow> bytes" where
  "CRInfo_SerializeUnsigned version a =
     WriteVarBytes (crinfo_Code a) @ Uint168_Serialize (crinfo_CID a) @
     (if version > CRInfoVersion then Uint168_Serialize (crinfo_DID a) else []) @
     WriteVarString (crinfo_NickName a) @ WriteVarString (crinfo_Url a) @
     WriteUint64 (crinfo_Location a)"

definition CRInfo_Serialize :: "u8 \<Rightarrow> CRInfo \<Rightarrow> bytes" where
  "CRInfo_Serialize version a = CRInfo_SerializeUnsigned version a @ WriteVarBytes (crinfo_Signature a)"

definition CRInfo_DeserializeUnsigned :: "u8 \<Rightarrow> CRInfo reader" where
  "CRInfo_DeserializeUnsigned version =
     rbind (rwrap ''[CRInfo], code deserialize failed'' (ReadVarBytes MaxMultiSignCodeLength ''code'')) (\<lambda>code.
     rbind (rwrap ''[CRInfo], CID deserialize failed'' Uint168_Deserialize) (\<lambda>cid.
     rbind (if version > CRInfoVersion then rwrap ''[CRInfo], DID deserialize failed'' Uint168_Deserialize
            else rret zeroUint168) (\<lambda>did.
     rbind (rwrap ''[CRInfo], nickName deserialize failed'' ReadVarString) (\<lambda>nick.
     rbind (rwrap ''[CRInfo], url deserialize failed'' ReadVarString) (\<lambda>url.
     rbind (rwrap ''[CRInfo], location deserialize failed'' ReadUint64) (\<lambda>loc.
     rret \<lparr>crinfo_Code = code, crinfo_CID = cid, crinfo_DID = did, crinfo_NickName = nick,
           crinfo_Url = url, crinfo_Location = loc, crinfo_Signature = []\<rparr>))))))"

definition CRInfo_Deserialize :: "u8 \<Rightarrow> CRInfo reader" where
  "CRInfo_Deserialize version =
     rbind (CRInfo_DeserializeUnsigned version) (\<lambda>a.
     rbind (rwrap ''[CRInfo], signature deserialize failed''
       (ReadVarBytes MaxSignatureScriptLength ''signature'')) (\<lambda>sig.
     rret (a\<lparr>crinfo_Signature := sig\<rparr>)))"

definition CRInfo_wf :: "u8 \<Rightarrow> CRInfo \<Rightarrow> bool" where
  "CRInfo_wf version a \<longleftrightarrow> length (crinfo_Code a) \<le> 34003 \<and> length (crinfo_CID a) = 21 \<and>
     (if version > CRInfoVersion then length (crinfo_DID a) = 21 else crinfo_DID a = zeroUint168) \<and>
     length (crinfo_NickName a) \<le> 16777216 \<and> length (crinfo_Url a) \<le> 16777216 \<and>
     length (crinfo_Signature a) \<le> 64001"

lemmas crInfo_defs = CRInfo_Serialize_def CRInfo_SerializeUnsigned_def CRInfo_Deserialize_def
  CRInfo_DeserializeUnsigned_def CRInfo_wf_def

interpretation crInfo: canonical_codec "CRInfo_Serialize version" "CRInfo_Deserialize version"
    "CRInfo_wf version" for version
  by (unfold_locales, cases "version > CRInfoVersion", simp add: crInfo_defs codec_simps,
      simp add: crInfo_defs codec_simps, cases "version > CRInfoVersion",
      auto simp: crInfo_defs decode_step)

record UnregisterCR =
  ucr_CID :: Uint168
  ucr_Signature :: bytes

definition UnregisterCR_SerializeUnsigned :: "u8 \<Rightarrow> UnregisterCR \<Rightarrow> bytes" where
  "UnregisterCR_SerializeUnsigned version a = Uint168_Serialize (ucr_CID a)"

definition UnregisterCR_Serialize :: "u8 \<Rightarrow> UnregisterCR \<Rightarrow> bytes" where
  "UnregisterCR_Serialize version a =
     UnregisterCR_SerializeUnsigned version a @ WriteVarBytes (ucr_Signature a)"

definition UnregisterCR_DeserializeUnsigned :: "u8 \<Rightarrow> Uint168 reader" where
  "UnregisterCR_DeserializeUnsigned version =
     rwrap ''[UnregisterCR], CID deserialize failed'' Uint168_Deserialize"

definition UnregisterCR_Deserialize :: "u8 \<Rightarrow> UnregisterCR reader" where
  "UnregisterCR_Deserialize version =
     rbind (UnregisterCR_DeserializeUnsigned version) (\<lambda>cid.
     rbind (rwrap ''[UnregisterCR], signature deserialize failed''
       (ReadVarBytes MaxSignatureScriptLength ''signature'')) (\<lambda>sig.
     rret \<lparr>ucr_CID = cid, ucr_Signature = sig\<rparr>))"

definition UnregisterCR_wf :: "UnregisterCR \<Rightarrow> bool" where
  "UnregisterCR_wf a \<longleftrightarrow> length (ucr_CID a) = 21 \<and> length (ucr_Signature a) \<le> 64001"

lemmas unregisterCR_defs = UnregisterCR_Serialize_def UnregisterCR_SerializeUnsigned_def
  UnregisterCR_Deserialize_def UnregisterCR_DeserializeUnsigned_def UnregisterCR_wf_def

interpretation unregisterCR: canonical_codec "UnregisterCR_Serialize version"
    "UnregisterCR_Deserialize version" UnregisterCR_wf for version
  by (unfold_locales, simp add: unregisterCR_defs codec_simps, auto simp: unregisterCR_defs decode_step)

subsection \<open>Cyber Republic proposals\<close>

record Budget =
  budget_Type :: u8
  budget_Stage :: u8
  budget_Amount :: Fixed64

definition Budget_Serialize :: "Budget \<Rightarrow> bytes" where
  "Budget_Serialize b = WriteElement (EUint8 (budget_Type b)) @ WriteElement (EUint8 (budget_Stage b)) @
     Fixed64_Serialize (budget_Amount b)"

definition Budget_Deserialize :: "Budget reader" where
  "Budget_Deserialize =
     rbind (rwrap ''[CRCProposal], Type deserialize failed'' ReadUint8) (\<lambda>ty.
     rbind (rwrap ''[CRCProposal], Stage deserialize failed'' ReadUint8) (\<lambda>stage.
     rbind Fixed64_Deserialize (\<lambda>amount.
     rret \<lparr>budget_Type = ty, budget_Stage = stage, budget_Amount = amount\<rparr>)))"

interpretation budget: canonical_codec Budget_Serialize Budget_Deserialize "\<lambda>_. True"
  by (unfold_locales, simp add: Budget_Serialize_def Budget_Deserialize_def codec_simps,
      auto simp: Budget_Serialize_def Budget_Deserialize_def decode_step)

interpretation wrapped_budget: canonical_codec Budget_Serialize "rwrap msg Budget_Deserialize" "\<lambda>_. True"
  for msg
  by (rule budget.rwrap_canonical)

record CRCProposal =
  crcp_ProposalType :: u16
  crcp_CategoryData :: string
  crcp_OwnerPublicKey :: bytes
  crcp_DraftHash :: Uint256
  crcp_Budgets :: "Budget list"
  crcp_Recipient :: Uint168
  crcp_Signature :: bytes
  crcp_CRCouncilMemberDID :: Uint168
  crcp_CRCouncilMemberSignature :: bytes

definition CRCProposal_SerializeUnsigned :: "u8 \<Rightarrow> CRCProposal \<Rightarrow> bytes" where
  "CRCProposal_SerializeUnsigned version p =
     WriteElement (EUint16 (crcp_ProposalType p)) @ WriteVarString (crcp_CategoryData p) @
     WriteVarBytes (crcp_OwnerPublicKey p) @ Uint256_Serialize (crcp_DraftHash p) @
     writeList Budget_Serialize (crcp_Budgets p) @ Uint168_Serialize (crcp_Recipient p)"

definition CRCProposal_Serialize :: "u8 \<Rightarrow> CRCProposal \<Rightarrow> bytes" where
  "CRCProposal_Serialize version p =
     CRCProposal_SerializeUnsigned version p @ WriteVarBytes (crcp_Signature p) @
     Uint168_Serialize (crcp_CRCouncilMemberDID p) @ WriteVarBytes (crcp_CRCouncilMemberSignature p)"

text \<open>The loop over the budgets runs to \<^verbatim>\<open>int(count)\<close>: a count with the top bit set is negative.\<close>

definition CRCProposal_DeserializeUnSigned :: "u8 \<Rightarrow> CRCProposal reader" where
  "CRCProposal_DeserializeUnSigned version =
     rbind (rwrap ''[CRCProposal], ProposalType deserialize failed'' ReadUint16) (\<lambda>ty.
     rbind (rwrap ''[CRCProposal], Category data deserialize failed'' ReadVarString) (\<lambda>category.
     rbind (rwrap ''failed to deserialize OwnerPublicKey'' (ReadVarBytes NegativeBigLength ''owner'')) (\<lambda>owner.
     rbind (rwrap ''failed to deserialize DraftHash'' Uint256_Deserialize) (\<lambda>draft.
     rbind (rwrap ''failed to deserialize Budgets'' ReadVarUint) (\<lambda>count.
     rbind (readN (nat (sint count)) (rwrap ''failed to deserialize Budgets'' Budget_Deserialize)) (\<lambda>budgets.
     rbind (rwrap ''failed to deserialize Recipient'' Uint168_Deserialize) (\<lambda>recipient.
     rret \<lparr>crcp_ProposalType = ty, crcp_CategoryData = category, crcp_OwnerPublicKey = owner,
           crcp_DraftHash = draft, crcp_Budgets = budgets, crcp_Recipient = recipient,
           crcp_Signature = [], crcp_CRCouncilMemberDID = zeroUint168,
           crcp_CRCouncilMemberSignature = []\<rparr>)))))))"

definition CRCProposal_Deserialize :: "u8 \<Rightarrow> CRCProposal reader" where
  "CRCProposal_Deserialize version =
     rbind (CRCProposal_DeserializeUnSigned version) (\<lambda>p.
     rbind (ReadVarBytes SignatureLength ''sign data'') (\<lambda>sign.
     rbind (rwrap ''failed to deserialize CRCouncilMemberDID'' Uint168_Deserialize) (\<lambda>did.
     rbind (ReadVarBytes SignatureLength ''CR sign data'') (\<lambda>crSign.
     rret (p\<lparr>crcp_Signature := sign, crcp_CRCouncilMemberDID := did,
             crcp_CRCouncilMemberSignature := crSign\<rparr>)))))"

definition CRCProposal_Hash :: "(bytes \<Rightarrow> Uint256) \<Rightarrow> CRCProposal \<Rightarrow> Uint256" where
  "CRCProposal_Hash H p = H (CRCProposal_Serialize 0 p)"

definition CRCProposal_wf :: "CRCProposal \<Rightarrow> bool" where
  "CRCProposal_wf p \<longleftrightarrow> length (crcp_CategoryData p) \<le> 16777216 \<and> length (crcp_OwnerPublicKey p) \<le> 33 \<and>
     length (crcp_DraftHash p) = 32 \<and> length (crcp_Budgets p) < 2 ^ 63 \<and>
     length (crcp_Recipient p) = 21 \<and> length (crcp_Signature p) \<le> 64 \<and>
     length (crcp_CRCouncilMemberDID p) = 21 \<and> length (crcp_CRCouncilMemberSignature p) \<le> 64"

lemmas crcProposal_defs = CRCProposal_Serialize_def CRCProposal_SerializeUnsigned_def
  CRCProposal_Deserialize_def CRCProposal_DeserializeUnSigned_def CRCProposal_wf_def

lemma sint_count: "n < 2 ^ 63 \<Longrightarrow> nat (sint (word_of_nat n :: u64)) = n"
  by (simp add: signed_of_nat signed_take_bit_int_eq_self)

interpretation crcProposal: codec "CRCProposal_Serialize version" "CRCProposal_Deserialize version"
    CRCProposal_wf for version
  by (unfold_locales, simp add: crcProposal_defs codec_simps writeList_def sint_count
      wrapped_budget.readN_enc)

text \<open>So a count with the top bit set reads like the count 0, and two encodings decode to one proposal.\<close>

lemma CRCProposal_count_malleable:
  fixes count :: u64
  assumes "sint count \<le> 0" and "length cat \<le> 16777216" and "length owner \<le> 33" and "length draft = 32"
  shows "CRCProposal_DeserializeUnSigned version
      (WriteUint16 ty @ WriteVarString cat @ WriteVarBytes owner @ draft @ WriteVarUint count @ r) =
    CRCProposal_DeserializeUnSigned version
      (WriteUint16 ty @ WriteVarString cat @ WriteVarBytes owner @ draft @ WriteVarUint 0 @ r)"
  using assms uint256.dec_enc [of draft]
  by (simp add: CRCProposal_DeserializeUnSigned_def codec_simps Uint256_Serialize_def)

record CRCProposalReview =
  crcr_ProposalHash :: Uint256
  crcr_VoteResult :: u8
  crcr_OpinionHash :: Uint256
  crcr_DID :: Uint168
  crcr_Signature :: bytes

definition CRCProposalReview_SerializeUnsigned :: "u8 \<Rightarrow> CRCProposalReview \<Rightarrow> bytes" where
  "CRCProposalReview_SerializeUnsigned version a =
     Uint256_Serialize (crcr_ProposalHash a) @ WriteUint8 (crcr_VoteResult a) @
     Uint256_Serialize (crcr_OpinionHash a) @ Uint168_Serialize (crcr_DID a)"

definition CRCProposalReview_Serialize :: "u8 \<Rightarrow> CRCProposalReview \<Rightarrow> bytes" where
  "CRCProposalReview_Serialize version a =
     CRCProposalReview_SerializeUnsigned version a @ WriteVarBytes (crcr_Signature a)"

definition CRCProposalReview_DeserializeUnsigned :: "u8 \<Rightarrow> CRCProposalReview reader" where
  "CRCProposalReview_DeserializeUnsigned version =
     rbind Uint256_Deserialize (\<lambda>proposalHash.
     rbind (rwrap ''[CRCProposalReview], failed to deserialize VoteResult'' ReadByte1) (\<lambda>result.
     rbind (rwrap ''[CRCProposalReview], failed to deserialize OpinionHash'' Uint256_Deserialize) (\<lambda>opinion.
     rbind (rwrap ''[CRCProposalReview], failed to deserialize DID'' Uint168_Deserialize) (\<lambda>did.
     rret \<lparr>crcr_ProposalHash = proposalHash, crcr_VoteResult = result, crcr_OpinionHash = opinion,
           crcr_DID = did, crcr_Signature = []\<rparr>))))"

definition CRCProposalReview_Deserialize :: "u8 \<Rightarrow> CRCProposalReview reader" where
  "CRCProposalReview_Deserialize version =
     rbind (CRCProposalReview_DeserializeUnsigned version) (\<lambda>a.
     rbind (rwrap ''[CRCProposalReview], Signature deserialize failed''
       (ReadVarBytes MaxSignatureScriptLength ''sign'')) (\<lambda>sig.
     rret (a\<lparr>crcr_Signature := sig\<rparr>)))"

definition CRCProposalReview_wf :: "CRCProposalReview \<Rightarrow> bool" where
  "CRCProposalReview_wf a \<longleftrightarrow> length (crcr_ProposalHash a) = 32 \<and> length (crcr_OpinionHash a) = 32 \<and>
     length (crcr_DID a) = 21 \<and> length (crcr_Signature a) \<le> 64001"

lemmas crcProposalReview_defs = CRCProposalReview_Serialize_def
  CRCProposalReview_SerializeUnsigned_def CRCProposalReview_Deserialize_def
  CRCProposalReview_DeserializeUnsigned_def CRCProposalReview_wf_def

interpretation crcProposalReview: canonical_codec "CRCProposalReview_Serialize version"
    "CRCProposalReview_Deserialize version" CRCProposalReview_wf for version
  by (unfold_locales, simp add: crcProposalReview_defs codec_simps,
      auto simp: crcProposalReview_defs decode_step)

record CRCProposalTracking =
  crct_ProposalHash :: Uint256
  crct_MessageHash :: Uint256
  crct_Stage :: u8
  crct_OwnerPublicKey :: bytes
  crct_NewOwnerPublicKey :: bytes
  crct_OwnerSignature :: bytes
  crct_NewOwnerSignature :: bytes
  crct_ProposalTrackingType :: u8
  crct_SecretaryGeneralOpinionHash :: Uint256
  crct_SecretaryGeneralSignature :: bytes

definition CRCProposalTracking_SerializeUnsigned :: "u8 \<Rightarrow> CRCProposalTracking \<Rightarrow> bytes" where
  "CRCProposalTracking_SerializeUnsigned version p =
     Uint256_Serialize (crct_ProposalHash p) @ Uint256_Serialize (crct_MessageHash p) @
     WriteUint8 (crct_Stage p) @ WriteVarBytes (crct_OwnerPublicKey p) @
     WriteVarBytes (crct_NewOwnerPublicKey p)"

definition CRCProposalTracking_Serialize :: "u8 \<Rightarrow> CRCProposalTracking \<Rightarrow> bytes" where
  "CRCProposalTracking_Serialize version p =
     CRCProposalTracking_SerializeUnsigned version p @ WriteVarBytes (crct_OwnerSignature p) @
     WriteVarBytes (crct_NewOwnerSignature p) @ [crct_ProposalTrackingType p] @
     Uint256_Serialize (crct_SecretaryGeneralOpinionHash p) @
     WriteVarBytes (crct_SecretaryGeneralSignature p)"

definition CRCProposalTracking_DeserializeUnSigned ::
    "u8 \<Rightarrow> (Uint256 \<times> Uint256 \<times> u8 \<times> bytes \<times> bytes) reader" where
  "CRCProposalTracking_DeserializeUnSigned version =
     rbind (rwrap ''failed to deserialize ProposalHash'' Uint256_Deserialize) (\<lambda>proposalHash.
     rbind (rwrap ''failed to deserialize MessageHash'' Uint256_Deserialize) (\<lambda>messageHash.
     rbind (rwrap ''failed to deserialize Stage'' ReadUint8) (\<lambda>stage.
     rbind (rwrap ''failed to deserialize OwnerPublicKey''
       (ReadVarBytes PublicKeyScriptLength ''owner pubkey'')) (\<lambda>owner.
     rbind (rwrap ''failed to deserialize NewOwnerPublicKey''
       (ReadVarBytes PublicKeyScriptLength ''new owner pubkey'')) (\<lambda>newOwner.
     rret (proposalHash, messageHash, stage, owner, newOwner))))))"

definition CRCProposalTracking_Deserialize :: "u8 \<Rightarrow> CRCProposalTracking reader" where
  "CRCProposalTracking_Deserialize version =
     rbind (CRCProposalTracking_DeserializeUnSigned version)
       (\<lambda>(proposalHash, messageHash, stage, owner, newOwner).
     rbind (rwrap ''failed to deserialize ownerSign''
       (ReadVarBytes SignatureLength ''owner signature'')) (\<lambda>ownerSign.
     rbind (rwrap ''failed to deserialize newLeaderSign''
       (ReadVarBytes SignatureLength ''new owner signature'')) (\<lambda>newLeaderSign.
     rbind (rwrap ''failed to deserialize ProposalTrackingType'' ReadByte1) (\<lambda>pType.
     rbind (rwrap ''failed to deserialize SecretaryGeneralOpinionHash'' Uint256_Deserialize) (\<lambda>opinion.
     rbind (rwrap ''failed to deserialize SecretaryGeneralSignature''
       (ReadVarBytes SignatureLength ''secretary general signature'')) (\<lambda>sgSign.
     rret \<lparr>crct_ProposalHash = proposalHash, crct_MessageHash = messageHash, crct_Stage = stage,
           crct_OwnerPublicKey = owner, crct_NewOwnerPublicKey = newOwner,
           crct_OwnerSignature = ownerSign, crct_NewOwnerSignature = newLeaderSign,
           crct_ProposalTrackingType = pType, crct_SecretaryGeneralOpinionHash = opinion,
           crct_SecretaryGeneralSignature = sgSign\<rparr>))))))"

definition CRCProposalTracking_wf :: "CRCProposalTracking \<Rightarrow> bool" where
  "CRCProposalTracking_wf p \<longleftrightarrow> length (crct_ProposalHash p) = 32 \<and> length (crct_MessageHash p) = 32 \<and>
     length (crct_OwnerPublicKey p) \<le> 35 \<and> length (crct_NewOwnerPublicKey p) \<le> 35 \<and>
     length (crct_OwnerSignature p) \<le> 64 \<and> length (crct_NewOwnerSignature p) \<le> 64 \<and>
     length (crct_SecretaryGeneralOpinionHash p) = 32 \<and> length (crct_SecretaryGeneralSignature p) \<le> 64"

lemmas crcProposalTracking_defs = CRCProposalTracking_Serialize_def
  CRCProposalTracking_SerializeUnsigned_def CRCProposalTracking_Deserialize_def
  CRCProposalTracking_DeserializeUnSigned_def CRCProposalTracking_wf_def

interpretation crcProposalTracking: canonical_codec "CRCProposalTracking_Serialize version"
    "CRCProposalTracking_Deserialize version" CRCProposalTracking_wf for version
  by (unfold_locales, simp add: crcProposalTracking_defs write_byte codec_simps,
      auto simp: crcProposalTracking_defs WriteUint8_def decode_step)

record CRCProposalWithdraw =
  crcw_ProposalHash :: Uint256
  crcw_OwnerPublicKey :: bytes
  crcw_Signature :: bytes

definition CRCProposalWithdraw_SerializeUnsigned :: "u8 \<Rightarrow> CRCProposalWithdraw \<Rightarrow> bytes" where
  "CRCProposalWithdraw_SerializeUnsigned version p =
     Uint256_Serialize (crcw_ProposalHash p) @ WriteVarBytes (crcw_OwnerPublicKey p)"

definition CRCProposalWithdraw_Serialize :: "u8 \<Rightarrow> CRCProposalWithdraw \<Rightarrow> bytes" where
  "CRCProposalWithdraw_Serialize version p =
     CRCProposalWithdraw_SerializeUnsigned version p @ WriteVarBytes (crcw_Signature p)"

definition CRCProposalWithdraw_DeserializeUnsigned :: "u8 \<Rightarrow> (Uint256 \<times> bytes) reader" where
  "CRCProposalWithdraw_DeserializeUnsigned version =
     rbind Uint256_Deserialize (\<lambda>proposalHash.
     rbind (ReadVarBytes NegativeBigLength ''owner'') (\<lambda>owner. rret (proposalHash, owner)))"

definition CRCProposalWithdraw_Deserialize :: "u8 \<Rightarrow> CRCProposalWithdraw reader" where
  "CRCProposalWithdraw_Deserialize version =
     rbind (CRCProposalWithdraw_DeserializeUnsigned version) (\<lambda>(proposalHash, owner).
     rbind (rwrap ''[CRCProposalWithdraw], Signature deserialize failed''
       (ReadVarBytes MaxSignatureScriptLength ''sign'')) (\<lambda>sig.
     rret \<lparr>crcw_ProposalHash = proposalHash, crcw_OwnerPublicKey = owner, crcw_Signature = sig\<rparr>))"

definition CRCProposalWithdraw_wf :: "CRCProposalWithdraw \<Rightarrow> bool" where
  "CRCProposalWithdraw_wf p \<longleftrightarrow> length (crcw_ProposalHash p) = 32 \<and> length (crcw_OwnerPublicKey p) \<le> 33 \<and>
     length (crcw_Signature p) \<le> 64001"

lemmas crcProposalWithdraw_defs = CRCProposalWithdraw_Serialize_def
  CRCProposalWithdraw_SerializeUnsigned_def CRCProposalWithdraw_Deserialize_def
  CRCProposalWithdraw_DeserializeUnsigned_def CRCProposalWithdraw_wf_def

interpretation crcProposalWithdraw: canonical_codec "CRCProposalWithdraw_Serialize version"
    "CRCProposalWithdraw_Deserialize version" CRCProposalWithdraw_wf for version
  by (unfold_locales, simp add: crcProposalWithdraw_defs codec_simps,
      auto simp: crcProposalWithdraw_defs decode_step)

subsection \<open>The payload interface\<close>

text \<open>
  \<^verbatim>\<open>types.Payload\<close> is an interface; its dynamic type is the constructor of \<open>Payload\<close>, and \<open>PayloadKind\<close>
  is the type of the empty struct that \<^verbatim>\<open>GetPayload\<close> allocates before Deserialize fills it.
\<close>

datatype Payload =
    PCoinBase bytes
  | PRegisterAsset RegisterAsset
  | PTransferAsset
  | PRecord Record
  | PSideChainPow SideChainPow
  | PWithdrawFromSideChain WithdrawFromSideChain
  | PTransferCrossChainAsset TransferCrossChainAsset
  | PProducerInfo ProducerInfo
  | PProcessProducer ProcessProducer
  | PReturnDepositCoin
  | PActivateProducer ActivateProducer
  | PDPOSIllegalProposals DPOSIllegalProposals
  | PDPOSIllegalVotes DPOSIllegalVotes
  | PDPOSIllegalBlocks DPOSIllegalBlocks
  | PSidechainIllegalData SidechainIllegalData
  | PInactiveArbitrators InactiveArbitrators
  | PUpdateVersion UpdateVersion
  | PCRInfo CRInfo
  | PUnregisterCR UnregisterCR
  | PCRCProposal CRCProposal
  | PCRCProposalReview CRCProposalReview
  | PCRCProposalWithdraw CRCProposalWithdraw
  | PCRCProposalTracking CRCProposalTracking
  | PCRCAppropriation

datatype PayloadKind =
    KCoinBase | KRegisterAsset | KTransferAsset | KRecord | KSideChainPow
  | KWithdrawFromSideChain | KTransferCrossChainAsset | KProducerInfo | KProcessProducer | KReturnDepositCoin
  | KActivateProducer | KDPOSIllegalProposals | KDPOSIllegalVotes | KDPOSIllegalBlocks | KSidechainIllegalData
  | KInactiveArbitrators | KUpdateVersion | KCRInfo | KUnregisterCR | KCRCProposal
  | KCRCProposalReview | KCRCProposalWithdraw | KCRCProposalTracking | KCRCAppropriation

text \<open>The transaction types, a byte on the wire.\<close>

type_synonym TxType = u8

abbreviation TxType_CoinBase :: TxType where "TxType_CoinBase \<equiv> 0x00"
abbreviation TxType_RegisterAsset :: TxType where "TxType_RegisterAsset \<equiv> 0x01"
abbreviation TxType_TransferAsset :: TxType where "TxType_TransferAsset \<equiv> 0x02"
abbreviation TxType_Record :: TxType where "TxType_Record \<equiv> 0x03"
abbreviation TxType_Deploy :: TxType where "TxType_Deploy \<equiv> 0x04"
abbreviation TxType_SideChainPow :: TxType where "TxType_SideChainPow \<equiv> 0x05"
abbreviation TxType_RechargeToSideChain :: TxType where "TxType_RechargeToSideChain \<equiv> 0x06"
abbreviation TxType_WithdrawFromSideChain :: TxType where "TxType_WithdrawFromSideChain \<equiv> 0x07"
abbreviation TxType_TransferCrossChainAsset :: TxType where "TxType_TransferCrossChainAsset \<equiv> 0x08"
abbreviation TxType_RegisterProducer :: TxType where "TxType_RegisterProducer \<equiv> 0x09"
abbreviation TxType_CancelProducer :: TxType where "TxType_CancelProducer \<equiv> 0x0a"
abbreviation TxType_UpdateProducer :: TxType where "TxType_UpdateProducer \<equiv> 0x0b"
abbreviation TxType_ReturnDepositCoin :: TxType where "TxType_ReturnDepositCoin \<equiv> 0x0c"
abbreviation TxType_ActivateProducer :: TxType where "TxType_ActivateProducer \<equiv> 0x0d"
abbreviation TxType_IllegalProposalEvidence :: TxType where "TxType_IllegalProposalEvidence \<equiv> 0x0e"
abbreviation TxType_IllegalVoteEvidence :: TxType where "TxType_IllegalVoteEvidence \<equiv> 0x0f"
abbreviation TxType_IllegalBlockEvidence :: TxType where "TxType_IllegalBlockEvidence \<equiv> 0x10"
abbreviation TxType_IllegalSidechainEvidence :: TxType where "TxType_IllegalSidechainEvidence \<equiv> 0x11"
abbreviation TxType_InactiveArbitrators :: TxType where "TxType_InactiveArbitrators \<equiv> 0x12"
abbreviation TxType_UpdateVersion :: TxType where "TxType_UpdateVersion \<equiv> 0x13"
abbreviation TxType_RegisterCR :: TxType where "TxType_RegisterCR \<equiv> 0x21"
abbreviation TxType_UnregisterCR :: TxType where "TxType_UnregisterCR \<equiv> 0x22"
abbreviation TxType_UpdateCR :: TxType where "TxType_UpdateCR \<equiv> 0x23"
abbreviation TxType_ReturnCRDepositCoin :: TxType where "TxType_ReturnCRDepositCoin \<equiv> 0x24"
abbreviation TxType_CRCProposal :: TxType where "TxType_CRCProposal \<equiv> 0x25"
abbreviation TxType_CRCProposalReview :: TxType where "TxType_CRCProposalReview \<equiv> 0x26"
abbreviation TxType_CRCProposalTracking :: TxType where "TxType_CRCProposalTracking \<equiv> 0x27"
abbreviation TxType_CRCAppropriation :: TxType where "TxType_CRCAppropriation \<equiv> 0x28"
abbreviation TxType_CRCProposalWithdraw :: TxType where "TxType_CRCProposalWithdraw \<equiv> 0x29"

definition GetPayload :: "TxType \<Rightarrow> read_error + PayloadKind" where
  "GetPayload txType =
     (if txType = TxType_CoinBase then Inr KCoinBase
      else if txType = TxType_RegisterAsset then Inr KRegisterAsset
      else if txType = TxType_TransferAsset then Inr KTransferAsset
      else if txType = TxType_Record then Inr KRecord
      else if txType = TxType_SideChainPow then Inr KSideChainPow
      else if txType = TxType_WithdrawFromSideChain then Inr KWithdrawFromSideChain
      else if txType = TxType_TransferCrossChainAsset then Inr KTransferCrossChainAsset
      else if txType = TxType_RegisterProducer then Inr KProducerInfo
      else if txType = TxType_CancelProducer then Inr KProcessProducer
      else if txType = TxType_UpdateProducer then Inr KProducerInfo
      else if txType = TxType_ReturnDepositCoin then Inr KReturnDepositCoin
      else if txType = TxType_ActivateProducer then Inr KActivateProducer
      else if txType = TxType_IllegalProposalEvidence then Inr KDPOSIllegalProposals
      else if txType = TxType_IllegalVoteEvidence then Inr KDPOSIllegalVotes
      else if txType = TxType_IllegalBlockEvidence then Inr KDPOSIllegalBlocks
      else if txType = TxType_IllegalSidechainEvidence then Inr KSidechainIllegalData
      else if txType = TxType_InactiveArbitrators then Inr KInactiveArbitrators
      else if txType = TxType_UpdateVersion then Inr KUpdateVersion
      else if txType = TxType_RegisterCR then Inr KCRInfo
      else if txType = TxType_UpdateCR then Inr KCRInfo
      else if txType = TxType_UnregisterCR then Inr KUnregisterCR
      else if txType = TxType_ReturnCRDepositCoin then Inr KReturnDepositCoin
      else if txType = TxType_CRCProposal then Inr KCRCProposal
      else if txType = TxType_CRCProposalReview then Inr KCRCProposalReview
      else if txType = TxType_CRCProposalWithdraw then Inr KCRCProposalWithdraw
      else if txType = TxType_CRCProposalTracking then Inr KCRCProposalTracking
      else if txType = TxType_CRCAppropriation then Inr KCRCAppropriation
      else Inl (ErrMsg ''[Transaction], invalid transaction type.''))"

text \<open>The method calls \<^verbatim>\<open>tx.Payload.Serialize(w, version)\<close> and \<^verbatim>\<open>tx.Payload.Deserialize(r, version)\<close>.\<close>

fun Payload_kind :: "Payload \<Rightarrow> PayloadKind" where
  "Payload_kind (PCoinBase _) = KCoinBase"
| "Payload_kind (PRegisterAsset _) = KRegisterAsset"
| "Payload_kind PTransferAsset = KTransferAsset"
| "Payload_kind (PRecord _) = KRecord"
| "Payload_kind (PSideChainPow _) = KSideChainPow"
| "Payload_kind (PWithdrawFromSideChain _) = KWithdrawFromSideChain"
| "Payload_kind (PTransferCrossChainAsset _) = KTransferCrossChainAsset"
| "Payload_kind (PProducerInfo _) = KProducerInfo"
| "Payload_kind (PProcessProducer _) = KProcessProducer"
| "Payload_kind PReturnDepositCoin = KReturnDepositCoin"
| "Payload_kind (PActivateProducer _) = KActivateProducer"
| "Payload_kind (PDPOSIllegalProposals _) = KDPOSIllegalProposals"
| "Payload_kind (PDPOSIllegalVotes _) = KDPOSIllegalVotes"
| "Payload_kind (PDPOSIllegalBlocks _) = KDPOSIllegalBlocks"
| "Payload_kind (PSidechainIllegalData _) = KSidechainIllegalData"
| "Payload_kind (PInactiveArbitrators _) = KInactiveArbitrators"
| "Payload_kind (PUpdateVersion _) = KUpdateVersion"
| "Payload_kind (PCRInfo _) = KCRInfo"
| "Payload_kind (PUnregisterCR _) = KUnregisterCR"
| "Payload_kind (PCRCProposal _) = KCRCProposal"
| "Payload_kind (PCRCProposalReview _) = KCRCProposalReview"
| "Payload_kind (PCRCProposalWithdraw _) = KCRCProposalWithdraw"
| "Payload_kind (PCRCProposalTracking _) = KCRCProposalTracking"
| "Payload_kind PCRCAppropriation = KCRCAppropriation"

fun Payload_Serialize :: "u8 \<Rightarrow> Payload \<Rightarrow> written" where
  "Payload_Serialize version (PCoinBase p) = wok (CoinBase_Serialize version p)"
| "Payload_Serialize version (PRegisterAsset p) = wok (RegisterAsset_Serialize version p)"
| "Payload_Serialize version PTransferAsset = wok []"
| "Payload_Serialize version (PRecord p) = wok (Record_Serialize version p)"
| "Payload_Serialize version (PSideChainPow p) = wok (SideChainPow_Serialize version p)"
| "Payload_Serialize version (PWithdrawFromSideChain p) = wok (WithdrawFromSideChain_Serialize version p)"
| "Payload_Serialize version (PTransferCrossChainAsset p) = TransferCrossChainAsset_Serialize version p"
| "Payload_Serialize version (PProducerInfo p) = wok (ProducerInfo_Serialize version p)"
| "Payload_Serialize version (PProcessProducer p) = wok (ProcessProducer_Serialize version p)"
| "Payload_Serialize version PReturnDepositCoin = wok []"
| "Payload_Serialize version (PActivateProducer p) = wok (ActivateProducer_Serialize version p)"
| "Payload_Serialize version (PDPOSIllegalProposals p) = wok (DPOSIllegalProposals_Serialize version p)"
| "Payload_Serialize version (PDPOSIllegalVotes p) = wok (DPOSIllegalVotes_Serialize version p)"
| "Payload_Serialize version (PDPOSIllegalBlocks p) = wok (DPOSIllegalBlocks_Serialize version p)"
| "Payload_Serialize version (PSidechainIllegalData p) = wok (SidechainIllegalData_Serialize version p)"
| "Payload_Serialize version (PInactiveArbitrators p) = wok (InactiveArbitrators_Serialize version p)"
| "Payload_Serialize version (PUpdateVersion p) = wok (UpdateVersion_Serialize version p)"
| "Payload_Serialize version (PCRInfo p) = wok (CRInfo_Serialize version p)"
| "Payload_Serialize version (PUnregisterCR p) = wok (UnregisterCR_Serialize version p)"
| "Payload_Serialize version (PCRCProposal p) = wok (CRCProposal_Serialize version p)"
| "Payload_Serialize version (PCRCProposalReview p) = wok (CRCProposalReview_Serialize version p)"
| "Payload_Serialize version (PCRCProposalWithdraw p) = wok (CRCProposalWithdraw_Serialize version p)"
| "Payload_Serialize version (PCRCProposalTracking p) = wok (CRCProposalTracking_Serialize version p)"
| "Payload_Serialize version PCRCAppropriation = wok []"

definition rmap :: "('a \<Rightarrow> 'b) \<Rightarrow> 'a reader \<Rightarrow> 'b reader" where
  "rmap f m = rbind m (\<lambda>x. rret (f x))"

fun Payload_Deserialize :: "PayloadKind \<Rightarrow> u8 \<Rightarrow> Payload reader" where
  "Payload_Deserialize KCoinBase version = rmap PCoinBase (CoinBase_Deserialize version)"
| "Payload_Deserialize KRegisterAsset version = rmap PRegisterAsset (RegisterAsset_Deserialize version)"
| "Payload_Deserialize KTransferAsset version = rret PTransferAsset"
| "Payload_Deserialize KRecord version = rmap PRecord (Record_Deserialize version)"
| "Payload_Deserialize KSideChainPow version = rmap PSideChainPow (SideChainPow_Deserialize version)"
| "Payload_Deserialize KWithdrawFromSideChain version = rmap PWithdrawFromSideChain (WithdrawFromSideChain_Deserialize version)"
| "Payload_Deserialize KTransferCrossChainAsset version = rmap PTransferCrossChainAsset (TransferCrossChainAsset_Deserialize version)"
| "Payload_Deserialize KProducerInfo version = rmap PProducerInfo (ProducerInfo_Deserialize version)"
| "Payload_Deserialize KProcessProducer version = rmap PProcessProducer (ProcessProducer_Deserialize version)"
| "Payload_Deserialize KReturnDepositCoin version = rret PReturnDepositCoin"
| "Payload_Deserialize KActivateProducer version = rmap PActivateProducer (ActivateProducer_Deserialize version)"
| "Payload_Deserialize KDPOSIllegalProposals version = rmap PDPOSIllegalProposals (DPOSIllegalProposals_Deserialize version)"
| "Payload_Deserialize KDPOSIllegalVotes version = rmap PDPOSIllegalVotes (DPOSIllegalVotes_Deserialize version)"
| "Payload_Deserialize KDPOSIllegalBlocks version = rmap PDPOSIllegalBlocks (DPOSIllegalBlocks_Deserialize version)"
| "Payload_Deserialize KSidechainIllegalData version = rmap PSidechainIllegalData (SidechainIllegalData_Deserialize version)"
| "Payload_Deserialize KInactiveArbitrators version = rmap PInactiveArbitrators (InactiveArbitrators_Deserialize version)"
| "Payload_Deserialize KUpdateVersion version = rmap PUpdateVersion (UpdateVersion_Deserialize version)"
| "Payload_Deserialize KCRInfo version = rmap PCRInfo (CRInfo_Deserialize version)"
| "Payload_Deserialize KUnregisterCR version = rmap PUnregisterCR (UnregisterCR_Deserialize version)"
| "Payload_Deserialize KCRCProposal version = rmap PCRCProposal (CRCProposal_Deserialize version)"
| "Payload_Deserialize KCRCProposalReview version = rmap PCRCProposalReview (CRCProposalReview_Deserialize version)"
| "Payload_Deserialize KCRCProposalWithdraw version = rmap PCRCProposalWithdraw (CRCProposalWithdraw_Deserialize version)"
| "Payload_Deserialize KCRCProposalTracking version = rmap PCRCProposalTracking (CRCProposalTracking_Deserialize version)"
| "Payload_Deserialize KCRCAppropriation version = rret PCRCAppropriation"

fun Payload_wf :: "u8 \<Rightarrow> Payload \<Rightarrow> bool" where
  "Payload_wf version (PCoinBase p) \<longleftrightarrow> length p \<le> 1048576"
| "Payload_wf version (PRegisterAsset p) \<longleftrightarrow> RegisterAsset_wf p"
| "Payload_wf version PTransferAsset \<longleftrightarrow> True"
| "Payload_wf version (PRecord p) \<longleftrightarrow> Record_wf p"
| "Payload_wf version (PSideChainPow p) \<longleftrightarrow> SideChainPow_wf p"
| "Payload_wf version (PWithdrawFromSideChain p) \<longleftrightarrow> WithdrawFromSideChain_wf p"
| "Payload_wf version (PTransferCrossChainAsset p) \<longleftrightarrow> TransferCrossChainAsset_wf p"
| "Payload_wf version (PProducerInfo p) \<longleftrightarrow> ProducerInfo_wf p"
| "Payload_wf version (PProcessProducer p) \<longleftrightarrow> ProcessProducer_wf p"
| "Payload_wf version PReturnDepositCoin \<longleftrightarrow> True"
| "Payload_wf version (PActivateProducer p) \<longleftrightarrow> ActivateProducer_wf p"
| "Payload_wf version (PDPOSIllegalProposals p) \<longleftrightarrow> ProposalEvidence_wf (ip_Evidence p) \<and> ProposalEvidence_wf (ip_CompareEvidence p)"
| "Payload_wf version (PDPOSIllegalVotes p) \<longleftrightarrow> VoteEvidence_wf (iv_Evidence p) \<and> VoteEvidence_wf (iv_CompareEvidence p)"
| "Payload_wf version (PDPOSIllegalBlocks p) \<longleftrightarrow> DPOSIllegalBlocks_wf p"
| "Payload_wf version (PSidechainIllegalData p) \<longleftrightarrow> SidechainIllegalData_wf p"
| "Payload_wf version (PInactiveArbitrators p) \<longleftrightarrow> InactiveArbitrators_wf p"
| "Payload_wf version (PUpdateVersion p) \<longleftrightarrow> True"
| "Payload_wf version (PCRInfo p) \<longleftrightarrow> CRInfo_wf version p"
| "Payload_wf version (PUnregisterCR p) \<longleftrightarrow> UnregisterCR_wf p"
| "Payload_wf version (PCRCProposal p) \<longleftrightarrow> CRCProposal_wf p"
| "Payload_wf version (PCRCProposalReview p) \<longleftrightarrow> CRCProposalReview_wf p"
| "Payload_wf version (PCRCProposalWithdraw p) \<longleftrightarrow> CRCProposalWithdraw_wf p"
| "Payload_wf version (PCRCProposalTracking p) \<longleftrightarrow> CRCProposalTracking_wf p"
| "Payload_wf version PCRCAppropriation \<longleftrightarrow> True"

lemmas payload_codecs =
  coinBase.checked.ser_dec registerAsset.checked.ser_dec record_payload.checked.ser_dec
  sideChainPow.checked.ser_dec withdrawFromSideChain.checked.ser_dec transferCrossChainAsset.ser_dec
  producerInfo.checked.ser_dec processProducer.checked.ser_dec activateProducer.checked.ser_dec
  illegalProposals.checked.ser_dec illegalVotes.checked.ser_dec illegalBlocks.checked.ser_dec
  sidechainIllegalData.checked.ser_dec inactiveArbitrators.checked.ser_dec updateVersion.checked.ser_dec
  crInfo.checked.ser_dec unregisterCR.checked.ser_dec crcProposal.checked.ser_dec
  crcProposalReview.checked.ser_dec crcProposalWithdraw.checked.ser_dec crcProposalTracking.checked.ser_dec

lemmas payload_round_trips = payload_codecs [unfolded wok_def]

lemma writes_rmap: "writes w dec x \<Longrightarrow> writes w (rmap f dec) (f x)"
  by (auto simp: writes_def rmap_def codec_simps)

interpretation payload: checked_codec "Payload_Serialize version" "Payload_Deserialize kind version"
    "\<lambda>p. Payload_kind p = kind \<and> Payload_wf version p" for kind version
proof
  fix p assume "Payload_kind p = kind \<and> Payload_wf version p"
  then show "writes (Payload_Serialize version p) (Payload_Deserialize kind version) p"
    by (cases p) (auto simp: writes_def [of "([], None)"] rret_def intro!: writes_rmap payload_round_trips)
qed

text \<open>The assertion of a payload to \<^verbatim>\<open>payload.DPOSIllegalData\<close>, by the hash it is recorded under.\<close>

fun DPOSIllegalData_Hash :: "(bytes \<Rightarrow> Uint256) \<Rightarrow> Payload \<Rightarrow> Uint256 option" where
  "DPOSIllegalData_Hash H (PDPOSIllegalProposals p) = Some (DPOSIllegalProposals_Hash H p)"
| "DPOSIllegalData_Hash H (PDPOSIllegalVotes p) = Some (DPOSIllegalVotes_Hash H p)"
| "DPOSIllegalData_Hash H (PDPOSIllegalBlocks p) = Some (DPOSIllegalBlocks_Hash H p)"
| "DPOSIllegalData_Hash H (PSidechainIllegalData p) = Some (SidechainIllegalData_Hash H p)"
| "DPOSIllegalData_Hash H (PInactiveArbitrators p) = Some (InactiveArbitrators_Hash H p)"
| "DPOSIllegalData_Hash H _ = None"

text \<open>
  Every payload round-trips through the dispatch on the transaction type: a well-formed
  payload of the kind \<^verbatim>\<open>GetPayload\<close> allocates for the type serialises without error and is read back.
\<close>

theorem payload_round_trip:
  assumes "GetPayload txType = Inr (Payload_kind p)" and "Payload_wf version p"
  shows "\<exists>bs. Payload_Serialize version p = (bs, None) \<and>
    (\<forall>r. Payload_Deserialize (Payload_kind p) version (bs @ r) = Inr (p, r))"
  using payload.ser_dec [of p "Payload_kind p" version] assms by (simp add: writes_def)

theorem payload_round_trip_witness:
  "\<exists>bs. Payload_Serialize 0 (PCoinBase [7]) = (bs, None) \<and>
    (\<forall>r. Payload_Deserialize KCoinBase 0 (bs @ r) = Inr (PCoinBase [7], r))"
  using payload_round_trip [of TxType_CoinBase "PCoinBase [7]" 0] by (simp add: GetPayload_def)

end
