(* ===== verification/VoteOutput.thy ===== *)
theory VoteOutput
  imports TxPayload
begin

section \<open>Vote outputs: core/types/outputpayload/vote.go\<close>

text \<open>
  The votes an output carries, by which a stake elects producers and CR members: the wire format
  and \<^verbatim>\<open>Validate\<close>. \<open>VoteContent_Deserialize\<close> follows the code in ignoring the error of the candidate
  it reads, so \<open>CandidateVotes_Deserialize\<close> returns what it has filled in together with the error.
\<close>

abbreviation VoteType_Delegate :: u8 where "VoteType_Delegate \<equiv> 0"
abbreviation VoteType_CRC :: u8 where "VoteType_CRC \<equiv> 1"
abbreviation VoteType_CRCProposal :: u8 where "VoteType_CRCProposal \<equiv> 2"
abbreviation VoteType_CRCImpeachment :: u8 where "VoteType_CRCImpeachment \<equiv> 3"

abbreviation VoteProducerVersion :: u8 where "VoteProducerVersion \<equiv> 0"
abbreviation VoteProducerAndCRVersion :: u8 where "VoteProducerAndCRVersion \<equiv> 1"

abbreviation MaxVoteProducersPerTransaction :: nat where "MaxVoteProducersPerTransaction \<equiv> 36"

record CandidateVotes =
  cv_Candidate :: bytes
  cv_Votes :: Fixed64

record VoteContent =
  vc_VoteType :: u8
  vc_CandidateVotes :: "CandidateVotes list"

record VoteOutput =
  vo_Version :: u8
  vo_Contents :: "VoteContent list"

subsection \<open>The wire format\<close>

definition CandidateVotes_Serialize :: "u8 \<Rightarrow> CandidateVotes \<Rightarrow> bytes" where
  "CandidateVotes_Serialize version cv =
     WriteVarBytes (cv_Candidate cv) @
     (if version \<ge> VoteProducerAndCRVersion then Fixed64_Serialize (cv_Votes cv) else [])"

definition CandidateVotes_Deserialize ::
    "u8 \<Rightarrow> bytes \<Rightarrow> CandidateVotes \<times> read_error option \<times> bytes" where
  "CandidateVotes_Deserialize version r =
     (case ReadVarBytes MaxMultiSignCodeLength ''candidate votes'' r of
        Inl (e, r') \<Rightarrow> (\<lparr>cv_Candidate = [], cv_Votes = 0\<rparr>, Some e, r')
      | Inr (candidate, r') \<Rightarrow>
          if version \<ge> VoteProducerAndCRVersion
          then (case Fixed64_Deserialize r' of
                  Inl (e, r'') \<Rightarrow> (\<lparr>cv_Candidate = candidate, cv_Votes = 0\<rparr>, Some e, r'')
                | Inr (votes, r'') \<Rightarrow> (\<lparr>cv_Candidate = candidate, cv_Votes = votes\<rparr>, None, r''))
          else (\<lparr>cv_Candidate = candidate, cv_Votes = 0\<rparr>, None, r'))"

text \<open>\<^verbatim>\<open>if cv.Deserialize(r, version); err != nil\<close> tests the error of the count, which is nil here.\<close>

fun readCandidates :: "u8 \<Rightarrow> nat \<Rightarrow> bytes \<Rightarrow> CandidateVotes list \<times> bytes" where
  "readCandidates version 0 r = ([], r)"
| "readCandidates version (Suc n) r =
     (let (cv, _, r') = CandidateVotes_Deserialize version r;
          (cvs, r'') = readCandidates version n r'
      in (cv # cvs, r''))"

definition VoteContent_Serialize :: "u8 \<Rightarrow> VoteContent \<Rightarrow> bytes" where
  "VoteContent_Serialize version vc =
     [vc_VoteType vc] @ writeList (CandidateVotes_Serialize version) (vc_CandidateVotes vc)"

definition VoteContent_Deserialize :: "u8 \<Rightarrow> VoteContent reader" where
  "VoteContent_Deserialize version =
     rbind ReadByte1 (\<lambda>voteType.
     rbind ReadVarUint (\<lambda>candidatesCount r.
       let (cvs, r') = readCandidates version (unat candidatesCount) r
       in Inr (\<lparr>vc_VoteType = voteType, vc_CandidateVotes = cvs\<rparr>, r')))"

definition VoteOutput_Serialize :: "VoteOutput \<Rightarrow> bytes" where
  "VoteOutput_Serialize vo = [vo_Version vo] @ writeList (VoteContent_Serialize (vo_Version vo)) (vo_Contents vo)"

definition VoteOutput_Deserialize :: "VoteOutput reader" where
  "VoteOutput_Deserialize =
     rbind ReadByte1 (\<lambda>version.
     rbind (readAppend (VoteContent_Deserialize version)) (\<lambda>contents.
     rret \<lparr>vo_Version = version, vo_Contents = contents\<rparr>))"

definition CandidateVotes_wf :: "u8 \<Rightarrow> CandidateVotes \<Rightarrow> bool" where
  "CandidateVotes_wf version cv \<longleftrightarrow> length (cv_Candidate cv) \<le> 34003 \<and>
     (version \<ge> VoteProducerAndCRVersion \<or> cv_Votes cv = 0)"

definition VoteContent_wf :: "u8 \<Rightarrow> VoteContent \<Rightarrow> bool" where
  "VoteContent_wf version vc \<longleftrightarrow> slice_wf (CandidateVotes_wf version) (vc_CandidateVotes vc)"

definition VoteOutput_wf :: "VoteOutput \<Rightarrow> bool" where
  "VoteOutput_wf vo \<longleftrightarrow> slice_wf (VoteContent_wf (vo_Version vo)) (vo_Contents vo)"

lemma CandidateVotes_dec_enc:
  "CandidateVotes_wf version cv \<Longrightarrow>
   CandidateVotes_Deserialize version (CandidateVotes_Serialize version cv @ r) = (cv, None, r)"
  by (auto simp: CandidateVotes_Deserialize_def CandidateVotes_Serialize_def CandidateVotes_wf_def codec_simps)

lemma readCandidates_enc:
  "\<forall>cv \<in> set cvs. CandidateVotes_wf version cv \<Longrightarrow>
   readCandidates version (length cvs) (concat (map (CandidateVotes_Serialize version) cvs) @ r) = (cvs, r)"
  by (induction cvs) (simp_all add: CandidateVotes_dec_enc)

interpretation voteContent: codec "VoteContent_Serialize version" "VoteContent_Deserialize version"
    "VoteContent_wf version" for version
  by unfold_locales
     (simp add: VoteContent_Serialize_def VoteContent_Deserialize_def VoteContent_wf_def list_wf_def
       writeList_def write_byte codec_simps readCandidates_enc)

interpretation voteOutput: codec VoteOutput_Serialize VoteOutput_Deserialize VoteOutput_wf
  by unfold_locales
     (simp add: VoteOutput_Serialize_def VoteOutput_Deserialize_def VoteOutput_wf_def
       write_byte codec_simps voteContent.append_dec_enc)

lemma length_readCandidates: "length (fst (readCandidates version n r)) = n"
  by (induction n arbitrary: r) (auto simp: Let_def split: prod.splits dest: arg_cong [where f = "length \<circ> fst"])

text \<open>
  Because the error is dropped, a content cut off after its count still decodes, to as many empty
  candidates as the count says.
\<close>

lemma readCandidates_Nil:
  "readCandidates version n [] = (replicate n \<lparr>cv_Candidate = [], cv_Votes = 0\<rparr>, [])"
  by (induction n)
     (simp_all add: CandidateVotes_Deserialize_def ReadVarBytes_def ReadVarUint_def ReadUint8_def
       ReadFull_def codec_simps)

lemma VoteContent_truncated:
  "VoteContent_Deserialize version (vt # WriteVarUint n) =
     Inr (\<lparr>vc_VoteType = vt,
           vc_CandidateVotes = replicate (unat n) \<lparr>cv_Candidate = [], cv_Votes = 0\<rparr>\<rparr>, [])"
  using varUint.dec_enc [of n "[]"]
  by (simp add: VoteContent_Deserialize_def write_byte codec_simps readCandidates_Nil)

subsection \<open>Validate\<close>

fun validateCandidates :: "u8 \<Rightarrow> string set \<Rightarrow> CandidateVotes list \<Rightarrow> string option" where
  "validateCandidates version candidateMap [] = None"
| "validateCandidates version candidateMap (cv # cvs) =
     (let c = hexEncodeToString (cv_Candidate cv) in
      if c \<in> candidateMap then Some ''duplicate candidate''
      else if version \<ge> VoteProducerAndCRVersion \<and> fixed (cv_Votes cv) \<le> 0
      then Some ''invalid candidate votes''
      else validateCandidates version (insert c candidateMap) cvs)"

fun validateContents :: "u8 \<Rightarrow> u8 set \<Rightarrow> VoteContent list \<Rightarrow> string option" where
  "validateContents version typeMap [] = None"
| "validateContents version typeMap (content # cs) =
     (if vc_VoteType content \<in> typeMap then Some ''duplicate vote type''
      else if vc_CandidateVotes content = [] \<or>
              vc_VoteType content \<noteq> VoteType_CRC \<and>
              length (vc_CandidateVotes content) > MaxVoteProducersPerTransaction
      then Some ''invalid public key count''
      else if vc_VoteType content \<noteq> VoteType_Delegate \<and> vc_VoteType content \<noteq> VoteType_CRC \<and>
              vc_VoteType content \<noteq> VoteType_CRCProposal \<and> vc_VoteType content \<noteq> VoteType_CRCImpeachment
      then Some ''invalid vote type''
      else case validateCandidates version {} (vc_CandidateVotes content) of
             Some e \<Rightarrow> Some e
           | None \<Rightarrow> validateContents version (insert (vc_VoteType content) typeMap) cs)"

definition VoteOutput_Validate :: "VoteOutput option \<Rightarrow> string option" where
  "VoteOutput_Validate vo =
     (case vo of
        None \<Rightarrow> Some ''vote output payload is nil''
      | Some vo \<Rightarrow>
          if vo_Version vo > VoteProducerAndCRVersion then Some ''invalid vote version''
          else validateContents (vo_Version vo) {} (vo_Contents vo))"

text \<open>The specification of a valid vote: what \<open>VoteOutput_Validate\<close> accepts, without its loops.\<close>

definition valid_candidates :: "u8 \<Rightarrow> CandidateVotes list \<Rightarrow> bool" where
  "valid_candidates version cvs \<longleftrightarrow> distinct (map cv_Candidate cvs) \<and>
     (version \<ge> VoteProducerAndCRVersion \<longrightarrow> (\<forall>cv \<in> set cvs. fixed (cv_Votes cv) > 0))"

definition valid_content :: "u8 \<Rightarrow> VoteContent \<Rightarrow> bool" where
  "valid_content version vc \<longleftrightarrow>
     vc_VoteType vc \<in> {VoteType_Delegate, VoteType_CRC, VoteType_CRCProposal, VoteType_CRCImpeachment} \<and>
     vc_CandidateVotes vc \<noteq> [] \<and>
     (vc_VoteType vc \<noteq> VoteType_CRC \<longrightarrow> length (vc_CandidateVotes vc) \<le> 36) \<and>
     valid_candidates version (vc_CandidateVotes vc)"

lemma validateCandidates_None:
  "validateCandidates version M cvs = None \<longleftrightarrow>
     valid_candidates version cvs \<and> (\<forall>cv \<in> set cvs. hexEncodeToString (cv_Candidate cv) \<notin> M)"
  by (induction cvs arbitrary: M) (auto simp: valid_candidates_def Let_def image_iff)

lemma validateContents_None:
  "validateContents version M cs = None \<longleftrightarrow>
     (\<forall>c \<in> set cs. valid_content version c) \<and> distinct (map vc_VoteType cs) \<and>
     (\<forall>c \<in> set cs. vc_VoteType c \<notin> M)"
proof (induction cs arbitrary: M)
  case Nil
  then show ?case by simp
next
  case (Cons c cs)
  have "(validateCandidates version {} (vc_CandidateVotes c) = None) =
      valid_candidates version (vc_CandidateVotes c)"
    by (simp add: validateCandidates_None)
  then show ?case
    by (cases "validateCandidates version {} (vc_CandidateVotes c)")
       (auto simp: Cons.IH valid_content_def image_iff)
qed

text \<open>
  C8. A vote output passes \<^verbatim>\<open>Validate\<close> exactly when its version is known, its vote types are
  distinct and known, and every content names between one and 36 distinct candidates (any positive
  number for CRC votes) with positive votes from version 1 on.
\<close>

theorem vote_validate_iff:
  "VoteOutput_Validate (Some vo) = None \<longleftrightarrow>
     vo_Version vo \<le> 1 \<and> distinct (map vc_VoteType (vo_Contents vo)) \<and>
     (\<forall>c. c \<in> set (vo_Contents vo) \<longrightarrow> valid_content (vo_Version vo) c)"
  by (auto simp: VoteOutput_Validate_def validateContents_None)

theorem vote_validate_iff_witness:
  "VoteOutput_Validate (Some \<lparr>vo_Version = 0, vo_Contents =
     [\<lparr>vc_VoteType = 0, vc_CandidateVotes = [\<lparr>cv_Candidate = [2, 3], cv_Votes = 0\<rparr>]\<rparr>]\<rparr>) = None"
  by (subst vote_validate_iff) (simp add: valid_content_def valid_candidates_def)

text \<open>
  A vote output is read back as it was written, for both versions of the format.
\<close>

theorem vote_output_round_trip:
  assumes "VoteOutput_wf vo"
  shows "VoteOutput_Deserialize (VoteOutput_Serialize vo @ r) = Inr (vo, r)"
  using assms by (rule voteOutput.dec_enc)

theorem vote_output_round_trip_witness:
  "VoteOutput_Deserialize (VoteOutput_Serialize \<lparr>vo_Version = 1, vo_Contents =
      [\<lparr>vc_VoteType = 0, vc_CandidateVotes = [\<lparr>cv_Candidate = [2, 3], cv_Votes = 5\<rparr>]\<rparr>]\<rparr> @ [9]) =
   Inr (\<lparr>vo_Version = 1, vo_Contents =
      [\<lparr>vc_VoteType = 0, vc_CandidateVotes = [\<lparr>cv_Candidate = [2, 3], cv_Votes = 5\<rparr>]\<rparr>]\<rparr>, [9])"
  by (rule vote_output_round_trip)
     (simp add: VoteOutput_wf_def VoteContent_wf_def CandidateVotes_wf_def list_wf_def)

end
