(* ===== verification/Transaction.thy ===== *)
theory Transaction
  imports VoteOutput
begin

section \<open>Transactions: core/types/transaction.go and its parts\<close>

text \<open>
  A transaction and what it is made of: outpoints and inputs (\<^verbatim>\<open>outpoint.go\<close>, \<^verbatim>\<open>input.go\<close>), outputs
  with their payload (\<^verbatim>\<open>output.go\<close>, \<^verbatim>\<open>outputpayload\<close>), attributes (\<^verbatim>\<open>attribute.go\<close>) and programs
  (\<^verbatim>\<open>core/contract/program\<close>). Serialisation returns the bytes written so far and the error, because
  the transaction hash digests what was written even when an error stopped the writer.

  An error message that ends with the text of its cause is modelled by its constant prefix.
\<close>

subsection \<open>Sequences of checked writers and readers\<close>

lemma writes_bind:
  assumes "writes w m x" and "writes w' (k x) y"
  shows "writes (wseq w w') (rbind m k) y"
proof -
  obtain b b' where "w = (b, None)" "w' = (b', None)"
      "\<And>r. m (b @ r) = Inr (x, r)" "\<And>r. k x (b' @ r) = Inr (y, r)"
    using assms by (auto elim!: writesE)
  then show ?thesis by (intro writesI [of _ "b @ b'"]) (simp_all add: rbind_def)
qed

lemma writes_last: "writes w m x \<Longrightarrow> writes w (rbind m (\<lambda>x. rret (f x))) (f x)"
  by (auto simp: writes_def codec_simps)

lemma writes_wrap: "writes w m x \<Longrightarrow> writes w (rwrap msg m) x"
  by (auto simp: writes_def codec_simps)

lemma writes_wok: "(\<And>r. m (bs @ r) = Inr (x, r)) \<Longrightarrow> writes (bs, None) m x"
  by (auto simp: writes_def)

subsection \<open>Outpoints and inputs\<close>

record OutPoint =
  op_TxID :: Uint256
  op_Index :: u16

definition OutPoint_IsEqual :: "OutPoint \<Rightarrow> OutPoint \<Rightarrow> bool" where
  "OutPoint_IsEqual p q = (if op_TxID p \<noteq> op_TxID q then False else if op_Index p \<noteq> op_Index q then False else True)"

definition OutPoint_Serialize :: "OutPoint \<Rightarrow> bytes" where
  "OutPoint_Serialize p = WriteElements [EUint256 (op_TxID p), EUint16 (op_Index p)]"

definition OutPoint_Deserialize :: "OutPoint reader" where
  "OutPoint_Deserialize =
     rbind Uint256_Deserialize (\<lambda>txid. rbind ReadUint16 (\<lambda>index. rret \<lparr>op_TxID = txid, op_Index = index\<rparr>))"

definition OutPoint_ReferKey :: "OutPoint \<Rightarrow> string" where
  "OutPoint_ReferKey p = hexEncodeToString (OutPoint_Serialize p)"

definition OutPoint_wf :: "OutPoint \<Rightarrow> bool" where
  "OutPoint_wf p \<longleftrightarrow> length (op_TxID p) = 32"

record Input =
  in_Previous :: OutPoint
  in_Sequence :: u32

definition Input_Serialize :: "Input \<Rightarrow> bytes" where
  "Input_Serialize i = WriteElements
     [EUint256 (op_TxID (in_Previous i)), EUint16 (op_Index (in_Previous i)), EUint32 (in_Sequence i)]"

definition Input_Deserialize :: "Input reader" where
  "Input_Deserialize =
     rbind Uint256_Deserialize (\<lambda>txid. rbind ReadUint16 (\<lambda>index. rbind ReadUint32 (\<lambda>sequence.
     rret \<lparr>in_Previous = \<lparr>op_TxID = txid, op_Index = index\<rparr>, in_Sequence = sequence\<rparr>)))"

definition Input_ReferKey :: "Input \<Rightarrow> string" where
  "Input_ReferKey i = OutPoint_ReferKey (in_Previous i)"

definition Input_IsEqual :: "Input \<Rightarrow> Input \<Rightarrow> bool" where
  "Input_IsEqual i j =
     (if \<not> OutPoint_IsEqual (in_Previous i) (in_Previous j) then False
      else if in_Sequence i \<noteq> in_Sequence j then False else True)"

definition Input_wf :: "Input \<Rightarrow> bool" where
  "Input_wf i \<longleftrightarrow> OutPoint_wf (in_Previous i)"

lemma WriteElement_Uint256 [simp]: "WriteElement (EUint256 u) = Uint256_Serialize u"
  by (simp add: Uint256_Serialize_def)

declare WriteElement.simps(7) [simp del]

interpretation outPoint: canonical_codec OutPoint_Serialize OutPoint_Deserialize OutPoint_wf
  by (unfold_locales, simp add: OutPoint_Serialize_def OutPoint_Deserialize_def OutPoint_wf_def codec_simps,
      auto simp: OutPoint_Serialize_def OutPoint_Deserialize_def OutPoint_wf_def decode_step)

interpretation tx_input: canonical_codec Input_Serialize Input_Deserialize Input_wf
  by (unfold_locales, simp add: Input_Serialize_def Input_Deserialize_def Input_wf_def OutPoint_wf_def codec_simps,
      auto simp: Input_Serialize_def Input_Deserialize_def Input_wf_def OutPoint_wf_def decode_step)

lemma OutPoint_IsEqual_iff: "OutPoint_IsEqual p q \<longleftrightarrow> p = q"
  by (auto simp: OutPoint_IsEqual_def)

lemma Input_IsEqual_iff: "Input_IsEqual i j \<longleftrightarrow> i = j"
  by (auto simp: Input_IsEqual_def OutPoint_IsEqual_iff)

lemma OutPoint_ReferKey_inject:
  "OutPoint_wf p \<Longrightarrow> OutPoint_wf q \<Longrightarrow> OutPoint_ReferKey p = OutPoint_ReferKey q \<longleftrightarrow> p = q"
  by (simp add: OutPoint_ReferKey_def outPoint.enc_inject)

subsection \<open>Outputs\<close>

record Mapping =
  map_Version :: u8
  map_OwnerPublicKey :: bytes
  map_SideProducerID :: bytes
  map_Signature :: bytes

definition Mapping_serializeContent :: "Mapping \<Rightarrow> bytes" where
  "Mapping_serializeContent m =
     WriteUint8 (map_Version m) @ WriteVarBytes (map_OwnerPublicKey m) @ WriteVarBytes (map_SideProducerID m)"

definition Mapping_Serialize :: "Mapping \<Rightarrow> bytes" where
  "Mapping_Serialize m = Mapping_serializeContent m @ WriteVarBytes (map_Signature m)"

definition Mapping_Deserialize :: "Mapping reader" where
  "Mapping_Deserialize =
     rbind ReadUint8 (\<lambda>version.
     rbind (ReadVarBytes 33 ''OwnerPublicKey'') (\<lambda>owner.
     rbind (ReadVarBytes 256 ''SideProducerID'') (\<lambda>side.
     rbind (ReadVarBytes SignatureLength ''Signature'') (\<lambda>sig.
     rret \<lparr>map_Version = version, map_OwnerPublicKey = owner, map_SideProducerID = side,
           map_Signature = sig\<rparr>))))"

definition Mapping_wf :: "Mapping \<Rightarrow> bool" where
  "Mapping_wf m \<longleftrightarrow> length (map_OwnerPublicKey m) \<le> 33 \<and> length (map_SideProducerID m) \<le> 256 \<and>
     length (map_Signature m) \<le> 64"

lemmas mapping_defs = Mapping_Serialize_def Mapping_serializeContent_def Mapping_Deserialize_def Mapping_wf_def

interpretation mapping_payload: canonical_codec Mapping_Serialize Mapping_Deserialize Mapping_wf
  by (unfold_locales, simp add: mapping_defs codec_simps, auto simp: mapping_defs decode_step)

abbreviation OTNone :: u8 where "OTNone \<equiv> 0"
abbreviation OTVote :: u8 where "OTVote \<equiv> 1"
abbreviation OTMapping :: u8 where "OTMapping \<equiv> 2"

datatype OutputPayload =
    ODefaultOutput
  | OVoteOutput VoteOutput
  | OMapping Mapping

fun OutputPayload_Serialize :: "OutputPayload \<Rightarrow> bytes" where
  "OutputPayload_Serialize ODefaultOutput = []"
| "OutputPayload_Serialize (OVoteOutput vo) = VoteOutput_Serialize vo"
| "OutputPayload_Serialize (OMapping m) = Mapping_Serialize m"

text \<open>\<^verbatim>\<open>getOutputPayload\<close> and the Deserialize method of the payload it returns.\<close>

definition getOutputPayload :: "u8 \<Rightarrow> OutputPayload reader" where
  "getOutputPayload outputType =
     (if outputType = OTNone then rret ODefaultOutput
      else if outputType = OTVote then rmap OVoteOutput VoteOutput_Deserialize
      else if outputType = OTMapping then rmap OMapping Mapping_Deserialize
      else rfail (ErrMsg ''invalid transaction output type''))"

fun OutputPayload_type :: "OutputPayload \<Rightarrow> u8" where
  "OutputPayload_type ODefaultOutput = OTNone"
| "OutputPayload_type (OVoteOutput _) = OTVote"
| "OutputPayload_type (OMapping _) = OTMapping"

fun OutputPayload_wf :: "OutputPayload \<Rightarrow> bool" where
  "OutputPayload_wf ODefaultOutput \<longleftrightarrow> True"
| "OutputPayload_wf (OVoteOutput vo) \<longleftrightarrow> VoteOutput_wf vo"
| "OutputPayload_wf (OMapping m) \<longleftrightarrow> Mapping_wf m"

interpretation outputPayload: codec OutputPayload_Serialize "getOutputPayload ty"
    "\<lambda>p. OutputPayload_type p = ty \<and> OutputPayload_wf p" for ty
proof
  fix p r assume "OutputPayload_type p = ty \<and> OutputPayload_wf p"
  then show "getOutputPayload ty (OutputPayload_Serialize p @ r) = Inr (p, r)"
    by (cases p) (auto simp: getOutputPayload_def rmap_def codec_simps voteOutput.dec_enc mapping_payload.dec_enc)
qed

abbreviation TxVersionDefault :: u8 where "TxVersionDefault \<equiv> 0"
abbreviation TxVersion09 :: u8 where "TxVersion09 \<equiv> 9"

record Output =
  out_AssetID :: Uint256
  out_Value :: Fixed64
  out_OutputLock :: u32
  out_ProgramHash :: Uint168
  out_Type :: u8
  out_Payload :: "OutputPayload option"

definition Output_Serialize :: "u8 \<Rightarrow> Output \<Rightarrow> written" where
  "Output_Serialize txVersion o' =
     wseq (wok (Uint256_Serialize (out_AssetID o')))
    (wseq (wok (Fixed64_Serialize (out_Value o')))
    (wseq (wok (WriteUint32 (out_OutputLock o')))
    (wseq (wok (Uint168_Serialize (out_ProgramHash o')))
    (if txVersion \<ge> TxVersion09
     then wseq (wok (WriteUint8 (out_Type o')))
            (case out_Payload o' of
               None \<Rightarrow> ([], Some WNilDereference)
             | Some p \<Rightarrow> wok (OutputPayload_Serialize p))
     else wok []))))"

definition Output_Deserialize :: "u8 \<Rightarrow> Output reader" where
  "Output_Deserialize txVersion =
     rbind Uint256_Deserialize (\<lambda>assetID.
     rbind Fixed64_Deserialize (\<lambda>val.
     rbind ReadUint32 (\<lambda>lock.
     rbind Uint168_Deserialize (\<lambda>programHash.
     if txVersion \<ge> TxVersion09
     then rbind ReadUint8 (\<lambda>outputType. rbind (getOutputPayload outputType) (\<lambda>p.
       rret \<lparr>out_AssetID = assetID, out_Value = val, out_OutputLock = lock,
             out_ProgramHash = programHash, out_Type = outputType, out_Payload = Some p\<rparr>))
     else rret \<lparr>out_AssetID = assetID, out_Value = val, out_OutputLock = lock,
             out_ProgramHash = programHash, out_Type = OTNone, out_Payload = None\<rparr>))))"

definition Output_wf :: "u8 \<Rightarrow> Output \<Rightarrow> bool" where
  "Output_wf txVersion o' \<longleftrightarrow> length (out_AssetID o') = 32 \<and> length (out_ProgramHash o') = 21 \<and>
     (if txVersion \<ge> TxVersion09
      then (\<exists>p. out_Payload o' = Some p \<and> OutputPayload_type p = out_Type o' \<and> OutputPayload_wf p)
      else out_Type o' = OTNone \<and> out_Payload o' = None)"

lemmas field_writes =
  uint256.checked.ser_dec [unfolded wok_def] uint168.checked.ser_dec [unfolded wok_def]
  fixed64.checked.ser_dec [unfolded wok_def] u8.checked.ser_dec [unfolded wok_def]
  u32.checked.ser_dec [unfolded wok_def]

interpretation tx_output: checked_codec "Output_Serialize txVersion" "Output_Deserialize txVersion"
    "Output_wf txVersion" for txVersion
proof
  fix o' assume wf: "Output_wf txVersion o'"
  show "writes (Output_Serialize txVersion o') (Output_Deserialize txVersion) o'"
  proof (cases "txVersion \<ge> TxVersion09")
    case True
    with wf obtain p where p: "out_Payload o' = Some p" "OutputPayload_type p = out_Type o'" "OutputPayload_wf p"
      by (auto simp: Output_wf_def)
    have "getOutputPayload (out_Type o') (OutputPayload_Serialize p @ r) = Inr (p, r)" for r
      by (rule outputPayload.dec_enc) (use p in simp)
    with p True wf show ?thesis
      by (intro writesI) (auto simp: Output_Serialize_def Output_Deserialize_def Output_wf_def codec_simps)
  next
    case False
    with wf show ?thesis
      by (intro writesI) (auto simp: Output_Serialize_def Output_Deserialize_def Output_wf_def codec_simps)
  qed
qed

subsection \<open>Attributes and programs\<close>

abbreviation Nonce :: u8 where "Nonce \<equiv> 0x00"
abbreviation Script :: u8 where "Script \<equiv> 0x20"
abbreviation Memo :: u8 where "Memo \<equiv> 0x81"
abbreviation Description :: u8 where "Description \<equiv> 0x90"
abbreviation DescriptionUrl :: u8 where "DescriptionUrl \<equiv> 0x91"
abbreviation Confirmations :: u8 where "Confirmations \<equiv> 0x92"

definition IsValidAttributeType :: "u8 \<Rightarrow> bool" where
  "IsValidAttributeType usage \<longleftrightarrow>
     usage = Nonce \<or> usage = Script \<or> usage = Memo \<or> usage = Description \<or> usage = DescriptionUrl \<or>
     usage = Confirmations"

record Attribute =
  attr_Usage :: u8
  attr_Data :: bytes

definition Attribute_Serialize :: "Attribute \<Rightarrow> written" where
  "Attribute_Serialize attr =
     wseq (wok (WriteUint8 (attr_Usage attr)))
       (if \<not> IsValidAttributeType (attr_Usage attr)
        then ([], Some (WErr ''[Attribute error] Unsupported attribute Description.''))
        else wok (WriteVarBytes (attr_Data attr)))"

definition Attribute_Deserialize :: "Attribute reader" where
  "Attribute_Deserialize =
     rbind (rwrap ''Transaction attribute Usage deserialization error.'' ReadByte1) (\<lambda>usage.
     if \<not> IsValidAttributeType usage
     then rfail (ErrMsg ''[Attribute error] Unsupported attribute Description.'')
     else rbind (rwrap ''Transaction attribute Data deserialization error.''
            (ReadVarBytes (ucast MaxVarStringLength) ''attribute data'')) (\<lambda>d.
       rret \<lparr>attr_Usage = usage, attr_Data = d\<rparr>))"

definition Attribute_wf :: "Attribute \<Rightarrow> bool" where
  "Attribute_wf attr \<longleftrightarrow> IsValidAttributeType (attr_Usage attr) \<and> length (attr_Data attr) \<le> 16777216"

interpretation attribute: checked_codec Attribute_Serialize Attribute_Deserialize Attribute_wf
proof
  fix attr assume "Attribute_wf attr"
  moreover have "unat (ucast MaxVarStringLength :: u32) = 16777216"
    by (simp add: MaxVarStringLength_def)
  ultimately show "writes (Attribute_Serialize attr) Attribute_Deserialize attr"
    by (intro writesI) (auto simp: Attribute_Serialize_def Attribute_Deserialize_def Attribute_wf_def codec_simps)
qed

record Program =
  prog_Code :: bytes
  prog_Parameter :: bytes

definition Program_Serialize :: "Program \<Rightarrow> bytes" where
  "Program_Serialize p = WriteVarBytes (prog_Parameter p) @ WriteVarBytes (prog_Code p)"

definition Program_Deserialize :: "Program reader" where
  "Program_Deserialize =
     rbind (rwrap ''Execute Program Deserialize Parameter failed.''
       (ReadVarBytes 20000 ''program parameter'')) (\<lambda>parameter.
     rbind (rwrap ''Execute Program Deserialize Code failed.''
       (ReadVarBytes 10000 ''program code'')) (\<lambda>code.
     rret \<lparr>prog_Code = code, prog_Parameter = parameter\<rparr>))"

definition Program_wf :: "Program \<Rightarrow> bool" where
  "Program_wf p \<longleftrightarrow> length (prog_Code p) \<le> 10000 \<and> length (prog_Parameter p) \<le> 20000"

interpretation program: canonical_codec Program_Serialize Program_Deserialize Program_wf
  by (unfold_locales, simp add: Program_Serialize_def Program_Deserialize_def Program_wf_def codec_simps,
      auto simp: Program_Serialize_def Program_Deserialize_def Program_wf_def decode_step)

subsection \<open>Transactions\<close>

record Transaction =
  tx_Version :: u8
  tx_TxType :: TxType
  tx_PayloadVersion :: u8
  tx_Payload :: "Payload option"
  tx_Attributes :: "Attribute list"
  tx_Inputs :: "Input list"
  tx_Outputs :: "Output list"
  tx_LockTime :: u32
  tx_Programs :: "Program list"
  tx_Fee :: Fixed64
  tx_FeePerKB :: Fixed64

definition countBytes :: "'a list \<Rightarrow> written" where
  "countBytes xs = wok (WriteVarUint (word_of_nat (length xs)))"

definition Transaction_SerializeUnsigned :: "Transaction \<Rightarrow> written" where
  "Transaction_SerializeUnsigned tx =
     wseq (wok (if tx_Version tx \<ge> TxVersion09 then [tx_Version tx] else []))
    (wseq (wok [tx_TxType tx])
    (wseq (wok [tx_PayloadVersion tx])
    (wseq (case tx_Payload tx of
             None \<Rightarrow> ([], Some (WErr ''Transaction Payload is nil.''))
           | Some p \<Rightarrow> Payload_Serialize (tx_PayloadVersion tx) p)
    (wseq (wseq (countBytes (tx_Attributes tx)) (serAll Attribute_Serialize (tx_Attributes tx)))
    (wseq (wseq (countBytes (tx_Inputs tx)) (serAll (\<lambda>i. wok (Input_Serialize i)) (tx_Inputs tx)))
    (wseq (wseq (countBytes (tx_Outputs tx)) (serAll (Output_Serialize (tx_Version tx)) (tx_Outputs tx)))
          (wok (WriteUint32 (tx_LockTime tx)))))))))"

fun wwrap :: "string \<Rightarrow> written \<Rightarrow> written" where
  "wwrap msg (bs, Some (WErr e)) = (bs, Some (WErr (msg @ e)))"
| "wwrap msg w = w"

definition Transaction_Serialize :: "Transaction \<Rightarrow> written" where
  "Transaction_Serialize tx =
     wseq (wwrap ''Transaction txSerializeUnsigned Serialize failed, '' (Transaction_SerializeUnsigned tx))
    (wseq (countBytes (tx_Programs tx)) (serAll (\<lambda>p. wok (Program_Serialize p)) (tx_Programs tx)))"

text \<open>\<^verbatim>\<open>DeserializeUnsigned\<close> reads the first byte as a version when it is at least 9, and as the
  transaction type of a version 0 transaction otherwise.\<close>

definition readVersionAndType :: "(u8 \<times> TxType) reader" where
  "readVersionAndType =
     rbind ReadByte1 (\<lambda>flagByte.
       if flagByte \<ge> TxVersion09
       then rbind ReadByte1 (\<lambda>txType. rret (flagByte, txType))
       else rret (TxVersionDefault, flagByte))"

definition readPayload :: "TxType \<Rightarrow> u8 \<Rightarrow> Payload reader" where
  "readPayload txType version =
     (case GetPayload txType of
        Inl e \<Rightarrow> rfail e
      | Inr kind \<Rightarrow> rwrap ''deserialize Payload failed: '' (Payload_Deserialize kind version))"

definition Transaction_DeserializeUnsigned :: "Transaction reader" where
  "Transaction_DeserializeUnsigned =
     rbind readVersionAndType (\<lambda>(version, txType).
     rbind ReadByte1 (\<lambda>payloadVersion.
     rbind (readPayload txType payloadVersion) (\<lambda>payload.
     rbind (rbind ReadVarUint (\<lambda>n. readN (unat n) Attribute_Deserialize)) (\<lambda>attributes.
     rbind (rbind ReadVarUint (\<lambda>n. readN (unat n) Input_Deserialize)) (\<lambda>inputs.
     rbind (rbind ReadVarUint (\<lambda>n. readN (unat n) (Output_Deserialize version))) (\<lambda>outputs.
     rbind ReadUint32 (\<lambda>lockTime.
     rret \<lparr>tx_Version = version, tx_TxType = txType, tx_PayloadVersion = payloadVersion,
           tx_Payload = Some payload, tx_Attributes = attributes, tx_Inputs = inputs,
           tx_Outputs = outputs, tx_LockTime = lockTime, tx_Programs = [],
           tx_Fee = 0, tx_FeePerKB = 0\<rparr>)))))))"

definition Transaction_Deserialize :: "Transaction reader" where
  "Transaction_Deserialize =
     rbind (rwrap ''transaction Deserialize error: '' Transaction_DeserializeUnsigned) (\<lambda>tx.
     rbind (rbind (rwrap ''transaction write program count error: '' ReadVarUint) (\<lambda>n.
       readN (unat n) (rwrap ''transaction deserialize program error: '' Program_Deserialize))) (\<lambda>programs.
     rret (tx\<lparr>tx_Programs := programs\<rparr>)))"

definition Transaction_GetSize :: "Transaction \<Rightarrow> int res" where
  "Transaction_GetSize tx =
     (case Transaction_Serialize tx of
        (bs, None) \<Rightarrow> Inr (int (length bs))
      | (bs, Some (WErr _)) \<Rightarrow> Inr (-1)
      | (bs, Some WNilDereference) \<Rightarrow> Inl NilDereference)"

text \<open>\<^verbatim>\<open>Hash\<close>, without its memo: the digest of what \<^verbatim>\<open>SerializeUnsigned\<close> wrote, its error ignored.\<close>

definition Transaction_Hash :: "(bytes \<Rightarrow> Uint256) \<Rightarrow> Transaction \<Rightarrow> Uint256 res" where
  "Transaction_Hash H tx =
     (case Transaction_SerializeUnsigned tx of
        (bs, Some WNilDereference) \<Rightarrow> Inl NilDereference
      | (bs, _) \<Rightarrow> Inr (H bs))"

definition IsIllegalTypeTx :: "Transaction \<Rightarrow> bool" where
  "IsIllegalTypeTx tx \<longleftrightarrow> tx_TxType tx \<in> {TxType_IllegalProposalEvidence, TxType_IllegalVoteEvidence,
     TxType_IllegalBlockEvidence, TxType_IllegalSidechainEvidence}"

definition IsInactiveArbitrators :: "Transaction \<Rightarrow> bool" where
  "IsInactiveArbitrators tx \<longleftrightarrow> tx_TxType tx = TxType_InactiveArbitrators"

definition IsProducerRelatedTx :: "Transaction \<Rightarrow> bool" where
  "IsProducerRelatedTx tx \<longleftrightarrow> tx_TxType tx \<in> {TxType_RegisterProducer, TxType_UpdateProducer,
     TxType_ActivateProducer, TxType_CancelProducer}"

definition IsNewSideChainPowTx :: "Transaction \<Rightarrow> bool" where
  "IsNewSideChainPowTx tx \<longleftrightarrow>
     (if tx_TxType tx \<noteq> TxType_SideChainPow \<or> length (tx_Inputs tx) \<noteq> 0 then False else True)"

subsection \<open>The round trip of a transaction\<close>

text \<open>
  What a transaction must satisfy to survive the wire: a version 0 transaction has one of the old
  types (below 9), its payload is of the kind its type calls for, and its parts are in range.
\<close>

definition Transaction_wf :: "Transaction \<Rightarrow> bool" where
  "Transaction_wf tx \<longleftrightarrow>
     (tx_Version tx \<ge> TxVersion09 \<or> tx_Version tx = TxVersionDefault \<and> tx_TxType tx < TxVersion09) \<and>
     (\<exists>p. tx_Payload tx = Some p \<and> GetPayload (tx_TxType tx) = Inr (Payload_kind p) \<and>
          Payload_wf (tx_PayloadVersion tx) p) \<and>
     slice_wf Attribute_wf (tx_Attributes tx) \<and> slice_wf Input_wf (tx_Inputs tx) \<and>
     slice_wf (Output_wf (tx_Version tx)) (tx_Outputs tx) \<and> slice_wf Program_wf (tx_Programs tx) \<and>
     tx_Fee tx = 0 \<and> tx_FeePerKB tx = 0"

lemma writes_versionAndType:
  assumes "v \<ge> TxVersion09 \<or> v = TxVersionDefault \<and> ty < TxVersion09"
  shows "writes (wseq (wok (if v \<ge> TxVersion09 then [v] else [])) (wok [ty])) readVersionAndType (v, ty)"
  using assms u8.dec_enc [of v "ty # r" for r] u8.dec_enc [of ty]
  by (intro writesI) (auto simp: readVersionAndType_def WriteUint8_def codec_simps)

lemma writes_readPayload:
  assumes "GetPayload ty = Inr (Payload_kind p)" and "Payload_wf version p"
  shows "writes (Payload_Serialize version p) (readPayload ty version) p"
  using assms by (simp add: readPayload_def writes_wrap payload.ser_dec)

lemma wseq_assoc: "wseq (wseq a b) c = wseq a (wseq b c)"
  by (cases a; cases b; cases c; cases "snd a"; cases "snd b"; simp)

lemma writes_SerializeUnsigned:
  assumes wf: "Transaction_wf tx"
  shows "writes (Transaction_SerializeUnsigned tx) Transaction_DeserializeUnsigned (tx\<lparr>tx_Programs := []\<rparr>)"
proof -
  from wf obtain p where p: "tx_Payload tx = Some p" "GetPayload (tx_TxType tx) = Inr (Payload_kind p)"
      "Payload_wf (tx_PayloadVersion tx) p"
    by (auto simp: Transaction_wf_def)
  have count: "writes (wseq (countBytes xs) (serAll ser xs)) (rbind ReadVarUint (\<lambda>n. readN (unat n) dec)) xs"
    if "slice_wf ok xs" "checked_codec ser dec ok" for xs :: "'x list" and ser dec ok
    using checked_codec.counted_ok [OF that(2)] that(1) by (simp add: countBytes_def list_wf_def)
  have byte: "writes (wok [b]) ReadByte1 b" for b
    using u8.dec_enc [of b] by (auto simp: writes_def WriteUint8_def)
  show ?thesis
    unfolding Transaction_SerializeUnsigned_def Transaction_DeserializeUnsigned_def
    apply (subst wseq_assoc [symmetric])
    apply (rule writes_bind [OF writes_versionAndType])
    subgoal using wf by (simp add: Transaction_wf_def)
    apply (simp only: prod.case p(1) option.case)
    apply (rule writes_bind [OF byte])
    apply (rule writes_bind [OF writes_readPayload [OF p(2,3)]])
    apply (rule writes_bind [OF count [OF _ attribute.checked_codec_axioms]])
    subgoal using wf by (simp add: Transaction_wf_def)
    apply (rule writes_bind [OF count [OF _ tx_input.checked.checked_codec_axioms]])
    subgoal using wf by (simp add: Transaction_wf_def)
    apply (rule writes_bind [OF count [OF _ tx_output.checked_codec_axioms]])
    subgoal using wf by (simp add: Transaction_wf_def)
    subgoal using writes_last [OF u32.checked.ser_dec [of "tx_LockTime tx"]] wf p
      by (auto simp: Transaction_wf_def writes_def codec_simps)
    done
qed

lemma writes_wwrap: "writes w dec x \<Longrightarrow> writes (wwrap msg w) dec x"
  by (auto simp: writes_def)

interpretation wrapped_program: canonical_codec Program_Serialize "rwrap msg Program_Deserialize" Program_wf
  for msg
  by (rule program.rwrap_canonical)

lemma writes_programs:
  assumes "slice_wf Program_wf ps"
  shows "writes (wseq (countBytes ps) (serAll (\<lambda>p. wok (Program_Serialize p)) ps))
    (rbind (rwrap msg ReadVarUint) (\<lambda>n. readN (unat n) (rwrap msg' Program_Deserialize))) ps"
proof -
  have "writes (wseq (countBytes ps) (serAll (\<lambda>p. wok (Program_Serialize p)) ps))
    (rbind ReadVarUint (\<lambda>n. readN (unat n) (rwrap msg' Program_Deserialize))) ps"
    using assms wrapped_program.checked.counted_ok [of ps msg'] by (simp add: countBytes_def list_wf_def)
  then show ?thesis
    by (auto simp: writes_def rbind_def rwrap_def split: sum.splits)
qed

interpretation transaction: checked_codec Transaction_Serialize Transaction_Deserialize Transaction_wf
proof
  fix tx assume wf: "Transaction_wf tx"
  have "writes (Transaction_Serialize tx) Transaction_Deserialize
      ((tx\<lparr>tx_Programs := []\<rparr>)\<lparr>tx_Programs := tx_Programs tx\<rparr>)"
    unfolding Transaction_Serialize_def Transaction_Deserialize_def
    by (rule writes_bind [OF writes_wrap [OF writes_wwrap [OF writes_SerializeUnsigned [OF wf]]]],
        rule writes_last, rule writes_programs) (use wf in \<open>simp add: Transaction_wf_def\<close>)
  then show "writes (Transaction_Serialize tx) Transaction_Deserialize tx" by simp
qed

text \<open>
  C4. Every well-formed transaction, of whatever type and payload, serialises without error, and
  reading the bytes back gives the same transaction and leaves the rest of the stream.
\<close>

theorem transaction_round_trip:
  assumes "Transaction_wf tx"
  shows "\<exists>bs. Transaction_Serialize tx = (bs, None) \<and>
           (\<forall>r. Transaction_Deserialize (bs @ r) = Inr (tx, r))"
  using transaction.ser_dec [OF assms] by (simp add: writes_def)

definition sampleTx :: Transaction where
  "sampleTx = \<lparr>tx_Version = 9, tx_TxType = TxType_TransferAsset, tx_PayloadVersion = 0,
     tx_Payload = Some PTransferAsset, tx_Attributes = [\<lparr>attr_Usage = Memo, attr_Data = [5]\<rparr>],
     tx_Inputs = [\<lparr>in_Previous = \<lparr>op_TxID = replicate 32 7, op_Index = 2\<rparr>, in_Sequence = 0\<rparr>],
     tx_Outputs = [\<lparr>out_AssetID = replicate 32 3, out_Value = 100, out_OutputLock = 0,
        out_ProgramHash = replicate 21 4, out_Type = OTNone, out_Payload = Some ODefaultOutput\<rparr>],
     tx_LockTime = 0, tx_Programs = [\<lparr>prog_Code = [2], prog_Parameter = [3]\<rparr>],
     tx_Fee = 0, tx_FeePerKB = 0\<rparr>"

lemma sampleTx_wf: "Transaction_wf sampleTx"
  by (simp add: sampleTx_def Transaction_wf_def GetPayload_def list_wf_def Attribute_wf_def
      IsValidAttributeType_def Input_wf_def OutPoint_wf_def Output_wf_def Program_wf_def)

theorem transaction_round_trip_witness:
  "Transaction_wf sampleTx \<and>
   (\<exists>bs. Transaction_Serialize sampleTx = (bs, None) \<and>
      (\<forall>r. Transaction_Deserialize (bs @ r) = Inr (sampleTx, r)))"
  using transaction_round_trip [OF sampleTx_wf] sampleTx_wf by blast

text \<open>
  C7. The transaction id commits to everything but the programs: for a digest that does not collide
  on their unsigned bytes, two well-formed transactions have the same hash exactly when they agree on
  every field other than the programs.
\<close>

theorem transaction_hash_commits:
  assumes "Transaction_wf tx" and "Transaction_wf tx'"
    and "H (fst (Transaction_SerializeUnsigned tx)) = H (fst (Transaction_SerializeUnsigned tx')) \<Longrightarrow>
         fst (Transaction_SerializeUnsigned tx) = fst (Transaction_SerializeUnsigned tx')"
  shows "Transaction_Hash H tx = Transaction_Hash H tx' \<longleftrightarrow>
         tx\<lparr>tx_Programs := []\<rparr> = tx'\<lparr>tx_Programs := []\<rparr>"
proof -
  obtain b where b: "Transaction_SerializeUnsigned tx = (b, None)"
      "\<And>r. Transaction_DeserializeUnsigned (b @ r) = Inr (tx\<lparr>tx_Programs := []\<rparr>, r)"
    using writes_SerializeUnsigned [OF assms(1)] by (auto elim: writesE)
  obtain b' where b': "Transaction_SerializeUnsigned tx' = (b', None)"
      "\<And>r. Transaction_DeserializeUnsigned (b' @ r) = Inr (tx'\<lparr>tx_Programs := []\<rparr>, r)"
    using writes_SerializeUnsigned [OF assms(2)] by (auto elim: writesE)
  have "b = b'" if "tx\<lparr>tx_Programs := []\<rparr> = tx'\<lparr>tx_Programs := []\<rparr>"
  proof -
    have "Transaction_SerializeUnsigned (tx\<lparr>tx_Programs := []\<rparr>) = Transaction_SerializeUnsigned tx"
      "Transaction_SerializeUnsigned (tx'\<lparr>tx_Programs := []\<rparr>) = Transaction_SerializeUnsigned tx'"
      by (simp_all add: Transaction_SerializeUnsigned_def cong: option.case_cong)
    with that b(1) b'(1) show ?thesis by simp
  qed
  moreover have "tx\<lparr>tx_Programs := []\<rparr> = tx'\<lparr>tx_Programs := []\<rparr>" if "b = b'"
    by (rule sum.inject(2) [THEN iffD1, THEN prod.inject [THEN iffD1], THEN conjunct1],
        rule trans [OF b(2) [of "[]", symmetric]]) (simp only: that b'(2))
  moreover have "Transaction_Hash H tx = Transaction_Hash H tx' \<longleftrightarrow> b = b'"
    using assms(3) b(1) b'(1) by (auto simp: Transaction_Hash_def)
  ultimately show ?thesis by blast
qed

theorem transaction_hash_commits_witness:
  "Transaction_Hash id sampleTx = Transaction_Hash id (sampleTx\<lparr>tx_Programs := []\<rparr>)"
proof -
  have "Transaction_wf (sampleTx\<lparr>tx_Programs := []\<rparr>)"
    using sampleTx_wf by (simp add: Transaction_wf_def list_wf_def)
  then show ?thesis
    using transaction_hash_commits [of sampleTx "sampleTx\<lparr>tx_Programs := []\<rparr>" id] sampleTx_wf by simp
qed

end
