(* ===== verification/KeyFrame.thy ===== *)
theory KeyFrame
  imports Transaction "HOL-Library.List_Lexorder" "HOL-Library.Char_ord"
begin

section \<open>Producers and key frames: dpos/state/state.go, keyframe.go\<close>

text \<open>
  The data of the DPoS state and its checkpoint format. A \<open>StateKeyFrame\<close> is polymorphic in what its
  producer maps hold: references to live producer objects in the running state (DposState), and the
  producers themselves in a snapshot and on the wire.
\<close>

subsection \<open>Producers\<close>

datatype ProducerState =
    Pending
  | Active
  | Inactive
  | Canceled
  | Illegal
  | Returned
  | OtherState u8

fun ProducerState_byte :: "ProducerState \<Rightarrow> u8" where
  "ProducerState_byte Pending = 0"
| "ProducerState_byte Active = 1"
| "ProducerState_byte Inactive = 2"
| "ProducerState_byte Canceled = 3"
| "ProducerState_byte Illegal = 4"
| "ProducerState_byte Returned = 5"
| "ProducerState_byte (OtherState b) = b"

definition ProducerState_of :: "u8 \<Rightarrow> ProducerState" where
  "ProducerState_of b =
     (if b = 0 then Pending else if b = 1 then Active else if b = 2 then Inactive
      else if b = 3 then Canceled else if b = 4 then Illegal else if b = 5 then Returned
      else OtherState b)"

fun ProducerState_wf :: "ProducerState \<Rightarrow> bool" where
  "ProducerState_wf (OtherState b) \<longleftrightarrow> b \<notin> {0, 1, 2, 3, 4, 5}"
| "ProducerState_wf _ \<longleftrightarrow> True"

lemma ProducerState_of_byte: "ProducerState_wf st \<Longrightarrow> ProducerState_of (ProducerState_byte st) = st"
  by (cases st) (auto simp: ProducerState_of_def)

lemma ProducerState_byte_of: "ProducerState_byte (ProducerState_of b) = b"
  by (auto simp: ProducerState_of_def)

record Producer =
  p_info :: ProducerInfo
  p_state :: ProducerState
  registerHeight :: u32
  cancelHeight :: u32
  inactiveCountingHeight :: u32
  inactiveSince :: u32
  activateRequestHeight :: u32
  illegalHeight :: u32
  penalty :: Fixed64
  votes :: Fixed64
  depositAmount :: Fixed64
  depositHash :: Uint168

definition Producer_Serialize :: "Producer \<Rightarrow> bytes" where
  "Producer_Serialize p =
     ProducerInfo_Serialize 0 (p_info p) @ WriteUint8 (ProducerState_byte (p_state p)) @
     WriteUint32 (registerHeight p) @ WriteUint32 (cancelHeight p) @
     WriteUint32 (inactiveCountingHeight p) @ WriteUint32 (inactiveSince p) @
     WriteUint32 (activateRequestHeight p) @ WriteUint32 (illegalHeight p) @
     WriteUint64 (penalty p) @ WriteUint64 (votes p) @ Uint168_Serialize (depositHash p)"

definition Producer_Deserialize :: "Producer reader" where
  "Producer_Deserialize =
     rbind (ProducerInfo_Deserialize 0) (\<lambda>info.
     rbind ReadUint8 (\<lambda>st.
     rbind ReadUint32 (\<lambda>registerH.
     rbind ReadUint32 (\<lambda>cancelH.
     rbind ReadUint32 (\<lambda>countingH.
     rbind ReadUint32 (\<lambda>since.
     rbind ReadUint32 (\<lambda>requestH.
     rbind ReadUint32 (\<lambda>illegalH.
     rbind ReadUint64 (\<lambda>pen.
     rbind ReadUint64 (\<lambda>vs.
     rbind Uint168_Deserialize (\<lambda>hash.
     rret \<lparr>p_info = info, p_state = ProducerState_of st, registerHeight = registerH,
           cancelHeight = cancelH, inactiveCountingHeight = countingH, inactiveSince = since,
           activateRequestHeight = requestH, illegalHeight = illegalH, penalty = pen,
           votes = vs, depositAmount = 0, depositHash = hash\<rparr>)))))))))))"

definition Producer_wf :: "Producer \<Rightarrow> bool" where
  "Producer_wf p \<longleftrightarrow> ProducerInfo_wf (p_info p) \<and> ProducerState_wf (p_state p) \<and> length (depositHash p) = 21"

text \<open>Reading a producer back loses its deposit amount, which is not written.\<close>

lemma Producer_dec_enc:
  "Producer_wf p \<Longrightarrow>
   Producer_Deserialize (Producer_Serialize p @ r) = Inr (p\<lparr>depositAmount := 0\<rparr>, r)"
  by (simp add: Producer_Serialize_def Producer_Deserialize_def Producer_wf_def codec_simps
      producerInfo.dec_enc ProducerState_of_byte)

interpretation producer: codec Producer_Serialize Producer_Deserialize
    "\<lambda>p. Producer_wf p \<and> depositAmount p = 0"
  by unfold_locales (simp add: Producer_dec_enc)

subsection \<open>Maps and sets on the wire\<close>

text \<open>The loops of the Serialize and Deserialize methods of a key frame, one pair per kind of map.\<close>

definition serializeSet :: "('k set \<Rightarrow> 'k list) \<Rightarrow> ('k \<Rightarrow> bytes) \<Rightarrow> 'k set \<Rightarrow> bytes" where
  "serializeSet ord enc A = WriteVarUint (word_of_nat (card A)) @ concat (map enc (ord A))"

definition deserializeSet :: "'k reader \<Rightarrow> 'k set reader" where
  "deserializeSet dec = rbind (readAppend dec) (\<lambda>ks. rret (set ks))"

definition serializeMap ::
    "('k set \<Rightarrow> 'k list) \<Rightarrow> ('k \<Rightarrow> bytes) \<Rightarrow> ('v \<Rightarrow> bytes) \<Rightarrow> ('k \<rightharpoonup> 'v) \<Rightarrow> bytes" where
  "serializeMap ord encK encV m =
     WriteVarUint (word_of_nat (card (dom m))) @ concat (map (\<lambda>k. encK k @ encV (the (m k))) (ord (dom m)))"

definition readEntry :: "'k reader \<Rightarrow> 'v reader \<Rightarrow> ('k \<times> 'v) reader" where
  "readEntry decK decV = rbind decK (\<lambda>k. rbind decV (\<lambda>v. rret (k, v)))"

definition deserializeMap :: "'k reader \<Rightarrow> 'v reader \<Rightarrow> ('k \<rightharpoonup> 'v) reader" where
  "deserializeMap decK decV =
     rbind (readAppend (readEntry decK decV)) (\<lambda>kvs. rret (fold (\<lambda>(k, v) m. m(k \<mapsto> v)) kvs Map.empty))"

lemma set_round_trip:
  assumes "codec enc dec ok" and "ranges ord" and "finite A" and "card A < 2 ^ 64" and "\<forall>k \<in> A. ok k"
  shows "deserializeSet dec (serializeSet ord enc A @ r) = Inr (A, r)"
proof -
  have "serializeSet ord enc A = writeList enc (ord A)"
    using assms(2,3) by (simp add: serializeSet_def writeList_def ranges_length)
  moreover have "slice_wf ok (ord A)"
    using assms rangesD [of ord A] by (auto simp: list_wf_def ranges_length)
  ultimately show ?thesis
    using rangesD [OF assms(2,3)]
    by (simp add: deserializeSet_def codec_simps codec.append_dec_enc [OF assms(1)])
qed

lemma fold_update_entries:
  "fold (\<lambda>(k, v) m. m(k \<mapsto> v)) (map (\<lambda>k. (k, g k)) ks) m0 =
     (\<lambda>k. if k \<in> set ks then Some (g k) else m0 k)"
  by (induction ks arbitrary: m0) (auto simp: fun_eq_iff)

text \<open>A map round-trips up to what the codec of its values loses (\<open>g\<close>).\<close>

lemma map_round_trip:
  assumes "codec encK decK okK" and dec: "\<And>v r. v \<in> ran m \<Longrightarrow> decV (encV v @ r) = Inr (g v, r)"
    and "ranges ord" and "finite (dom m)" and "card (dom m) < 2 ^ 64" and "\<forall>k \<in> dom m. okK k"
  shows "deserializeMap decK decV (serializeMap ord encK encV m @ r) = Inr (map_option g \<circ> m, r)"
proof -
  let ?ks = "ord (dom m)" and ?h = "\<lambda>k. g (the (m k))"
  have ks: "set ?ks = dom m" "length ?ks = card (dom m)"
    using assms(3,4) by (auto simp: ranges_length dest: rangesD)
  have entry: "readEntry decK decV ((encK k @ encV (the (m k))) @ s) = Inr ((k, ?h k), s)"
    if "k \<in> dom m" for k s
    using that assms(6) codec.dec_enc [OF assms(1)] dec [OF ranI [of m k]]
    by (auto simp: readEntry_def codec_simps)
  have "readN (length ks) (readEntry decK decV) (concat (map (\<lambda>k. encK k @ encV (the (m k))) ks) @ s) =
      Inr (map (\<lambda>k. (k, ?h k)) ks, s)" if "set ks \<subseteq> dom m" for ks s
    using that by (induction ks) (simp_all add: codec_simps entry [simplified])
  then have "deserializeMap decK decV (serializeMap ord encK encV m @ r) =
      Inr (fold (\<lambda>(k, v) m. m(k \<mapsto> v)) (map (\<lambda>k. (k, ?h k)) ?ks) Map.empty, r)"
    using ks assms(5)
    by (simp add: deserializeMap_def serializeMap_def readAppend_def codec_simps unat_word_of_nat_u64
        flip: ks(2))
  also have "fold (\<lambda>(k, v) m. m(k \<mapsto> v)) (map (\<lambda>k. (k, ?h k)) ?ks) Map.empty = map_option g \<circ> m"
    unfolding fold_update_entries ks by (auto simp: fun_eq_iff map_option_case split: option.splits)
  finally show ?thesis .
qed

subsection \<open>Key frames\<close>

record 'p StateKeyFrame =
  NodeOwnerKeys :: "string \<rightharpoonup> string"
  PendingProducers :: "string \<rightharpoonup> 'p"
  ActivityProducers :: "string \<rightharpoonup> 'p"
  InactiveProducers :: "string \<rightharpoonup> 'p"
  CanceledProducers :: "string \<rightharpoonup> 'p"
  IllegalProducers :: "string \<rightharpoonup> 'p"
  PendingCanceledProducers :: "string \<rightharpoonup> 'p"
  Votes :: "string set"
  DepositOutputs :: "string \<rightharpoonup> Fixed64"
  Nicknames :: "string set"
  SpecialTxHashes :: "Uint256 set"
  PreBlockArbiters :: "string set"
  ProducerDepositMap :: "Uint168 set"
  EmergencyInactiveArbiters :: "string set"
  VersionStartHeight :: u32
  VersionEndHeight :: u32

definition NewStateKeyFrame :: "'p StateKeyFrame" where
  "NewStateKeyFrame = \<lparr>NodeOwnerKeys = Map.empty, PendingProducers = Map.empty,
     ActivityProducers = Map.empty, InactiveProducers = Map.empty, CanceledProducers = Map.empty,
     IllegalProducers = Map.empty, PendingCanceledProducers = Map.empty, Votes = {},
     DepositOutputs = Map.empty, Nicknames = {}, SpecialTxHashes = {}, PreBlockArbiters = {},
     ProducerDepositMap = {}, EmergencyInactiveArbiters = {}, VersionStartHeight = 0,
     VersionEndHeight = 0\<rparr>"

definition StateKeyFrame_Serialize ::
    "(string set \<Rightarrow> string list) \<Rightarrow> (bytes set \<Rightarrow> bytes list) \<Rightarrow> Producer StateKeyFrame \<Rightarrow> bytes" where
  "StateKeyFrame_Serialize ord ordB s =
     (let producerMap = serializeMap ord WriteVarString Producer_Serialize;
          stringSet = serializeSet ord WriteVarString in
      serializeMap ord WriteVarString WriteVarString (NodeOwnerKeys s) @
      producerMap (PendingProducers s) @ producerMap (ActivityProducers s) @
      producerMap (InactiveProducers s) @ producerMap (CanceledProducers s) @
      producerMap (IllegalProducers s) @ producerMap (PendingCanceledProducers s) @
      stringSet (Votes s) @ serializeMap ord WriteVarString Fixed64_Serialize (DepositOutputs s) @
      stringSet (Nicknames s) @ serializeSet ordB Uint256_Serialize (SpecialTxHashes s) @
      stringSet (PreBlockArbiters s) @ serializeSet ordB Uint168_Serialize (ProducerDepositMap s) @
      stringSet (EmergencyInactiveArbiters s) @
      WriteUint32 (VersionStartHeight s) @ WriteUint32 (VersionEndHeight s))"

definition StateKeyFrame_Deserialize :: "Producer StateKeyFrame reader" where
  "StateKeyFrame_Deserialize =
     (let producerMap = deserializeMap ReadVarString Producer_Deserialize;
          stringSet = deserializeSet ReadVarString in
      rbind (deserializeMap ReadVarString ReadVarString) (\<lambda>nodeOwnerKeys.
      rbind producerMap (\<lambda>pending.
      rbind producerMap (\<lambda>activity.
      rbind producerMap (\<lambda>inactive.
      rbind producerMap (\<lambda>canceled.
      rbind producerMap (\<lambda>illegal.
      rbind producerMap (\<lambda>pendingCanceled.
      rbind stringSet (\<lambda>vs.
      rbind (deserializeMap ReadVarString Fixed64_Deserialize) (\<lambda>depositOutputs.
      rbind stringSet (\<lambda>nicknames.
      rbind (deserializeSet Uint256_Deserialize) (\<lambda>specialTxHashes.
      rbind stringSet (\<lambda>preBlockArbiters.
      rbind (deserializeSet Uint168_Deserialize) (\<lambda>producerDepositMap.
      rbind stringSet (\<lambda>emergency.
      rbind ReadUint32 (\<lambda>versionStart.
      rbind ReadUint32 (\<lambda>versionEnd.
      rret \<lparr>NodeOwnerKeys = nodeOwnerKeys, PendingProducers = pending, ActivityProducers = activity,
            InactiveProducers = inactive, CanceledProducers = canceled, IllegalProducers = illegal,
            PendingCanceledProducers = pendingCanceled, Votes = vs, DepositOutputs = depositOutputs,
            Nicknames = nicknames, SpecialTxHashes = specialTxHashes,
            PreBlockArbiters = preBlockArbiters, ProducerDepositMap = producerDepositMap,
            EmergencyInactiveArbiters = emergency, VersionStartHeight = versionStart,
            VersionEndHeight = versionEnd\<rparr>)))))))))))))))))"

text \<open>What fits on the wire: finite maps with strings, hashes and producers in range.\<close>

definition stringSet_wf :: "string set \<Rightarrow> bool" where
  "stringSet_wf A \<longleftrightarrow> finite A \<and> card A < 2 ^ 64 \<and> (\<forall>k \<in> A. length k \<le> 16777216)"

definition hashSet_wf :: "nat \<Rightarrow> bytes set \<Rightarrow> bool" where
  "hashSet_wf n A \<longleftrightarrow> finite A \<and> card A < 2 ^ 64 \<and> (\<forall>k \<in> A. length k = n)"

definition producerMap_wf :: "(string \<rightharpoonup> Producer) \<Rightarrow> bool" where
  "producerMap_wf m \<longleftrightarrow> stringSet_wf (dom m) \<and> (\<forall>p \<in> ran m. Producer_wf p)"

definition StateKeyFrame_wf :: "Producer StateKeyFrame \<Rightarrow> bool" where
  "StateKeyFrame_wf s \<longleftrightarrow>
     stringSet_wf (dom (NodeOwnerKeys s)) \<and> (\<forall>v \<in> ran (NodeOwnerKeys s). length v \<le> 16777216) \<and>
     producerMap_wf (PendingProducers s) \<and> producerMap_wf (ActivityProducers s) \<and>
     producerMap_wf (InactiveProducers s) \<and> producerMap_wf (CanceledProducers s) \<and>
     producerMap_wf (IllegalProducers s) \<and> producerMap_wf (PendingCanceledProducers s) \<and>
     stringSet_wf (Votes s) \<and> stringSet_wf (dom (DepositOutputs s)) \<and> stringSet_wf (Nicknames s) \<and>
     hashSet_wf 32 (SpecialTxHashes s) \<and> stringSet_wf (PreBlockArbiters s) \<and>
     hashSet_wf 21 (ProducerDepositMap s) \<and> stringSet_wf (EmergencyInactiveArbiters s)"

text \<open>What a checkpoint keeps of a map of producers: all but the deposit amounts.\<close>

definition stored :: "(string \<rightharpoonup> Producer) \<Rightarrow> (string \<rightharpoonup> Producer)" where
  "stored m = map_option (\<lambda>p. p\<lparr>depositAmount := 0\<rparr>) \<circ> m"

lemma producerMap_round_trip:
  assumes "ranges ord" and "producerMap_wf m"
  shows "deserializeMap ReadVarString Producer_Deserialize
    (serializeMap ord WriteVarString Producer_Serialize m @ r) = Inr (stored m, r)"
  unfolding stored_def
  by (rule map_round_trip [OF varString.codec_axioms])
     (use assms in \<open>auto simp: producerMap_wf_def stringSet_wf_def Producer_dec_enc\<close>)

lemma stringSet_round_trip:
  "ranges ord \<Longrightarrow> stringSet_wf A \<Longrightarrow>
   deserializeSet ReadVarString (serializeSet ord WriteVarString A @ r) = Inr (A, r)"
  by (rule set_round_trip [OF varString.codec_axioms]) (auto simp: stringSet_wf_def)

lemma hashSet_round_trip:
  "ranges ordB \<Longrightarrow> hashSet_wf 32 A \<Longrightarrow>
   deserializeSet Uint256_Deserialize (serializeSet ordB Uint256_Serialize A @ r) = Inr (A, r)"
  "ranges ordB \<Longrightarrow> hashSet_wf 21 A \<Longrightarrow>
   deserializeSet Uint168_Deserialize (serializeSet ordB Uint168_Serialize A @ r) = Inr (A, r)"
  by (rule set_round_trip [OF uint256.codec_axioms] set_round_trip [OF uint168.codec_axioms];
      auto simp: hashSet_wf_def)+

lemma stringMap_round_trip:
  assumes "ranges ord" and "stringSet_wf (dom m)" and "\<forall>v \<in> ran m. length v \<le> 16777216"
  shows "deserializeMap ReadVarString ReadVarString
    (serializeMap ord WriteVarString WriteVarString m @ r) = Inr (m, r)"
  using assms map_round_trip [OF varString.codec_axioms, where g = id and decV = ReadVarString and
      encV = WriteVarString and ord = ord and m = m and r = r]
  by (auto simp: stringSet_wf_def varString.dec_enc map_option.id [unfolded id_def] comp_def id_def)

lemma fixed64Map_round_trip:
  assumes "ranges ord" and "stringSet_wf (dom m)"
  shows "deserializeMap ReadVarString Fixed64_Deserialize
    (serializeMap ord WriteVarString Fixed64_Serialize m @ r) = Inr (m, r)"
  using assms map_round_trip [OF varString.codec_axioms, where g = id and decV = Fixed64_Deserialize and
      encV = Fixed64_Serialize and ord = ord and m = m and r = r]
  by (auto simp: stringSet_wf_def fixed64.dec_enc map_option.id [unfolded id_def] comp_def id_def)

text \<open>
  C6. A DPoS checkpoint restores the state it was taken from, whatever order the maps were
  ranged over in: the key frame read back is the one written, but for the deposit amounts of its
  producers, which are not part of the format.
\<close>

theorem keyframe_round_trip:
  assumes "ranges ord" and "ranges ordB" and "StateKeyFrame_wf s"
  shows "StateKeyFrame_Deserialize (StateKeyFrame_Serialize ord ordB s @ r) =
    Inr (s\<lparr>PendingProducers := stored (PendingProducers s),
           ActivityProducers := stored (ActivityProducers s),
           InactiveProducers := stored (InactiveProducers s),
           CanceledProducers := stored (CanceledProducers s),
           IllegalProducers := stored (IllegalProducers s),
           PendingCanceledProducers := stored (PendingCanceledProducers s)\<rparr>, r)"
  using assms
  by (simp add: StateKeyFrame_Serialize_def StateKeyFrame_Deserialize_def Let_def StateKeyFrame_wf_def
      codec_simps producerMap_round_trip stringSet_round_trip hashSet_round_trip
      stringMap_round_trip fixed64Map_round_trip)

definition sampleFrame :: "Producer StateKeyFrame" where
  "sampleFrame = NewStateKeyFrame\<lparr>Votes := {''ab''}, SpecialTxHashes := {replicate 32 7},
     DepositOutputs := [''cd'' \<mapsto> 100], VersionEndHeight := 9\<rparr>"

lemma sampleFrame_wf: "StateKeyFrame_wf sampleFrame"
  by (simp add: sampleFrame_def NewStateKeyFrame_def StateKeyFrame_wf_def producerMap_wf_def
      stringSet_wf_def hashSet_wf_def)

theorem keyframe_round_trip_witness:
  "StateKeyFrame_Deserialize (StateKeyFrame_Serialize sorted_list_of_set sorted_list_of_set sampleFrame @ [3]) =
     Inr (sampleFrame, [3])"
  unfolding keyframe_round_trip [OF ranges_sorted ranges_sorted sampleFrame_wf]
  by (simp add: sampleFrame_def NewStateKeyFrame_def stored_def comp_def)

end
