(* ===== verification/History.thy ===== *)
theory History
  imports Prelude
begin

section \<open>The change history: utils/history.go\<close>

text \<open>
  A \<^verbatim>\<open>History\<close> records, block by block, the state changes of the DPoS and CR states together with
  their rollback functions, so that a block can be undone without replaying the chain.
  A change is a pair of closures over the owner's state; here they are functions on a state of any
  type \<open>'s\<close> that may panic. The history and the state it changes are threaded together as a pair.

  The abstract specification is a \<^emph>\<open>timeline\<close>: the list of (height, state after that block).
  \<open>tracks\<close> relates a history to a timeline; Commit appends to it and RollbackTo truncates it.
\<close>

record 's change =
  execute :: "'s \<Rightarrow> 's res"
  rollback :: "'s \<Rightarrow> 's res"

record 's HeightChanges =
  hc_height :: u32
  hc_changes :: "'s change list"

definition HeightChanges_append :: "'s HeightChanges \<Rightarrow> 's change \<Rightarrow> 's HeightChanges" where
  "HeightChanges_append hc c = hc\<lparr>hc_changes := hc_changes hc @ [c]\<rparr>"

definition HeightChanges_commit :: "'s HeightChanges \<Rightarrow> 's \<Rightarrow> 's res" where
  "HeightChanges_commit hc s = foldR execute (hc_changes hc) s"

definition HeightChanges_rollback :: "'s HeightChanges \<Rightarrow> 's \<Rightarrow> 's res" where
  "HeightChanges_rollback hc s = foldR rollback (hc_changes hc) s"

record 's History =
  capacity :: int
  height :: u32
  changes :: "'s HeightChanges list"
  cachedChanges :: "'s HeightChanges option"
  tempChanges :: "'s change list"
  seekHeight :: u32

datatype hist_error = SeekOverflow u32 u32

definition NewHistory :: "int \<Rightarrow> 's History" where
  "NewHistory cap = \<lparr>capacity = cap, height = 0, changes = [], cachedChanges = None,
     tempChanges = [], seekHeight = 0\<rparr>"

subsection \<open>Operations\<close>

text \<open>Rolling back and resetting the temporary changes, shared by Append and RollbackTo.\<close>

definition resetTemp :: "'s History \<times> 's \<Rightarrow> ('s History \<times> 's) res" where
  "resetTemp = (\<lambda>(h, s).
     if tempChanges h \<noteq> [] then
       bindR (foldR rollback (tempChanges h) s) (\<lambda>s'. Inr (h\<lparr>tempChanges := []\<rparr>, s'))
     else Inr (h, s))"

definition History_Append :: "u32 \<Rightarrow> 's change \<Rightarrow> 's History \<times> 's \<Rightarrow> ('s History \<times> 's) res" where
  "History_Append ht c hs =
     (if ht = 0 then
        (case hs of (h, s) \<Rightarrow> Inr (h\<lparr>tempChanges := tempChanges h @ [c]\<rparr>, s))
      else bindR (resetTemp hs) (\<lambda>(h, s).
        bindR (case cachedChanges h of
            None \<Rightarrow>
              if height h \<noteq> 0 \<and> ht < height h
              then Inl (PanicMsg ''state history failed'')
              else Inr \<lparr>hc_height = ht, hc_changes = []\<rparr>
          | Some hc \<Rightarrow> Inr hc) (\<lambda>hc.
        if ht \<noteq> hc_height hc
        then Inl (PanicMsg ''previous changes not committed or cleared, wrong usage'')
        else Inr (h\<lparr>cachedChanges := Some (HeightChanges_append hc c)\<rparr>, s))))"

text \<open>\<^verbatim>\<open>for ; i >= 0 && i < length; i++ { h.changes[i].commit() }\<close>\<close>

definition commitFrom :: "int \<Rightarrow> 's HeightChanges list \<Rightarrow> 's \<Rightarrow> 's res" where
  "commitFrom i cs s = (if i < 0 then Inr s else foldR HeightChanges_commit (drop (nat i) cs) s)"

definition History_Commit :: "u32 \<Rightarrow> 's History \<times> 's \<Rightarrow> ('s History \<times> 's) res" where
  "History_Commit ht = (\<lambda>(h, s).
     if tempChanges h \<noteq> [] then
       bindR (foldR execute (tempChanges h) s) (\<lambda>s'. Inr (h, s'))
     else
       (let seek = height h - seekHeight h; len = length (changes h) in
        bindR (commitFrom (int len - int (unat seek)) (changes h) s) (\<lambda>s1.
        bindR (if int (length (changes h)) \<ge> capacity h
               then (case changes h of [] \<Rightarrow> Inl IndexOutOfRange | _ # cs \<Rightarrow> Inr cs)
               else Inr (changes h)) (\<lambda>cs.
        let hc = (case cachedChanges h of
                    None \<Rightarrow> \<lparr>hc_height = ht, hc_changes = []\<rparr> | Some hc \<Rightarrow> hc) in
        bindR (HeightChanges_commit hc s1) (\<lambda>s2.
          Inr (h\<lparr>height := ht, seekHeight := ht, changes := cs @ [hc], cachedChanges := None\<rparr>,
               s2))))))"

text \<open>
  \<^verbatim>\<open>for i := length - 1; i >= length-seek; i-- { h.changes[i].rollback() }\<close>: when \<open>seek\<close>
  exceeds the length the index runs below 0.
\<close>

definition rollbackLast :: "nat \<Rightarrow> 's HeightChanges list \<Rightarrow> 's \<Rightarrow> 's res" where
  "rollbackLast n cs s =
     (if n \<le> length cs then foldR HeightChanges_rollback (rev (drop (length cs - n) cs)) s
      else bindR (foldR HeightChanges_rollback (rev cs) s) (\<lambda>_. Inl IndexOutOfRange))"

definition History_SeekTo ::
    "u32 \<Rightarrow> 's History \<times> 's \<Rightarrow> (hist_error option \<times> 's History \<times> 's) res" where
  "History_SeekTo ht = (\<lambda>(h, s).
     let limitHeight = height h - word_of_nat (length (changes h)) in
     if ht < limitHeight then Inr (Some (SeekOverflow ht limitHeight), h, s)
     else
       (let seek = int (unat (seekHeight h)) - int (unat ht); len = length (changes h) in
        bindR (if seek \<ge> 0 then rollbackLast (nat seek) (changes h) s
               else commitFrom (int len + seek) (changes h) s) (\<lambda>s'.
          Inr (None, h\<lparr>seekHeight := ht\<rparr>, s'))))"

text \<open>\<^verbatim>\<open>for i := len(h.changes) - 1; i >= 0; i--\<close>, with the slice cut inside the loop.\<close>

fun rollbackLoop ::
    "nat \<Rightarrow> u32 \<Rightarrow> 's HeightChanges list \<Rightarrow> 's \<Rightarrow> ('s HeightChanges list \<times> 's) res" where
  "rollbackLoop 0 ht cs s = Inr (cs, s)"
| "rollbackLoop (Suc i) ht cs s =
     (if hc_height (cs ! i) > ht
      then bindR (HeightChanges_rollback (cs ! i) s) (rollbackLoop i ht (take i cs))
      else rollbackLoop i ht cs s)"

definition History_RollbackTo :: "u32 \<Rightarrow> 's History \<times> 's \<Rightarrow> ('s History \<times> 's) res" where
  "History_RollbackTo ht hs =
     (if ht \<ge> height (fst hs) then Inr hs
      else bindR (resetTemp hs) (\<lambda>(h, s).
        bindR (rollbackLoop (length (changes h)) ht (changes h) s) (\<lambda>(cs, s').
          Inr (h\<lparr>changes := cs, height := ht\<rparr>, s'))))"

subsection \<open>Undoing one block\<close>

text \<open>
  \<open>undone cs s t\<close>: executing the changes of a block in order leads from \<open>s\<close> to \<open>t\<close>, and
  running their rollbacks, in the same order as the code does, leads back to \<open>s\<close>.
\<close>

definition undone :: "'s change list \<Rightarrow> 's \<Rightarrow> 's \<Rightarrow> bool" where
  "undone cs s t \<longleftrightarrow> foldR execute cs s = Inr t \<and> foldR rollback cs t = Inr s"

lemma undone_Nil [simp]: "undone [] s t \<longleftrightarrow> t = s"
  by (auto simp: undone_def)

lemma undone_single: "undone [c] s t \<longleftrightarrow> execute c s = Inr t \<and> rollback c t = Inr s"
  by (auto simp: undone_def)

text \<open>
  The rollbacks of a block run first to last, not last to first. That is right when the changes of
  the block are independent. The locale states what a family of changes \<open>chg i\<close> has to satisfy: on a
  state that meets its precondition a change runs and its rollback undoes it; independent changes
  keep each other's preconditions and commute.
\<close>

locale independent_changes =
  fixes chg :: "'i \<Rightarrow> 's change"
    and pre :: "'i \<Rightarrow> 's \<Rightarrow> bool"
    and indep :: "'i \<Rightarrow> 'i \<Rightarrow> bool"
  assumes runs: "pre i s \<Longrightarrow> \<exists>t. execute (chg i) s = Inr t \<and> rollback (chg i) t = Inr s"
    and frame: "indep i j \<Longrightarrow> pre i s \<Longrightarrow> pre j s \<Longrightarrow> execute (chg j) s = Inr t \<Longrightarrow> pre i t"
    and commute: "indep i j \<Longrightarrow> pre i s \<Longrightarrow> pre j s \<Longrightarrow>
      bindR (execute (chg i) s) (execute (chg j)) = bindR (execute (chg j) s) (execute (chg i))"
    and indep_sym: "indep i j \<Longrightarrow> indep j i"
begin

text \<open>A change may be moved behind the changes it is independent of.\<close>

lemma execute_last:
  assumes "\<forall>j \<in> set js. indep i j \<and> pre j s" and "pre i s" and "sorted_wrt indep js"
  shows "\<exists>v. foldR execute (map chg js) s = Inr v \<and> pre i v \<and>
    bindR (execute (chg i) s) (foldR execute (map chg js)) = execute (chg i) v"
  using assms
proof (induction js arbitrary: s)
  case Nil
  then show ?case by simp
next
  case (Cons j js)
  obtain t u where t: "execute (chg j) s = Inr t" and u: "execute (chg i) s = Inr u"
    using runs [of j s] runs [of i s] Cons.prems(1,2) by auto
  have "pre k t" if "indep j k" "pre k s" for k
    using that indep_sym frame [of k j s t] Cons.prems(1) t by simp
  then have "\<forall>k \<in> set js. indep i k \<and> pre k t" "pre i t"
    using Cons.prems indep_sym [of i j] by auto
  then obtain v where v: "foldR execute (map chg js) t = Inr v" "pre i v"
      "bindR (execute (chg i) t) (foldR execute (map chg js)) = execute (chg i) v"
    using Cons.IH [of t] Cons.prems(3) by auto
  have "execute (chg j) u = execute (chg i) t"
    using commute [of i j s] Cons.prems t u by simp
  with v t u show ?case by simp
qed

text \<open>So the state after a block is the state some member of the block leads to.\<close>

lemma execute_any:
  assumes "\<forall>j \<in> set (xs @ i # ys). pre j s" and "sorted_wrt indep (xs @ i # ys)"
  shows "\<exists>t v. foldR execute (map chg (xs @ i # ys)) s = Inr t \<and> pre i v \<and> execute (chg i) v = Inr t"
  using assms
proof (induction xs arbitrary: s)
  case Nil
  then obtain v where v: "pre i v" "bindR (execute (chg i) s) (foldR execute (map chg ys)) = execute (chg i) v"
    using execute_last [of ys i s] by auto
  then show ?case using runs [OF v(1)] by auto
next
  case (Cons x xs)
  obtain u where u: "execute (chg x) s = Inr u" using runs [of x s] Cons.prems(1) by auto
  have "\<forall>j \<in> set (xs @ i # ys). pre j u"
    using frame [OF _ _ _ u] indep_sym Cons.prems by auto
  then show ?case using Cons u by simp
qed

lemma block_undone:
  assumes "\<forall>i \<in> set is. pre i s" and "sorted_wrt indep is"
  shows "\<exists>t. undone (map chg is) s t"
  using assms
proof (induction "is" arbitrary: s)
  case Nil
  then show ?case by simp
next
  case (Cons i "is")
  obtain u where u: "execute (chg i) s = Inr u"
    using runs [of i s] Cons.prems(1) by auto
  obtain v where v: "foldR execute (map chg is) s = Inr v" "pre i v"
      "bindR (execute (chg i) s) (foldR execute (map chg is)) = execute (chg i) v"
    using execute_last [of "is" i s] Cons.prems by auto
  obtain t where t: "execute (chg i) v = Inr t" "rollback (chg i) t = Inr v"
    using runs [OF v(2)] by auto
  have "foldR rollback (map chg is) v = Inr s"
    using Cons.IH [of s] Cons.prems v(1) by (auto simp: undone_def)
  with u v t show ?case by (auto simp: undone_def)
qed

end

subsection \<open>The timeline\<close>

type_synonym 's timeline = "'s \<times> (u32 \<times> 's) list"

fun current :: "'s timeline \<Rightarrow> 's" where
  "current (b, vs) = (if vs = [] then b else snd (last vs))"

fun tl_commit :: "int \<Rightarrow> u32 \<times> 's \<Rightarrow> 's timeline \<Rightarrow> 's timeline" where
  "tl_commit cap v (b, vs) =
     (if int (length vs) \<ge> cap then (snd (hd vs), tl vs @ [v]) else (b, vs @ [v]))"

fun tl_rollback :: "u32 \<Rightarrow> 's timeline \<Rightarrow> 's timeline" where
  "tl_rollback ht (b, vs) = (b, takeWhile (\<lambda>v. fst v \<le> ht) vs)"

text \<open>\<open>replays cs b vs\<close>: the recorded changes lead from \<open>b\<close> through the states of \<open>vs\<close>, and back.\<close>

fun replays :: "'s HeightChanges list \<Rightarrow> 's \<Rightarrow> (u32 \<times> 's) list \<Rightarrow> bool" where
  "replays [] b vs \<longleftrightarrow> vs = []"
| "replays (hc # cs) b [] \<longleftrightarrow> False"
| "replays (hc # cs) b (v # vs) \<longleftrightarrow>
     hc_height hc = fst v \<and> undone (hc_changes hc) b (snd v) \<and> replays cs (snd v) vs"

lemma replays_length: "replays cs b vs \<Longrightarrow> length cs = length vs"
  by (induction cs b vs rule: replays.induct) auto

lemma replays_heights: "replays cs b vs \<Longrightarrow> map hc_height cs = map fst vs"
  by (induction cs b vs rule: replays.induct) auto

lemma replays_append:
  "replays cs b vs \<Longrightarrow> replays ds (current (b, vs)) ws \<Longrightarrow> replays (cs @ ds) b (vs @ ws)"
  by (induction cs b vs rule: replays.induct) (auto split: if_splits)

lemma replays_split:
  "replays cs b (vs @ ws) \<Longrightarrow>
     replays (take (length vs) cs) b vs \<and> replays (drop (length vs) cs) (current (b, vs)) ws"
proof (induction vs arbitrary: cs b)
  case Nil
  then show ?case by simp
next
  case (Cons v vs)
  then show ?case by (cases cs) auto
qed

lemma replays_snoc:
  assumes "replays cs b (vs @ [v])"
  shows "\<exists>ds hc. cs = ds @ [hc] \<and> replays ds b vs \<and> hc_height hc = fst v
    \<and> undone (hc_changes hc) (current (b, vs)) (snd v)"
proof -
  from replays_split [OF assms]
  have a: "replays (take (length vs) cs) b vs"
    and r: "replays (drop (length vs) cs) (current (b, vs)) [v]" by auto
  from r obtain hc where hc: "drop (length vs) cs = [hc]" "hc_height hc = fst v"
      "undone (hc_changes hc) (current (b, vs)) (snd v)"
    by (cases "drop (length vs) cs"; cases "tl (drop (length vs) cs)") auto
  have "cs = take (length vs) cs @ [hc]"
    by (metis append_take_drop_id hc(1))
  with a hc show ?thesis by blast
qed

definition tracks :: "'s History \<times> 's \<Rightarrow> 's timeline \<Rightarrow> bool" where
  "tracks hs t \<longleftrightarrow>
     (case hs of (h, s) \<Rightarrow> case t of (b, vs) \<Rightarrow>
       replays (changes h) b vs \<and> s = current t \<and>
       sorted_wrt (<) (map fst vs) \<and> (\<forall>v \<in> set vs. 0 < fst v \<and> fst v \<le> height h) \<and>
       height h \<le> seekHeight h \<and> tempChanges h = [] \<and> cachedChanges h = None)"

lemma tracks_NewHistory: "tracks (NewHistory cap, s) (s, [])"
  by (simp add: tracks_def NewHistory_def)

subsection \<open>Append and Commit refine the timeline's commit\<close>

lemma resetTemp_none [simp]: "tempChanges h = [] \<Longrightarrow> resetTemp (h, s) = Inr (h, s)"
  by (simp add: resetTemp_def)

lemma Append_cached:
  assumes "tempChanges h = []" and "cachedChanges h = Some hc" and "hc_height hc = ht" and "ht \<noteq> 0"
  shows "foldR (History_Append ht) cs (h, s) =
    Inr (h\<lparr>cachedChanges := Some (hc\<lparr>hc_changes := hc_changes hc @ cs\<rparr>)\<rparr>, s)"
  using assms
proof (induction cs arbitrary: h hc)
  case Nil
  then show ?case by simp
next
  case (Cons c cs)
  let ?h = "h\<lparr>cachedChanges := Some (HeightChanges_append hc c)\<rparr>"
  have "History_Append ht c (h, s) = Inr (?h, s)"
    using Cons.prems by (simp add: History_Append_def)
  moreover have "foldR (History_Append ht) cs (?h, s) =
      Inr (h\<lparr>cachedChanges := Some (hc\<lparr>hc_changes := hc_changes hc @ c # cs\<rparr>)\<rparr>, s)"
    using Cons.IH [of ?h "HeightChanges_append hc c"] Cons.prems
    by (simp add: HeightChanges_append_def)
  ultimately show ?case by simp
qed

text \<open>What the changes of one block leave in the cache.\<close>

lemma Append_block:
  assumes "tempChanges h = []" and "cachedChanges h = None" and "ht \<noteq> 0" and "height h \<le> ht"
  shows "foldR (History_Append ht) cs (h, s) =
    Inr (if cs = [] then h
         else h\<lparr>cachedChanges := Some \<lparr>hc_height = ht, hc_changes = cs\<rparr>\<rparr>, s)"
proof (cases cs)
  case Nil
  then show ?thesis by simp
next
  case (Cons c ds)
  let ?hc = "\<lparr>hc_height = ht, hc_changes = [c]\<rparr>"
  have "History_Append ht c (h, s) = Inr (h\<lparr>cachedChanges := Some ?hc\<rparr>, s)"
    using assms by (simp add: History_Append_def HeightChanges_append_def not_less)
  then show ?thesis
    using Append_cached [of "h\<lparr>cachedChanges := Some ?hc\<rparr>" ?hc ht ds s] assms Cons by simp
qed

text \<open>A history that is not behind its seek height has nothing to re-apply.\<close>

lemma commitFrom_unseeked:
  assumes "height h \<le> seekHeight h" and "length (changes h) \<le> unat (height h)"
  shows "commitFrom (int (length (changes h)) - int (unat (height h - seekHeight h))) (changes h) s
    = Inr s"
proof (cases "height h = seekHeight h")
  case True
  then show ?thesis by (simp add: commitFrom_def)
next
  case False
  with assms(1) have less: "unat (height h) < unat (seekHeight h)"
    by (simp add: word_less_nat_alt [symmetric])
  have "unat (seekHeight h) < 2 ^ LENGTH(32)" by (rule unsigned_less)
  then have bound: "unat (seekHeight h) < 4294967296" by simp
  have "unat (height h - seekHeight h) = (unat (height h) + 4294967296) - unat (seekHeight h)"
    using unat_sub_if' [of "height h" "seekHeight h"] less by simp
  with assms(2) less bound have
    "int (length (changes h)) - int (unat (height h - seekHeight h)) < 0" by linarith
  then show ?thesis by (simp add: commitFrom_def)
qed

lemma increasing_length:
  assumes "sorted_wrt (<) (map fst vs)" and "\<forall>v \<in> set vs. 0 < fst v \<and> fst v \<le> (k :: u32)"
  shows "length vs \<le> unat k"
proof -
  let ?ns = "map (unat \<circ> fst) vs"
  have "distinct (map fst vs)"
    using assms(1) by (metis strict_sorted_iff)
  then have "distinct ?ns"
    by (auto simp: distinct_map inj_on_def word_eq_iff_unsigned [where ?'a = nat])
  moreover have "set ?ns \<subseteq> {1..unat k}"
    using assms(2) by (auto simp: word_le_nat_alt word_less_nat_alt)
  ultimately have "card (set ?ns) \<le> card {1..unat k}"
    by (intro card_mono) auto
  with \<open>distinct ?ns\<close> show ?thesis
    by (simp add: distinct_card del: set_map)
qed

lemma tracks_length: "tracks (h, s) (b, vs) \<Longrightarrow> length (changes h) = length vs \<and> length vs \<le> unat (height h)"
  by (auto simp: tracks_def dest: replays_length intro: increasing_length)

lemma sorted_snoc_height:
  assumes "sorted_wrt (<) (map fst vs)" and "\<forall>v \<in> set vs. fst v \<le> k" and "k < (ht :: u32)"
  shows "sorted_wrt (<) (map fst (vs @ [(ht, t)]))"
  using assms by (auto simp: sorted_wrt_append)

text \<open>
  Commit of a block at a greater height, whose cached changes can be undone, moves the timeline
  by exactly one version.
\<close>

lemma Commit_tracks:
  assumes tr: "tracks (h, s) (b, vs)" and ht: "height h < ht" and cap: "0 < capacity h"
    and und: "undone cs s t"
    and h1: "h1 = (if cs = [] then h
             else h\<lparr>cachedChanges := Some \<lparr>hc_height = ht, hc_changes = cs\<rparr>\<rparr>)"
  shows "\<exists>h'. History_Commit ht (h1, s) = Inr (h', t) \<and> capacity h' = capacity h \<and> height h' = ht \<and>
    tracks (h', t) (tl_commit (capacity h) (ht, t) (b, vs))"
proof -
  note len = tracks_length [OF tr]
  let ?hc = "\<lparr>hc_height = ht, hc_changes = cs\<rparr>"
  have noseek: "commitFrom (int (length (changes h)) - int (unat (height h - seekHeight h))) (changes h) s = Inr s"
    by (rule commitFrom_unseeked) (use tr len in \<open>auto simp: tracks_def\<close>)
  have cached: "(case cachedChanges h1 of None \<Rightarrow> \<lparr>hc_height = ht, hc_changes = []\<rparr> | Some hc \<Rightarrow> hc) = ?hc"
    using tr h1 by (auto simp: tracks_def)
  define drp where "drp \<longleftrightarrow> int (length (changes h)) \<ge> capacity h"
  let ?kept = "if drp then tl (changes h) else changes h"
  let ?h' = "h\<lparr>height := ht, seekHeight := ht, changes := ?kept @ [?hc], cachedChanges := None\<rparr>"
  have ne: "changes h \<noteq> []" if drp
    using that cap by (auto simp: drp_def)
  have trim: "(if int (length (changes h)) \<ge> capacity h
      then (case changes h of [] \<Rightarrow> Inl IndexOutOfRange | _ # cs \<Rightarrow> Inr cs)
      else Inr (changes h)) = Inr ?kept"
    using ne by (cases "changes h") (auto simp: drp_def)
  have same: "changes h1 = changes h" "capacity h1 = capacity h" "height h1 = height h"
      "seekHeight h1 = seekHeight h" "tempChanges h1 = []"
    using tr by (auto simp: h1 tracks_def)
  have upd: "h1\<lparr>height := ht, seekHeight := ht, changes := X, cachedChanges := None\<rparr> =
      h\<lparr>height := ht, seekHeight := ht, changes := X, cachedChanges := None\<rparr>" for X
    by (simp add: h1)
  have commit: "History_Commit ht (h1, s) = Inr (?h', t)"
    using und unfolding History_Commit_def prod.case same Let_def noseek cached trim
    by (simp add: undone_def HeightChanges_commit_def upd)
  have full: "replays (changes h @ [?hc]) b (vs @ [(ht, t)])"
    using tr und by (intro replays_append) (auto simp: tracks_def)
  have pos: "0 < ht"
    by (rule le_less_trans [OF word_zero_le ht])
  have below: "fst v < ht" if "v \<in> set vs" for v
    by (rule le_less_trans [OF _ ht]) (use that tr in \<open>auto simp: tracks_def\<close>)
  have srt: "sorted_wrt (<) (map fst (vs @ [(ht, t)]))"
    using tr below by (auto simp: tracks_def sorted_wrt_append)
  have bnd: "\<forall>v \<in> set (vs @ [(ht, t)]). 0 < fst v \<and> fst v \<le> ht"
    using tr below pos by (auto simp: tracks_def less_imp_le)
  have cl: "tempChanges h = []" "length (changes h) = length vs"
    using tr len by (auto simp: tracks_def)
  have "tracks (?h', t) (tl_commit (capacity h) (ht, t) (b, vs))"
  proof (cases drp)
    case False
    with full srt bnd cl show ?thesis
      by (simp add: tracks_def drp_def)
  next
    case True
    then obtain v ws c cs' where v: "vs = v # ws" "changes h = c # cs'"
      using ne cl by (cases vs; cases "changes h") auto
    with full srt bnd cl True show ?thesis
      by (simp add: tracks_def drp_def)
  qed
  with commit show ?thesis by auto
qed

subsection \<open>RollbackTo refines the timeline's truncation\<close>

lemma rollbackLoop_keep:
  "\<forall>c \<in> set cs. hc_height c \<le> ht \<Longrightarrow> i \<le> length cs \<Longrightarrow> rollbackLoop i ht cs s = Inr (cs, s)"
proof (induction i)
  case 0
  then show ?case by simp
next
  case (Suc i)
  then have "\<not> hc_height (cs ! i) > ht" by (simp add: not_less)
  with Suc show ?case by simp
qed

lemma rollbackLoop_truncates:
  assumes "replays cs b vs" and "sorted_wrt (<) (map fst vs)"
  shows "\<exists>ds. rollbackLoop (length cs) ht cs (current (b, vs)) =
      Inr (ds, current (tl_rollback ht (b, vs))) \<and> replays ds b (snd (tl_rollback ht (b, vs)))"
  using assms
proof (induction vs arbitrary: cs rule: rev_induct)
  case Nil
  then show ?case by (cases cs) auto
next
  case (snoc v vs)
  obtain ds hc where cs: "cs = ds @ [hc]" "replays ds b vs" "hc_height hc = fst v"
      "undone (hc_changes hc) (current (b, vs)) (snd v)"
    using replays_snoc [OF snoc.prems(1)] by blast
  show ?case
  proof (cases "fst v \<le> ht")
    case True
    then have all: "\<forall>w \<in> set (vs @ [v]). fst w \<le> ht"
      using snoc.prems(2) by (fastforce simp: sorted_wrt_append)
    have "hc_height ` set cs = fst ` set (vs @ [v])"
      using arg_cong [OF replays_heights [OF snoc.prems(1)], of set] by (simp only: set_map)
    with all have "\<forall>c \<in> set cs. hc_height c \<le> ht"
      by (metis (no_types, lifting) imageE image_eqI)
    then have "rollbackLoop (length cs) ht cs (current (b, vs @ [v])) = Inr (cs, current (b, vs @ [v]))"
      by (intro rollbackLoop_keep) auto
    moreover have "takeWhile (\<lambda>v. fst v \<le> ht) (vs @ [v]) = vs @ [v]"
      using all by (simp add: takeWhile_eq_all_conv)
    ultimately show ?thesis
      using snoc.prems(1) by auto
  next
    case False
    then have "takeWhile (\<lambda>v. fst v \<le> ht) (vs @ [v]) = takeWhile (\<lambda>v. fst v \<le> ht) vs"
      by (induction vs) auto
    moreover have "rollbackLoop (length cs) ht cs (current (b, vs @ [v])) =
        rollbackLoop (length ds) ht ds (current (b, vs))"
      using False cs by (simp add: HeightChanges_rollback_def undone_def not_le)
    moreover have "sorted_wrt (<) (map fst vs)"
      using snoc.prems(2) by (simp add: sorted_wrt_append)
    ultimately show ?thesis
      using snoc.IH [OF cs(2)] by simp
  qed
qed

lemma sorted_wrt_takeWhile: "sorted_wrt R (map f vs) \<Longrightarrow> sorted_wrt R (map f (takeWhile Q vs))"
  by (subst takeWhile_eq_take) (simp only: take_map [symmetric] sorted_wrt_take)

lemma RollbackTo_tracks:
  assumes tr: "tracks (h, s) t" and ht: "ht < height h"
  shows "\<exists>h'. History_RollbackTo ht (h, s) = Inr (h', current (tl_rollback ht t)) \<and>
    capacity h' = capacity h \<and> height h' = ht \<and>
    tracks (h', current (tl_rollback ht t)) (tl_rollback ht t)"
proof -
  obtain b vs where t: "t = (b, vs)" by (cases t)
  obtain ds where ds: "rollbackLoop (length (changes h)) ht (changes h) s =
      Inr (ds, current (tl_rollback ht t))" "replays ds b (snd (tl_rollback ht t))"
    using rollbackLoop_truncates [of "changes h" b vs ht] tr by (auto simp: tracks_def t)
  let ?h' = "h\<lparr>changes := ds, height := ht\<rparr>"
  have "\<not> height h \<le> ht" and "tempChanges h = []"
    using ht tr by (auto simp: tracks_def t)
  then have "History_RollbackTo ht (h, s) = Inr (?h', current (tl_rollback ht t))"
    using ds(1) by (simp add: History_RollbackTo_def)
  moreover have "ht \<le> seekHeight h"
    using tr ht by (auto simp: tracks_def t)
  then have "tracks (?h', current (tl_rollback ht t)) (tl_rollback ht t)"
    using tr ds(2) by (simp add: tracks_def t sorted_wrt_takeWhile) (meson set_takeWhileD)
  ultimately show ?thesis by auto
qed

subsection \<open>Every run of a history is a run of the timeline\<close>

text \<open>
  A run alternates blocks (the changes of a block are appended at its height, then committed) and
  rollbacks. The second component of the relation is the timeline the specification has reached.
\<close>

inductive hist_run :: "int \<Rightarrow> 's \<Rightarrow> 's History \<times> 's \<Rightarrow> 's timeline \<Rightarrow> bool" for cap s0 where
  started: "hist_run cap s0 (NewHistory cap, s0) (s0, [])"
| committed: "hist_run cap s0 (h, s) t \<Longrightarrow> height h < ht \<Longrightarrow>
    foldR (History_Append ht) cs (h, s) = Inr hs \<Longrightarrow> undone cs s s' \<Longrightarrow>
    History_Commit ht hs = Inr (h', u) \<Longrightarrow>
    hist_run cap s0 (h', u) (tl_commit cap (ht, s') t)"
| unwound: "hist_run cap s0 (h, s) t \<Longrightarrow> History_RollbackTo ht (h, s) = Inr (h', u) \<Longrightarrow>
    hist_run cap s0 (h', u) (if ht < height h then tl_rollback ht t else t)"

lemma hist_run_tracks:
  assumes "hist_run cap s0 (h, s) t" and "0 < cap"
  shows "tracks (h, s) t \<and> capacity h = cap"
  using assms(1)
proof (induction "(h, s)" t arbitrary: h s rule: hist_run.induct)
  case started
  show ?case using tracks_NewHistory [of cap s0] by (simp add: NewHistory_def)
next
  case (committed h s t ht cs hs s' h' u)
  obtain b vs where t: "t = (b, vs)" by (cases t)
  have "0 < ht" by (rule le_less_trans [OF word_zero_le committed.hyps(3)])
  with committed Append_block [of h ht cs s]
  have hs: "hs = (if cs = [] then h
      else h\<lparr>cachedChanges := Some \<lparr>hc_height = ht, hc_changes = cs\<rparr>\<rparr>, s)"
    by (auto simp: tracks_def t)
  from Commit_tracks [of h s b vs ht cs s' "fst hs"] committed hs assms(2) show ?case
    by (auto simp: t)
next
  case (unwound h s t ht h' u)
  show ?case
  proof (cases "ht < height h")
    case True
    with RollbackTo_tracks [of h s t ht] unwound show ?thesis by auto
  next
    case False
    with unwound have "h' = h" and "u = s"
      by (auto simp: History_RollbackTo_def not_less)
    with False unwound show ?thesis by simp
  qed
qed

lemma tl_rollback_short:
  assumes "\<And>v. v \<in> set (snd t) \<Longrightarrow> ht < fst v"
  shows "current (tl_rollback ht t) = fst t"
proof -
  have "takeWhile (\<lambda>v. fst v \<le> ht) (snd t) = []"
    using assms by (cases "snd t") (auto simp: not_le)
  then show ?thesis by (cases t) simp
qed

text \<open>
  C5. Rolling back is exact for blocks that can be undone. Take any run of blocks (the changes of a block
  are appended at a height above the best one and committed) and of rollbacks, in which the changes of
  each block, undone in the order they were made, lead back to the state before the block. Then the state
  the history holds is the newest state of the timeline, and RollbackTo a lower height succeeds, sets that
  height and restores the state that was current at it: the newest retained version not above it. When
  the height is older than every retained version RollbackTo succeeds as well, and leaves the oldest
  retained state.
\<close>

theorem history_rollback_restores:
  assumes "hist_run cap s0 (h, s) t" and "0 < cap" and "ht < height h"
  shows "s = current t \<and>
    (\<exists>h'. History_RollbackTo ht (h, s) = Inr (h', current (tl_rollback ht t)) \<and> height h' = ht) \<and>
    ((\<forall>v \<in> set (snd t). ht < fst v) \<longrightarrow> current (tl_rollback ht t) = fst t)"
proof -
  from hist_run_tracks [OF assms(1,2)] have tr: "tracks (h, s) t" by simp
  then have "s = current t" by (auto simp: tracks_def split: prod.splits)
  with RollbackTo_tracks [OF tr assms(3)] tl_rollback_short [of t ht] show ?thesis by auto
qed

text \<open>A one-change block on an integer state, used to exhibit runs.\<close>

definition addChange :: "int \<Rightarrow> int change" where
  "addChange d = \<lparr>execute = (\<lambda>s. Inr (s + d)), rollback = (\<lambda>s. Inr (s - d))\<rparr>"

definition setChange :: "int \<Rightarrow> int \<Rightarrow> int change" where
  "setChange old v = \<lparr>execute = (\<lambda>s. Inr v), rollback = (\<lambda>s. Inr old)\<rparr>"

fun runBlocks :: "(u32 \<times> 's change list) list \<Rightarrow> 's History \<times> 's \<Rightarrow> ('s History \<times> 's) res" where
  "runBlocks [] hs = Inr hs"
| "runBlocks ((ht, cs) # bs) hs =
     bindR (foldR (History_Append ht) cs hs) (\<lambda>hs. bindR (History_Commit ht hs) (runBlocks bs))"

lemmas history_eval =
  History_Append_def History_Commit_def History_SeekTo_def History_RollbackTo_def NewHistory_def
  resetTemp_def commitFrom_def rollbackLast_def HeightChanges_append_def HeightChanges_commit_def
  HeightChanges_rollback_def addChange_def setChange_def

lemma sample_run:
  "hist_run 10 0 (\<lparr>capacity = 10, height = 3, changes = [\<lparr>hc_height = 3, hc_changes = [addChange 5]\<rparr>],
     cachedChanges = None, tempChanges = [], seekHeight = 3\<rparr>, 5) (0, [(3, 5)])"
proof -
  let ?h = "NewHistory 10 :: int History"
  have a: "foldR (History_Append 3) [addChange 5] (?h, 0) =
      Inr (?h\<lparr>cachedChanges := Some \<lparr>hc_height = 3, hc_changes = [addChange 5]\<rparr>\<rparr>, 0)"
    by (simp add: history_eval)
  have u: "undone [addChange 5] 0 (5 :: int)"
    by (simp add: undone_def addChange_def)
  from hist_run.committed [OF hist_run.started [of 10 0], OF _ a u] show ?thesis
    by (simp add: history_eval)
qed

theorem history_rollback_restores_witness:
  "\<exists>h'. History_RollbackTo 2 (\<lparr>capacity = 10, height = 3,
       changes = [\<lparr>hc_height = 3, hc_changes = [addChange 5]\<rparr>],
       cachedChanges = None, tempChanges = [], seekHeight = 3\<rparr>, 5 :: int) = Inr (h', 0) \<and> height h' = 2"
  using history_rollback_restores [OF sample_run, of 2] by simp

subsection \<open>Seeking\<close>

lemma rollback_suffix:
  "replays cs b vs \<Longrightarrow> m \<le> length vs \<Longrightarrow>
     foldR HeightChanges_rollback (rev (drop m cs)) (current (b, vs)) = Inr (current (b, take m vs))"
proof (induction vs arbitrary: cs rule: rev_induct)
  case Nil
  then show ?case by (cases cs) auto
next
  case (snoc v vs)
  obtain ds hc where cs: "cs = ds @ [hc]" "replays ds b vs" "hc_height hc = fst v"
      "undone (hc_changes hc) (current (b, vs)) (snd v)"
    using replays_snoc [OF snoc.prems(1)] by blast
  have len: "length ds = length vs"
    using cs(2) by (rule replays_length)
  show ?case
  proof (cases "m = length (vs @ [v])")
    case True
    with cs len show ?thesis by simp
  next
    case False
    with snoc.prems(2) have m: "m \<le> length vs" by simp
    then have "HeightChanges_rollback hc (snd v) = Inr (current (b, vs))"
      using cs(4) by (simp add: HeightChanges_rollback_def undone_def)
    with snoc.IH [OF cs(2) m] m cs(1) len show ?thesis by simp
  qed
qed

lemma commit_suffix:
  "replays cs b vs \<Longrightarrow> m \<le> length vs \<Longrightarrow>
     foldR HeightChanges_commit (drop m cs) (current (b, take m vs)) = Inr (current (b, vs))"
proof (induction cs b vs arbitrary: m rule: replays.induct)
  case (3 hc cs b v vs)
  have hc: "HeightChanges_commit hc b = Inr (snd v)"
    using 3 by (simp add: HeightChanges_commit_def undone_def)
  show ?case
  proof (cases m)
    case 0
    with 3 3(1) [of 0] hc show ?thesis by (cases vs) auto
  next
    case (Suc k)
    with 3 3(1) [of k] show ?thesis by (cases "take k vs"; cases vs) auto
  qed
qed auto

text \<open>Consecutive blocks: the heights of the recorded changes end at the best height, step 1.\<close>

definition contiguous :: "'s History \<Rightarrow> bool" where
  "contiguous h \<longleftrightarrow> (\<forall>i < length (changes h).
     unat (hc_height (changes h ! i)) + length (changes h) = unat (height h) + Suc i)"

lemma contiguous_takeWhile:
  assumes "tracks (h, s) (b, vs)" and "contiguous h" and "ht \<le> height h"
    and "unat (height h) \<le> unat ht + length vs"
  shows "takeWhile (\<lambda>v. fst v \<le> ht) vs = take (length vs - (unat (height h) - unat ht)) vs"
proof -
  let ?m = "length vs - (unat (height h) - unat ht)"
  have len: "length (changes h) = length vs"
    using assms(1) by (auto dest: tracks_length)
  have hts: "fst (vs ! i) = hc_height (changes h ! i)" if "i < length vs" for i
    using assms(1) that len replays_heights [of "changes h" b vs]
    by (auto simp: tracks_def) (metis nth_map)
  have at: "fst (vs ! i) \<le> ht \<longleftrightarrow> i < ?m" if "i < length vs" for i
  proof -
    have "unat (fst (vs ! i)) + length vs = unat (height h) + Suc i"
      using assms(2) that len hts [OF that] by (simp add: contiguous_def)
    moreover have "unat ht \<le> unat (height h)"
      using assms(3) by (simp add: word_le_nat_alt)
    ultimately show ?thesis
      using assms(4) by (auto simp: word_le_nat_alt)
  qed
  show ?thesis
    by (rule takeWhile_eq_take_P_nth) (use at in auto)
qed

lemma SeekTo_tracks:
  assumes tr: "tracks (h, s) t" and "seekHeight h = height h" and ct: "contiguous h"
    and le: "ht \<le> height h" and lim: "unat (height h) \<le> unat ht + length (changes h)"
  shows "History_SeekTo ht (h, s) = Inr (None, h\<lparr>seekHeight := ht\<rparr>, current (tl_rollback ht t))"
proof -
  obtain b vs where t: "t = (b, vs)" by (cases t)
  have rep: "replays (changes h) b vs" and s: "s = current (b, vs)"
    using tr by (auto simp: tracks_def t)
  have len: "length (changes h) = length vs" "length vs \<le> unat (height h)"
    using tracks_length [of h s b vs] tr t by auto
  let ?n = "unat (height h) - unat ht"
  have n: "?n \<le> length vs" "unat ht \<le> unat (height h)"
    using lim len le by (auto simp: word_le_nat_alt)
  have "unat (height h) < 2 ^ LENGTH(32)" by (rule unsigned_less)
  then have small: "unat (word_of_nat (length (changes h)) :: u32) = length vs"
    using len by (simp add: unat_of_nat)
  have "unat (height h - word_of_nat (length (changes h))) = unat (height h) - length vs"
    using small len by (simp add: unat_sub word_le_nat_alt)
  then have ok: "\<not> ht < height h - word_of_nat (length (changes h))"
    using lim len by (simp add: word_less_nat_alt)
  have "rollbackLast ?n (changes h) s = Inr (current (b, take (length vs - ?n) vs))"
    using rollback_suffix [OF rep, of "length vs - ?n"] n len s
    by (simp add: rollbackLast_def)
  also have "take (length vs - ?n) vs = takeWhile (\<lambda>v. fst v \<le> ht) vs"
    using contiguous_takeWhile [of h s b vs ht] tr ct le lim len t by simp
  finally have rb: "rollbackLast ?n (changes h) s = Inr (current (tl_rollback ht t))"
    by (simp add: t)
  have "int (unat (height h)) - int (unat ht) = int ?n"
    using n by simp
  with ok rb assms(2) show ?thesis
    by (simp add: History_SeekTo_def Let_def del: of_nat_unat of_nat_diff)
qed

text \<open>
  The first SeekTo shows the past. After a run of blocks that can be undone and of rollbacks, when the
  history is at its best height (no seek is in effect) and the recorded blocks have consecutive heights
  up to the best one, SeekTo a height no further back than the recorded blocks succeeds, changes nothing
  of the history but the seek height, and gives the state of that height. (A second seek without a commit
  between them does not: see \<open>history_second_seek_wrong\<close>.)
\<close>

theorem history_seek_shows_past:
  assumes "hist_run cap s0 (h, s) t" and "0 < cap" and "seekHeight h = height h" and "contiguous h"
    and "ht \<le> height h" and "unat (height h) \<le> unat ht + length (changes h)"
  shows "History_SeekTo ht (h, s) = Inr (None, h\<lparr>seekHeight := ht\<rparr>, current (tl_rollback ht t))"
  using hist_run_tracks [OF assms(1,2)] assms(3-) by (blast intro: SeekTo_tracks)

theorem history_seek_shows_past_witness:
  "History_SeekTo 2 (\<lparr>capacity = 10, height = 3,
       changes = [\<lparr>hc_height = 3, hc_changes = [addChange 5]\<rparr>],
       cachedChanges = None, tempChanges = [], seekHeight = 3\<rparr>, 5) =
   Inr (None, \<lparr>capacity = 10, height = 3,
       changes = [\<lparr>hc_height = 3, hc_changes = [addChange 5]\<rparr>],
       cachedChanges = None, tempChanges = [], seekHeight = 2\<rparr>, 0)"
  using history_seek_shows_past [OF sample_run, of 2] by (simp add: contiguous_def)

lemma commit_ignores_seek:
  assumes "tempChanges h = []" and "cachedChanges h = None" and "height h < nxt"
    and "commitFrom (int (length (changes h)) - int (unat (height h - ht))) (changes h) s' = Inr s"
    and "seekHeight h = height h"
  shows "bindR (foldR (History_Append nxt) cs (h\<lparr>seekHeight := ht\<rparr>, s')) (History_Commit nxt) =
    bindR (foldR (History_Append nxt) cs (h, s)) (History_Commit nxt)"
proof -
  have nxt: "0 < nxt" by (rule le_less_trans [OF word_zero_le assms(3)])
  have none: "commitFrom (int (length (changes h)) - int (unat (height h - seekHeight h))) (changes h) s = Inr s"
    using assms(5) by (simp add: commitFrom_def)
  have commit: "History_Commit nxt (h\<lparr>seekHeight := ht, cachedChanges := c\<rparr>, s') = History_Commit nxt (h\<lparr>cachedChanges := c\<rparr>, s)" for c
    unfolding History_Commit_def using assms(1,4) none
    by (simp add: Let_def del: of_nat_unat split: option.splits)
  have "History_Commit nxt (h\<lparr>seekHeight := ht\<rparr>, s') = History_Commit nxt (h, s)"
    unfolding History_Commit_def using assms(1,4) none
    by (simp add: Let_def del: of_nat_unat split: option.splits)
  then show ?thesis
    using commit [of "Some \<lparr>hc_height = nxt, hc_changes = cs\<rparr>"] assms(1-3) nxt
      Append_block [of h nxt cs s] Append_block [of "h\<lparr>seekHeight := ht\<rparr>" nxt cs s']
    by simp
qed

text \<open>
  One seek is undone by the next block. Under the conditions of the first seek above (a run of blocks
  that can be undone and of rollbacks, no seek in effect, consecutive recorded heights, a height no further
  back than the recorded blocks), appending the changes of the next block, none or any, and committing them
  above the best height gives after the seek exactly the history and the state it gives without it.
\<close>

theorem history_commit_after_seek:
  assumes "hist_run cap s0 (h, s) t" and "0 < cap" and "seekHeight h = height h" and "contiguous h"
    and "ht \<le> height h" and "unat (height h) \<le> unat ht + length (changes h)"
    and "History_SeekTo ht (h, s) = Inr (None, h', s')" and "height h < nxt"
  shows "bindR (foldR (History_Append nxt) cs (h', s')) (History_Commit nxt) =
    bindR (foldR (History_Append nxt) cs (h, s)) (History_Commit nxt)"
proof -
  obtain b vs where t: "t = (b, vs)" by (cases t)
  have tr: "tracks (h, s) t" using hist_run_tracks [OF assms(1,2)] by simp
  then have rep: "replays (changes h) b vs" and s: "s = current (b, vs)" and none: "tempChanges h = []" "cachedChanges h = None"
    by (auto simp: tracks_def t)
  have len: "length (changes h) = length vs" using tracks_length [of h s b vs] tr t by simp
  from SeekTo_tracks [OF tr assms(3-6)] assms(7)
  have h': "h' = h\<lparr>seekHeight := ht\<rparr>" and s': "s' = current (b, takeWhile (\<lambda>v. fst v \<le> ht) vs)"
    by (simp_all add: t)
  let ?n = "unat (height h) - unat ht"
  have n: "?n \<le> length vs" "unat (height h - ht) = ?n"
    using assms(5,6) len by (auto simp: unat_sub word_le_nat_alt)
  have "s' = current (b, take (length vs - ?n) vs)"
    using contiguous_takeWhile [of h s b vs ht] tr assms(4-6) len t s' by simp
  then have "foldR HeightChanges_commit (drop (length vs - ?n) (changes h)) s' = Inr s"
    using commit_suffix [OF rep, of "length vs - ?n"] s by simp
  then have "commitFrom (int (length (changes h)) - int (unat (height h - ht))) (changes h) s' = Inr s"
    using n len by (simp add: commitFrom_def nat_diff_distrib')
  then show ?thesis
    unfolding h' by (rule commit_ignores_seek [OF none assms(8) _ assms(3)])
qed

theorem history_commit_after_seek_witness:
  "bindR (foldR (History_Append 4) [addChange 7] (\<lparr>capacity = 10, height = 3,
       changes = [\<lparr>hc_height = 3, hc_changes = [addChange 5]\<rparr>],
       cachedChanges = None, tempChanges = [], seekHeight = 2\<rparr>, 0)) (History_Commit 4) =
   bindR (foldR (History_Append 4) [addChange 7] (\<lparr>capacity = 10, height = 3,
       changes = [\<lparr>hc_height = 3, hc_changes = [addChange 5]\<rparr>],
       cachedChanges = None, tempChanges = [], seekHeight = 3\<rparr>, 5)) (History_Commit 4)"
  by (rule history_commit_after_seek [OF sample_run, where ht = 2])
     (simp_all add: contiguous_def history_eval)

text \<open>
  A second seek starts again from the newest change, whatever the current seek height is: after
  seeking one block back, seeking one further undoes the newest block twice. Of the blocks
  +1, +10, +100 the state of the first is 1, not -89.
\<close>

theorem history_second_seek_wrong:
  "bindR (runBlocks [(2, [addChange 1]), (3, [addChange 10]), (4, [addChange 100])] (NewHistory 10, 0))
     (\<lambda>hs. bindR (History_SeekTo 3 hs) (\<lambda>(_, hs). bindR (History_SeekTo 2 hs)
     (\<lambda>(e, h, s). Inr (e, s)))) = Inr (None, - 89)"
  by (simp add: history_eval)

text \<open>
  Changes that belong to one block and touch the same cell are undone in the order they were made,
  so the state before the block is not restored: here the second change was recorded over the value
  1 the first had set.
\<close>

theorem history_rollback_order_matters:
  "bindR (runBlocks [(2, []), (3, [setChange 0 1, setChange 1 2])] (NewHistory 10, 0))
     (\<lambda>hs. bindR (History_RollbackTo 2 hs) (\<lambda>(h, s). Inr s)) = Inr 1"
  by (simp add: history_eval)

subsection \<open>Temporary changes\<close>

lemma Append_temp:
  "foldR (History_Append 0) cs (h, s) = Inr (h\<lparr>tempChanges := tempChanges h @ cs\<rparr>, s)"
  by (induction cs arbitrary: h) (auto simp: History_Append_def)

text \<open>
  One temporary commit leaves no trace. On a history that holds no temporary changes, append changes
  with height 0 that undo themselves in the order they were made, and commit once: they take effect at
  once, and the first change of the next block finds the history and the state exactly as they were
  before them. (A second temporary commit before the next block does leave a trace: see
  \<open>history_temp_commit_repeats\<close>.)
\<close>

theorem history_temp_changes_transient:
  assumes "tempChanges h = []" and "undone cs s u" and "cs \<noteq> []" and "nxt \<noteq> 0"
    and "foldR (History_Append 0) cs (h, s) = Inr hs" and "History_Commit ht hs = Inr (h', v)"
  shows "v = u \<and> History_Append nxt c (h', v) = History_Append nxt c (h, s)"
proof -
  have hs: "hs = (h\<lparr>tempChanges := cs\<rparr>, s)"
    using assms(1,5) by (simp add: Append_temp)
  with assms(2,3,6) have hv: "h' = h\<lparr>tempChanges := cs\<rparr>" "v = u"
    by (auto simp: History_Commit_def undone_def)
  have "resetTemp (h', v) = resetTemp (h, s)"
    using assms(1-3) hv by (simp add: resetTemp_def undone_def)
  with hv(2) assms(4) show ?thesis by (simp add: History_Append_def)
qed

theorem history_temp_changes_transient_witness:
  "History_Append 4 (addChange 1) ((NewHistory 10)\<lparr>tempChanges := [addChange 5]\<rparr>, 5) =
   History_Append 4 (addChange 1) (NewHistory 10, 0)"
  by (rule history_temp_changes_transient [where cs = "[addChange 5]" and u = 5 and ht = 3
        and hs = "((NewHistory 10)\<lparr>tempChanges := [addChange 5]\<rparr>, 0)", THEN conjunct2])
     (simp_all add: history_eval undone_def)

text \<open>
  Two temporary commits before the next block execute the first change twice and undo it once: the
  next block starts from a state that is 5 too large.
\<close>

theorem history_temp_commit_repeats:
  "bindR (History_Append 0 (addChange 5) (NewHistory 10, 0)) (\<lambda>hs. bindR (History_Commit 3 hs) (\<lambda>hs.
   bindR (History_Append 0 (addChange 7) hs) (\<lambda>hs. bindR (History_Commit 3 hs) (\<lambda>hs.
   bindR (History_Append 4 (addChange 1) hs) (\<lambda>(h, s). Inr s))))) = Inr 5"
  by (simp add: history_eval)

subsection \<open>Bounds\<close>



end
