(* ===== verification/DposChange.thy ===== *)
theory DposChange
  imports KeyFrame History
begin

section \<open>The changes of the DPoS state: dpos/state/state.go\<close>

text \<open>
  The running DPoS state and the changes its transactions make. The producer maps of the code hold
  pointers: one producer object may be in two maps (a pending producer that is canceled), and the
  closures of the history keep the object they were made for. So the live state has a store of
  producer objects (\<open>objects\<close>, the first \<open>allocated\<close> of them in use) and its maps hold references.

  Every pair of closures that the code gives to \<^verbatim>\<open>history.Append\<close> is a constructor of \<open>DposChange\<close>, with
  the captured variables as arguments; \<open>executeChange\<close> and \<open>rollbackChange\<close> are the bodies.
\<close>

record State = "nat StateKeyFrame" +
  objects :: "nat \<Rightarrow> Producer"
  allocated :: nat

definition modifyProducer :: "nat \<Rightarrow> (Producer \<Rightarrow> Producer) \<Rightarrow> State \<Rightarrow> State" where
  "modifyProducer p f s = s\<lparr>objects := (objects s)(p := f (objects s p))\<rparr>"

subsection \<open>Parameters\<close>

text \<open>
  The chain parameters of \<^verbatim>\<open>config.Params\<close> that the state reads.
\<close>

record Params =
  PublicDPOSHeight :: u32
  CRVotingStartHeight :: u32
  EnableActivateIllegalHeight :: u32
  VoteStatisticsHeight :: u32
  GeneralArbiters :: int
  MaxInactiveRounds :: u32
  InactivePenalty :: Fixed64
  EmergencyInactivePenalty :: Fixed64

text \<open>
  What the state is given from outside: the callbacks it is constructed with, the digest
  \<^verbatim>\<open>common.Hash\<close>, the digest behind an address (RIPEMD-160 of SHA-256), and the order
  in which \<^verbatim>\<open>range\<close> visits a map. \<open>getTxReference\<close> maps the position of an input to the output it
  spends, as the code's map is keyed by the input's pointer.
\<close>

record Env =
  chainParams :: Params
  getArbiters :: "bytes list"
  getProducerDepositAmount :: "Uint168 \<Rightarrow> Fixed64 option"
  getTxReference :: "Transaction \<Rightarrow> (nat \<Rightarrow> Output option) option"
  hashOf :: "bytes \<Rightarrow> Uint256"
  hash160 :: "bytes \<Rightarrow> bytes"
  ord :: "string set \<Rightarrow> string list"

subsection \<open>Lookups\<close>

definition getProducerKey :: "bytes \<Rightarrow> ('p, 'a) StateKeyFrame_scheme \<Rightarrow> string" where
  "getProducerKey publicKey s =
     (let key = hexEncodeToString publicKey in
      case NodeOwnerKeys s key of Some owner \<Rightarrow> owner | None \<Rightarrow> key)"

definition getProducerByOwnerPublicKey :: "string \<Rightarrow> ('p, 'a) StateKeyFrame_scheme \<Rightarrow> 'p option" where
  "getProducerByOwnerPublicKey key s =
     (case ActivityProducers s key of Some p \<Rightarrow> Some p | None \<Rightarrow>
      case CanceledProducers s key of Some p \<Rightarrow> Some p | None \<Rightarrow>
      case IllegalProducers s key of Some p \<Rightarrow> Some p | None \<Rightarrow>
      case PendingProducers s key of Some p \<Rightarrow> Some p | None \<Rightarrow>
      case InactiveProducers s key of Some p \<Rightarrow> Some p | None \<Rightarrow> None)"

definition getProducer :: "bytes \<Rightarrow> ('p, 'a) StateKeyFrame_scheme \<Rightarrow> 'p option" where
  "getProducer publicKey s = getProducerByOwnerPublicKey (getProducerKey publicKey s) s"

subsection \<open>The bodies shared by several changes\<close>

definition updateProducerInfo :: "ProducerInfo \<Rightarrow> ProducerInfo \<Rightarrow> State \<Rightarrow> State res" where
  "updateProducerInfo origin update s =
     (let producer = getProducer (info_OwnerPublicKey origin) s;
          s1 = (if info_NickName origin \<noteq> info_NickName update
                then s\<lparr>Nicknames := insert (info_NickName update) (Nicknames s - {info_NickName origin})\<rparr>
                else s);
          s2 = (if info_NodePublicKey origin \<noteq> info_NodePublicKey update
                then s1\<lparr>NodeOwnerKeys := (NodeOwnerKeys s1)
                       (hexEncodeToString (info_NodePublicKey origin) := None,
                        hexEncodeToString (info_NodePublicKey update) \<mapsto>
                          hexEncodeToString (info_OwnerPublicKey origin))\<rparr>
                else s1)
      in case producer of
           None \<Rightarrow> Inl NilDereference
         | Some p \<Rightarrow> Inr (modifyProducer p (\<lambda>x. x\<lparr>p_info := update\<rparr>) s2))"

text \<open>Outside the update period of \<^verbatim>\<open>UpdateVersion\<close> going inactive costs a penalty.\<close>

definition penalised :: "u32 \<Rightarrow> State \<Rightarrow> bool" where
  "penalised ht s \<longleftrightarrow> ht < VersionStartHeight s \<or> ht \<ge> VersionEndHeight s"

definition setInactiveProducer :: "Env \<Rightarrow> nat \<Rightarrow> string \<Rightarrow> u32 \<Rightarrow> bool \<Rightarrow> State \<Rightarrow> State" where
  "setInactiveProducer env p key ht emergency s =
     (let s1 = modifyProducer p (\<lambda>x. x\<lparr>inactiveSince := ht, activateRequestHeight := MaxUint32,
                 p_state := Inactive\<rparr>) s;
          s2 = s1\<lparr>InactiveProducers := (InactiveProducers s1)(key \<mapsto> p),
                  ActivityProducers := (ActivityProducers s1)(key := None)\<rparr>
      in if penalised ht s2
         then modifyProducer p (\<lambda>x. x\<lparr>penalty := penalty x +
                (if \<not> emergency then InactivePenalty (chainParams env)
                 else EmergencyInactivePenalty (chainParams env))\<rparr>) s2
         else s2)"

definition revertSettingInactiveProducer :: "Env \<Rightarrow> nat \<Rightarrow> string \<Rightarrow> u32 \<Rightarrow> bool \<Rightarrow> State \<Rightarrow> State" where
  "revertSettingInactiveProducer env p key ht emergency s =
     (let s1 = modifyProducer p (\<lambda>x. x\<lparr>inactiveSince := 0, activateRequestHeight := MaxUint32,
                 p_state := Active\<rparr>) s;
          s2 = s1\<lparr>ActivityProducers := (ActivityProducers s1)(key \<mapsto> p),
                  InactiveProducers := (InactiveProducers s1)(key := None)\<rparr>
      in if penalised ht s2
         then (let pen = (if emergency then EmergencyInactivePenalty (chainParams env)
                          else InactivePenalty (chainParams env)) in
               modifyProducer p (\<lambda>x. x\<lparr>penalty :=
                 if fixed (penalty x) < fixed pen then 0 else penalty x - pen\<rparr>) s2)
         else s2)"

definition tryUpdateInactivity :: "Env \<Rightarrow> string \<Rightarrow> nat \<Rightarrow> bool \<Rightarrow> u32 \<Rightarrow> State \<Rightarrow> State" where
  "tryUpdateInactivity env key p needReset ht s =
     (if needReset then modifyProducer p (\<lambda>x. x\<lparr>inactiveCountingHeight := 0\<rparr>) s
      else
        (let s1 = (if inactiveCountingHeight (objects s p) = 0
                   then modifyProducer p (\<lambda>x. x\<lparr>inactiveCountingHeight := ht\<rparr>) s else s)
         in if ht - inactiveCountingHeight (objects s1 p) \<ge> MaxInactiveRounds (chainParams env)
            then modifyProducer p (\<lambda>x. x\<lparr>inactiveCountingHeight := 0\<rparr>)
                   (setInactiveProducer env p key ht False s1)
            else s1))"

definition tryRevertInactivity :: "Env \<Rightarrow> string \<Rightarrow> nat \<Rightarrow> bool \<Rightarrow> u32 \<Rightarrow> u32 \<Rightarrow> State \<Rightarrow> State" where
  "tryRevertInactivity env key p needReset ht startHeight s =
     (if needReset then modifyProducer p (\<lambda>x. x\<lparr>inactiveCountingHeight := startHeight\<rparr>) s
      else
        (let s1 = (if inactiveCountingHeight (objects s p) = ht
                   then modifyProducer p (\<lambda>x. x\<lparr>inactiveCountingHeight := 0\<rparr>) s else s)
         in if p_state (objects s1 p) = Inactive
            then modifyProducer p (\<lambda>x. x\<lparr>inactiveCountingHeight := startHeight\<rparr>)
                   (revertSettingInactiveProducer env p key ht False s1)
            else s1))"

subsection \<open>Changes\<close>

datatype DposChange =
    Registered string string string nat Uint168 "string \<rightharpoonup> Fixed64"
  | InfoUpdated ProducerInfo ProducerInfo
  | ProducerCanceled string nat bool u32
  | ActivateRequested nat u32
  | VoteRecorded string
  | VotesAdded nat Fixed64
  | VotesSubtracted nat Fixed64
  | DepositInitialised nat Fixed64
  | DepositAdded nat Fixed64
  | DepositReturned nat Fixed64 u32
  | VersionUpdated u32 u32 u32 u32
  | EmergencyInactivated string nat u32
  | SpecialTxRecorded Uint256
  | IllegalFromActive string nat u32
  | IllegalFromCanceled string nat u32
  | ActivatedFromPending string nat
  | ActivatedFromInactive string nat
  | ActivatedFromIllegal string nat
  | InactivityCounted string nat bool u32 u32
  | EmergencyLeft "string set"

fun executeChange :: "Env \<Rightarrow> DposChange \<Rightarrow> State \<Rightarrow> State res" where
  "executeChange env (Registered nickname nodeKey ownerKey p programHash outs) s =
     Inr (s\<lparr>Nicknames := insert nickname (Nicknames s),
            NodeOwnerKeys := (NodeOwnerKeys s)(nodeKey \<mapsto> ownerKey),
            PendingProducers := (PendingProducers s)(ownerKey \<mapsto> p),
            ProducerDepositMap := insert programHash (ProducerDepositMap s),
            DepositOutputs := DepositOutputs s ++ outs\<rparr>)"
| "executeChange env (InfoUpdated origin update) s = updateProducerInfo origin update s"
| "executeChange env (ProducerCanceled key p isPending ht) s =
     (let s1 = modifyProducer p (\<lambda>x. x\<lparr>p_state := Canceled, cancelHeight := ht\<rparr>) s;
          s2 = s1\<lparr>CanceledProducers := (CanceledProducers s1)(key \<mapsto> p)\<rparr>;
          s3 = (if isPending
                then s2\<lparr>PendingProducers := (PendingProducers s2)(key := None),
                        PendingCanceledProducers := (PendingCanceledProducers s2)(key \<mapsto> p)\<rparr>
                else s2\<lparr>ActivityProducers := (ActivityProducers s2)(key := None)\<rparr>)
      in Inr (s3\<lparr>Nicknames := Nicknames s3 - {info_NickName (p_info (objects s3 p))}\<rparr>))"
| "executeChange env (ActivateRequested p ht) s =
     Inr (modifyProducer p (\<lambda>x. x\<lparr>activateRequestHeight := ht\<rparr>) s)"
| "executeChange env (VoteRecorded key) s = Inr (s\<lparr>Votes := insert key (Votes s)\<rparr>)"
| "executeChange env (VotesAdded p v) s = Inr (modifyProducer p (\<lambda>x. x\<lparr>votes := votes x + v\<rparr>) s)"
| "executeChange env (VotesSubtracted p v) s = Inr (modifyProducer p (\<lambda>x. x\<lparr>votes := votes x - v\<rparr>) s)"
| "executeChange env (DepositInitialised p v) s = Inr (modifyProducer p (\<lambda>x. x\<lparr>depositAmount := v\<rparr>) s)"
| "executeChange env (DepositAdded p v) s =
     Inr (modifyProducer p (\<lambda>x. x\<lparr>depositAmount := depositAmount x + v\<rparr>) s)"
| "executeChange env (DepositReturned p v ht) s =
     Inr (modifyProducer p (\<lambda>x. x\<lparr>p_state := Returned\<rparr>)
       (if ht \<ge> CRVotingStartHeight (chainParams env)
        then modifyProducer p (\<lambda>x. x\<lparr>depositAmount := depositAmount x - v\<rparr>) s else s))"
| "executeChange env (VersionUpdated start end' oriStart oriEnd) s =
     Inr (s\<lparr>VersionStartHeight := start, VersionEndHeight := end'\<rparr>)"
| "executeChange env (EmergencyInactivated key p ht) s =
     (let s1 = setInactiveProducer env p key ht True s
      in Inr (s1\<lparr>EmergencyInactiveArbiters := insert key (EmergencyInactiveArbiters s1)\<rparr>))"
| "executeChange env (SpecialTxRecorded hash) s =
     Inr (s\<lparr>SpecialTxHashes := insert hash (SpecialTxHashes s)\<rparr>)"
| "executeChange env (IllegalFromActive key p ht) s =
     (let s1 = modifyProducer p (\<lambda>x. x\<lparr>p_state := Illegal, illegalHeight := ht,
                 activateRequestHeight := MaxUint32\<rparr>) s
      in Inr (s1\<lparr>IllegalProducers := (IllegalProducers s1)(key \<mapsto> p),
                 ActivityProducers := (ActivityProducers s1)(key := None),
                 Nicknames := Nicknames s1 - {info_NickName (p_info (objects s1 p))}\<rparr>))"
| "executeChange env (IllegalFromCanceled key p ht) s =
     (let s1 = modifyProducer p (\<lambda>x. x\<lparr>p_state := Illegal, illegalHeight := ht\<rparr>) s
      in Inr (s1\<lparr>IllegalProducers := (IllegalProducers s1)(key \<mapsto> p),
                 CanceledProducers := (CanceledProducers s1)(key := None),
                 Nicknames := Nicknames s1 - {info_NickName (p_info (objects s1 p))}\<rparr>))"
| "executeChange env (ActivatedFromPending key p) s =
     (let s1 = modifyProducer p (\<lambda>x. x\<lparr>p_state := Active\<rparr>) s
      in Inr (s1\<lparr>ActivityProducers := (ActivityProducers s1)(key \<mapsto> p),
                 PendingProducers := (PendingProducers s1)(key := None)\<rparr>))"
| "executeChange env (ActivatedFromInactive key p) s =
     (let s1 = modifyProducer p (\<lambda>x. x\<lparr>p_state := Active\<rparr>) s
      in Inr (s1\<lparr>ActivityProducers := (ActivityProducers s1)(key \<mapsto> p),
                 InactiveProducers := (InactiveProducers s1)(key := None)\<rparr>))"
| "executeChange env (ActivatedFromIllegal key p) s =
     (let s1 = modifyProducer p (\<lambda>x. x\<lparr>p_state := Active\<rparr>) s
      in Inr (s1\<lparr>ActivityProducers := (ActivityProducers s1)(key \<mapsto> p),
                 IllegalProducers := (IllegalProducers s1)(key := None)\<rparr>))"
| "executeChange env (InactivityCounted key p needReset ht countingHeight) s =
     Inr (tryUpdateInactivity env key p needReset ht s)"
| "executeChange env (EmergencyLeft oriArbiters) s = Inr (s\<lparr>EmergencyInactiveArbiters := {}\<rparr>)"

fun rollbackChange :: "Env \<Rightarrow> DposChange \<Rightarrow> State \<Rightarrow> State res" where
  "rollbackChange env (Registered nickname nodeKey ownerKey p programHash outs) s =
     Inr (s\<lparr>Nicknames := Nicknames s - {nickname},
            NodeOwnerKeys := (NodeOwnerKeys s)(nodeKey := None),
            PendingProducers := (PendingProducers s)(ownerKey := None),
            ProducerDepositMap := ProducerDepositMap s - {programHash},
            DepositOutputs := (\<lambda>k. if k \<in> dom outs then None else DepositOutputs s k)\<rparr>)"
| "rollbackChange env (InfoUpdated origin update) s = updateProducerInfo update origin s"
| "rollbackChange env (ProducerCanceled key p isPending ht) s =
     (let s1 = modifyProducer p (\<lambda>x. x\<lparr>cancelHeight := 0\<rparr>) s;
          s2 = s1\<lparr>CanceledProducers := (CanceledProducers s1)(key := None)\<rparr>;
          s3 = (if isPending
                then (modifyProducer p (\<lambda>x. x\<lparr>p_state := Pending\<rparr>) s2)
                       \<lparr>PendingProducers := (PendingProducers s2)(key \<mapsto> p),
                        PendingCanceledProducers := (PendingCanceledProducers s2)(key := None)\<rparr>
                else (modifyProducer p (\<lambda>x. x\<lparr>p_state := Active\<rparr>) s2)
                       \<lparr>ActivityProducers := (ActivityProducers s2)(key \<mapsto> p)\<rparr>)
      in Inr (s3\<lparr>Nicknames := insert (info_NickName (p_info (objects s3 p))) (Nicknames s3)\<rparr>))"
| "rollbackChange env (ActivateRequested p ht) s =
     Inr (modifyProducer p (\<lambda>x. x\<lparr>activateRequestHeight := MaxUint32\<rparr>) s)"
| "rollbackChange env (VoteRecorded key) s = Inr (s\<lparr>Votes := Votes s - {key}\<rparr>)"
| "rollbackChange env (VotesAdded p v) s = Inr (modifyProducer p (\<lambda>x. x\<lparr>votes := votes x - v\<rparr>) s)"
| "rollbackChange env (VotesSubtracted p v) s = Inr (modifyProducer p (\<lambda>x. x\<lparr>votes := votes x + v\<rparr>) s)"
| "rollbackChange env (DepositInitialised p v) s = Inr (modifyProducer p (\<lambda>x. x\<lparr>depositAmount := 0\<rparr>) s)"
| "rollbackChange env (DepositAdded p v) s =
     Inr (modifyProducer p (\<lambda>x. x\<lparr>depositAmount := depositAmount x - v\<rparr>) s)"
| "rollbackChange env (DepositReturned p v ht) s =
     Inr (modifyProducer p (\<lambda>x. x\<lparr>p_state := Canceled\<rparr>)
       (if ht \<ge> CRVotingStartHeight (chainParams env)
        then modifyProducer p (\<lambda>x. x\<lparr>depositAmount := depositAmount x + v\<rparr>) s else s))"
| "rollbackChange env (VersionUpdated start end' oriStart oriEnd) s =
     Inr (s\<lparr>VersionStartHeight := oriStart, VersionEndHeight := oriEnd\<rparr>)"
| "rollbackChange env (EmergencyInactivated key p ht) s =
     (let s1 = revertSettingInactiveProducer env p key ht True s
      in Inr (s1\<lparr>EmergencyInactiveArbiters := EmergencyInactiveArbiters s1 - {key}\<rparr>))"
| "rollbackChange env (SpecialTxRecorded hash) s =
     Inr (s\<lparr>SpecialTxHashes := SpecialTxHashes s - {hash}\<rparr>)"
| "rollbackChange env (IllegalFromActive key p ht) s =
     (let s1 = modifyProducer p (\<lambda>x. x\<lparr>p_state := Active, illegalHeight := 0,
                 activateRequestHeight := MaxUint32\<rparr>) s
      in Inr (s1\<lparr>ActivityProducers := (ActivityProducers s1)(key \<mapsto> p),
                 IllegalProducers := (IllegalProducers s1)(key := None),
                 Nicknames := insert (info_NickName (p_info (objects s1 p))) (Nicknames s1)\<rparr>))"
| "rollbackChange env (IllegalFromCanceled key p ht) s =
     (let s1 = modifyProducer p (\<lambda>x. x\<lparr>p_state := Canceled, illegalHeight := 0\<rparr>) s
      in Inr (s1\<lparr>CanceledProducers := (CanceledProducers s1)(key \<mapsto> p),
                 IllegalProducers := (IllegalProducers s1)(key := None),
                 Nicknames := insert (info_NickName (p_info (objects s1 p))) (Nicknames s1)\<rparr>))"
| "rollbackChange env (ActivatedFromPending key p) s =
     (let s1 = modifyProducer p (\<lambda>x. x\<lparr>p_state := Pending\<rparr>) s
      in Inr (s1\<lparr>PendingProducers := (PendingProducers s1)(key \<mapsto> p),
                 ActivityProducers := (ActivityProducers s1)(key := None)\<rparr>))"
| "rollbackChange env (ActivatedFromInactive key p) s =
     (let s1 = modifyProducer p (\<lambda>x. x\<lparr>p_state := Inactive\<rparr>) s
      in Inr (s1\<lparr>InactiveProducers := (InactiveProducers s1)(key \<mapsto> p),
                 ActivityProducers := (ActivityProducers s1)(key := None)\<rparr>))"
| "rollbackChange env (ActivatedFromIllegal key p) s =
     (let s1 = modifyProducer p (\<lambda>x. x\<lparr>p_state := Illegal\<rparr>) s
      in Inr (s1\<lparr>IllegalProducers := (IllegalProducers s1)(key \<mapsto> p),
                 ActivityProducers := (ActivityProducers s1)(key := None)\<rparr>))"
| "rollbackChange env (InactivityCounted key p needReset ht countingHeight) s =
     Inr (tryRevertInactivity env key p needReset ht countingHeight s)"
| "rollbackChange env (EmergencyLeft oriArbiters) s =
     Inr (s\<lparr>EmergencyInactiveArbiters := oriArbiters\<rparr>)"

definition closures :: "Env \<Rightarrow> DposChange \<Rightarrow> State change" where
  "closures env c = \<lparr>execute = executeChange env c, rollback = rollbackChange env c\<rparr>"

subsection \<open>Undoing a change\<close>

text \<open>
  When a change can be undone: the state in which its closures are inverse to each other. These are
  the conditions the rollback closures rely on without checking them.
\<close>

definition nickOf :: "nat \<Rightarrow> State \<Rightarrow> string" where
  "nickOf p s = info_NickName (p_info (objects s p))"

fun change_ok :: "Env \<Rightarrow> DposChange \<Rightarrow> State \<Rightarrow> bool" where
  "change_ok env (Registered nickname nodeKey ownerKey p programHash outs) s \<longleftrightarrow>
     nickname \<notin> Nicknames s \<and> NodeOwnerKeys s nodeKey = None \<and> PendingProducers s ownerKey = None \<and>
     programHash \<notin> ProducerDepositMap s \<and> dom outs \<inter> dom (DepositOutputs s) = {}"
| "change_ok env (InfoUpdated origin update) s \<longleftrightarrow>
     (let owner = hexEncodeToString (info_OwnerPublicKey origin);
          oldKey = hexEncodeToString (info_NodePublicKey origin);
          newKey = hexEncodeToString (info_NodePublicKey update) in
      (\<exists>p. getProducerByOwnerPublicKey owner s = Some p \<and> p_info (objects s p) = origin) \<and>
      info_OwnerPublicKey update = info_OwnerPublicKey origin \<and>
      NodeOwnerKeys s owner \<in> {None, Some owner} \<and>
      (info_NickName origin \<noteq> info_NickName update \<longrightarrow>
         info_NickName origin \<in> Nicknames s \<and> info_NickName update \<notin> Nicknames s) \<and>
      (oldKey \<noteq> newKey \<longrightarrow> NodeOwnerKeys s oldKey = Some owner \<and> NodeOwnerKeys s newKey = None))"
| "change_ok env (ProducerCanceled key p isPending ht) s \<longleftrightarrow>
     cancelHeight (objects s p) = 0 \<and> CanceledProducers s key = None \<and> nickOf p s \<in> Nicknames s \<and>
     (if isPending
      then p_state (objects s p) = Pending \<and> PendingProducers s key = Some p \<and>
           PendingCanceledProducers s key = None
      else p_state (objects s p) = Active \<and> ActivityProducers s key = Some p)"
| "change_ok env (ActivateRequested p ht) s \<longleftrightarrow> activateRequestHeight (objects s p) = MaxUint32"
| "change_ok env (VoteRecorded key) s \<longleftrightarrow> key \<notin> Votes s"
| "change_ok env (VotesAdded p v) s \<longleftrightarrow> True"
| "change_ok env (VotesSubtracted p v) s \<longleftrightarrow> True"
| "change_ok env (DepositInitialised p v) s \<longleftrightarrow> depositAmount (objects s p) = 0"
| "change_ok env (DepositAdded p v) s \<longleftrightarrow> True"
| "change_ok env (DepositReturned p v ht) s \<longleftrightarrow> p_state (objects s p) = Canceled"
| "change_ok env (VersionUpdated start end' oriStart oriEnd) s \<longleftrightarrow>
     oriStart = VersionStartHeight s \<and> oriEnd = VersionEndHeight s"
| "change_ok env (EmergencyInactivated key p ht) s \<longleftrightarrow>
     p_state (objects s p) = Active \<and> ActivityProducers s key = Some p \<and> InactiveProducers s key = None \<and>
     inactiveSince (objects s p) = 0 \<and> activateRequestHeight (objects s p) = MaxUint32 \<and>
     key \<notin> EmergencyInactiveArbiters s \<and>
     fixed (EmergencyInactivePenalty (chainParams env)) \<le>
       fixed (penalty (objects s p) + EmergencyInactivePenalty (chainParams env))"
| "change_ok env (SpecialTxRecorded hash) s \<longleftrightarrow> hash \<notin> SpecialTxHashes s"
| "change_ok env (IllegalFromActive key p ht) s \<longleftrightarrow>
     p_state (objects s p) = Active \<and> ActivityProducers s key = Some p \<and> IllegalProducers s key = None \<and>
     illegalHeight (objects s p) = 0 \<and> activateRequestHeight (objects s p) = MaxUint32 \<and>
     nickOf p s \<in> Nicknames s"
| "change_ok env (IllegalFromCanceled key p ht) s \<longleftrightarrow>
     p_state (objects s p) = Canceled \<and> CanceledProducers s key = Some p \<and> IllegalProducers s key = None \<and>
     illegalHeight (objects s p) = 0 \<and> nickOf p s \<in> Nicknames s"
| "change_ok env (ActivatedFromPending key p) s \<longleftrightarrow>
     p_state (objects s p) = Pending \<and> PendingProducers s key = Some p \<and> ActivityProducers s key = None"
| "change_ok env (ActivatedFromInactive key p) s \<longleftrightarrow>
     p_state (objects s p) = Inactive \<and> InactiveProducers s key = Some p \<and> ActivityProducers s key = None"
| "change_ok env (ActivatedFromIllegal key p) s \<longleftrightarrow>
     p_state (objects s p) = Illegal \<and> IllegalProducers s key = Some p \<and> ActivityProducers s key = None"
| "change_ok env (InactivityCounted key p needReset ht countingHeight) s \<longleftrightarrow>
     countingHeight = inactiveCountingHeight (objects s p) \<and>
     (\<not> needReset \<longrightarrow> ht \<noteq> 0 \<and> countingHeight \<noteq> ht \<and>
        p_state (objects s p) = Active \<and> ActivityProducers s key = Some p \<and> InactiveProducers s key = None \<and>
        inactiveSince (objects s p) = 0 \<and> activateRequestHeight (objects s p) = MaxUint32 \<and>
        fixed (InactivePenalty (chainParams env)) \<le>
          fixed (penalty (objects s p) + InactivePenalty (chainParams env)))"
| "change_ok env (EmergencyLeft oriArbiters) s \<longleftrightarrow> oriArbiters = EmergencyInactiveArbiters s"


lemma modifyProducer_sels [simp]:
  "NodeOwnerKeys (modifyProducer p f s) = NodeOwnerKeys s"
  "PendingProducers (modifyProducer p f s) = PendingProducers s"
  "ActivityProducers (modifyProducer p f s) = ActivityProducers s"
  "InactiveProducers (modifyProducer p f s) = InactiveProducers s"
  "CanceledProducers (modifyProducer p f s) = CanceledProducers s"
  "IllegalProducers (modifyProducer p f s) = IllegalProducers s"
  "PendingCanceledProducers (modifyProducer p f s) = PendingCanceledProducers s"
  "Votes (modifyProducer p f s) = Votes s"
  "DepositOutputs (modifyProducer p f s) = DepositOutputs s"
  "Nicknames (modifyProducer p f s) = Nicknames s"
  "SpecialTxHashes (modifyProducer p f s) = SpecialTxHashes s"
  "PreBlockArbiters (modifyProducer p f s) = PreBlockArbiters s"
  "ProducerDepositMap (modifyProducer p f s) = ProducerDepositMap s"
  "EmergencyInactiveArbiters (modifyProducer p f s) = EmergencyInactiveArbiters s"
  "VersionStartHeight (modifyProducer p f s) = VersionStartHeight s"
  "VersionEndHeight (modifyProducer p f s) = VersionEndHeight s"
  "objects (modifyProducer p f s) = (objects s)(p := f (objects s p))"
  "allocated (modifyProducer p f s) = allocated s"
  "State.more (modifyProducer p f s) = State.more s"
  by (simp_all add: modifyProducer_def)

lemma setInactive_sels [simp]:
  "NodeOwnerKeys (setInactiveProducer env p key ht e s) = NodeOwnerKeys s"
  "PendingProducers (setInactiveProducer env p key ht e s) = PendingProducers s"
  "ActivityProducers (setInactiveProducer env p key ht e s) = (ActivityProducers s)(key := None)"
  "InactiveProducers (setInactiveProducer env p key ht e s) = (InactiveProducers s)(key \<mapsto> p)"
  "CanceledProducers (setInactiveProducer env p key ht e s) = CanceledProducers s"
  "IllegalProducers (setInactiveProducer env p key ht e s) = IllegalProducers s"
  "PendingCanceledProducers (setInactiveProducer env p key ht e s) = PendingCanceledProducers s"
  "Votes (setInactiveProducer env p key ht e s) = Votes s"
  "DepositOutputs (setInactiveProducer env p key ht e s) = DepositOutputs s"
  "Nicknames (setInactiveProducer env p key ht e s) = Nicknames s"
  "SpecialTxHashes (setInactiveProducer env p key ht e s) = SpecialTxHashes s"
  "PreBlockArbiters (setInactiveProducer env p key ht e s) = PreBlockArbiters s"
  "ProducerDepositMap (setInactiveProducer env p key ht e s) = ProducerDepositMap s"
  "EmergencyInactiveArbiters (setInactiveProducer env p key ht e s) = EmergencyInactiveArbiters s"
  "VersionStartHeight (setInactiveProducer env p key ht e s) = VersionStartHeight s"
  "VersionEndHeight (setInactiveProducer env p key ht e s) = VersionEndHeight s"
  "objects (setInactiveProducer env p key ht e s) = (objects s)(p := (objects s p)\<lparr>
     inactiveSince := ht, activateRequestHeight := MaxUint32, p_state := Inactive,
     penalty := if penalised ht s then penalty (objects s p) +
       (if e then EmergencyInactivePenalty (chainParams env) else InactivePenalty (chainParams env))
       else penalty (objects s p)\<rparr>)"
  "allocated (setInactiveProducer env p key ht e s) = allocated s"
  "State.more (setInactiveProducer env p key ht e s) = State.more s"
  by (simp_all add: setInactiveProducer_def penalised_def Let_def)

lemma revertInactive_sels [simp]:
  "NodeOwnerKeys (revertSettingInactiveProducer env p key ht e s) = NodeOwnerKeys s"
  "PendingProducers (revertSettingInactiveProducer env p key ht e s) = PendingProducers s"
  "ActivityProducers (revertSettingInactiveProducer env p key ht e s) = (ActivityProducers s)(key \<mapsto> p)"
  "InactiveProducers (revertSettingInactiveProducer env p key ht e s) = (InactiveProducers s)(key := None)"
  "CanceledProducers (revertSettingInactiveProducer env p key ht e s) = CanceledProducers s"
  "IllegalProducers (revertSettingInactiveProducer env p key ht e s) = IllegalProducers s"
  "PendingCanceledProducers (revertSettingInactiveProducer env p key ht e s) = PendingCanceledProducers s"
  "Votes (revertSettingInactiveProducer env p key ht e s) = Votes s"
  "DepositOutputs (revertSettingInactiveProducer env p key ht e s) = DepositOutputs s"
  "Nicknames (revertSettingInactiveProducer env p key ht e s) = Nicknames s"
  "SpecialTxHashes (revertSettingInactiveProducer env p key ht e s) = SpecialTxHashes s"
  "PreBlockArbiters (revertSettingInactiveProducer env p key ht e s) = PreBlockArbiters s"
  "ProducerDepositMap (revertSettingInactiveProducer env p key ht e s) = ProducerDepositMap s"
  "EmergencyInactiveArbiters (revertSettingInactiveProducer env p key ht e s) = EmergencyInactiveArbiters s"
  "VersionStartHeight (revertSettingInactiveProducer env p key ht e s) = VersionStartHeight s"
  "VersionEndHeight (revertSettingInactiveProducer env p key ht e s) = VersionEndHeight s"
  "objects (revertSettingInactiveProducer env p key ht e s) = (objects s)(p := (objects s p)\<lparr>
     inactiveSince := 0, activateRequestHeight := MaxUint32, p_state := Active,
     penalty := if penalised ht s then
       (let pen = (if e then EmergencyInactivePenalty (chainParams env) else InactivePenalty (chainParams env)) in
        if fixed (penalty (objects s p)) < fixed pen then 0 else penalty (objects s p) - pen)
       else penalty (objects s p)\<rparr>)"
  "allocated (revertSettingInactiveProducer env p key ht e s) = allocated s"
  "State.more (revertSettingInactiveProducer env p key ht e s) = State.more s"
  by (simp_all add: revertSettingInactiveProducer_def penalised_def Let_def)


lemma getProducer_owner:
  "NodeOwnerKeys s (hexEncodeToString k) \<in> {None, Some (hexEncodeToString k)} \<Longrightarrow>
   getProducer k s = getProducerByOwnerPublicKey (hexEncodeToString k) s"
  by (auto simp: getProducer_def getProducerKey_def)

lemma getProducerByOwner_cong:
  "getProducerByOwnerPublicKey key (s\<lparr>NodeOwnerKeys := m\<rparr>) = getProducerByOwnerPublicKey key s"
  "getProducerByOwnerPublicKey key (s\<lparr>Nicknames := n\<rparr>) = getProducerByOwnerPublicKey key s"
  "getProducerByOwnerPublicKey key (modifyProducer p f s) = getProducerByOwnerPublicKey key s"
  by (simp_all add: getProducerByOwnerPublicKey_def cong: option.case_cong)

definition renamed :: "'a \<Rightarrow> 'a \<Rightarrow> 'a set \<Rightarrow> 'a set" where
  "renamed old new A = (if old \<noteq> new then insert new (A - {old}) else A)"

definition rekeyed :: "'a \<Rightarrow> 'a \<Rightarrow> 'b \<Rightarrow> ('a \<rightharpoonup> 'b) \<Rightarrow> ('a \<rightharpoonup> 'b)" where
  "rekeyed old new v m = (if old \<noteq> new then m(old := None, new \<mapsto> v) else m)"

lemma renamed_undo: "(old \<noteq> new \<longrightarrow> old \<in> A \<and> new \<notin> A) \<Longrightarrow> renamed new old (renamed old new A) = A"
  by (auto simp: renamed_def)

lemma rekeyed_undo: "(old \<noteq> new \<longrightarrow> m old = Some v \<and> m new = None) \<Longrightarrow> rekeyed new old v (rekeyed old new v m) = m"
  by (auto simp: rekeyed_def fun_eq_iff)

lemma updateProducerInfo_eq:
  assumes "getProducer (info_OwnerPublicKey origin) s = Some p"
  shows "updateProducerInfo origin update s = Inr (modifyProducer p (\<lambda>x. x\<lparr>p_info := update\<rparr>)
    (s\<lparr>Nicknames := renamed (info_NickName origin) (info_NickName update) (Nicknames s),
       NodeOwnerKeys := rekeyed (hexEncodeToString (info_NodePublicKey origin))
         (hexEncodeToString (info_NodePublicKey update)) (hexEncodeToString (info_OwnerPublicKey origin))
         (NodeOwnerKeys s)\<rparr>))"
  using assms by (simp add: updateProducerInfo_def Let_def renamed_def rekeyed_def)

lemma info_undone:
  assumes ok: "change_ok env (InfoUpdated origin update) s"
  shows "\<exists>t. updateProducerInfo origin update s = Inr t \<and> updateProducerInfo update origin t = Inr s"
proof -
  let ?owner = "hexEncodeToString (info_OwnerPublicKey origin)"
  obtain p where p: "getProducerByOwnerPublicKey ?owner s = Some p" "p_info (objects s p) = origin"
    and ow: "info_OwnerPublicKey update = info_OwnerPublicKey origin"
    and nk: "NodeOwnerKeys s ?owner \<in> {None, Some ?owner}"
    using ok by (auto simp: Let_def)
  let ?nodes = "rekeyed (hexEncodeToString (info_NodePublicKey origin))
         (hexEncodeToString (info_NodePublicKey update)) ?owner (NodeOwnerKeys s)"
  let ?t = "modifyProducer p (\<lambda>x. x\<lparr>p_info := update\<rparr>)
    (s\<lparr>Nicknames := renamed (info_NickName origin) (info_NickName update) (Nicknames s), NodeOwnerKeys := ?nodes\<rparr>)"
  have g: "getProducer (info_OwnerPublicKey origin) s = Some p"
    using getProducer_owner [OF nk] p(1) by simp
  have "?nodes ?owner \<in> {None, Some ?owner}"
    using nk by (auto simp: rekeyed_def)
  then have g': "getProducer (info_OwnerPublicKey update) ?t = Some p"
    unfolding ow using getProducer_owner [of ?t "info_OwnerPublicKey origin"] p(1)
    by (simp add: getProducerByOwner_cong)
  have "renamed (info_NickName update) (info_NickName origin)
      (renamed (info_NickName origin) (info_NickName update) (Nicknames s)) = Nicknames s"
    using ok by (intro renamed_undo) (simp add: Let_def)
  moreover have "rekeyed (hexEncodeToString (info_NodePublicKey update))
      (hexEncodeToString (info_NodePublicKey origin)) ?owner ?nodes = NodeOwnerKeys s"
    using ok by (intro rekeyed_undo) (simp add: Let_def)
  ultimately have "updateProducerInfo update origin ?t = Inr s"
    unfolding updateProducerInfo_eq [OF g'] ow
    by (simp add: p(2))
  then show ?thesis using updateProducerInfo_eq [OF g] by blast
qed

lemma inactivity_undone:
  assumes ok: "change_ok env (InactivityCounted key p needReset ht start) s"
  shows "tryRevertInactivity env key p needReset ht start (tryUpdateInactivity env key p needReset ht s) = s"
proof (cases needReset)
  case True
  with ok show ?thesis
    by (intro State.equality) (simp_all add: tryUpdateInactivity_def tryRevertInactivity_def)
next
  case False
  with ok have start: "start = inactiveCountingHeight (objects s p)" and ht: "ht \<noteq> 0" "ht \<noteq> start"
    and active: "p_state (objects s p) = Active" "ActivityProducers s key = Some p"
      "InactiveProducers s key = None" "inactiveSince (objects s p) = 0"
      "activateRequestHeight (objects s p) = MaxUint32"
    and pen: "fixed (InactivePenalty (chainParams env)) \<le>
      fixed (penalty (objects s p) + InactivePenalty (chainParams env))"
    by auto
  define s1 where "s1 = (if start = 0 then modifyProducer p (\<lambda>x. x\<lparr>inactiveCountingHeight := ht\<rparr>) s else s)"
  show ?thesis
  proof (cases "ht - inactiveCountingHeight (objects s1 p) \<ge> MaxInactiveRounds (chainParams env)")
    case True
    then have "tryUpdateInactivity env key p False ht s = modifyProducer p (\<lambda>x. x\<lparr>inactiveCountingHeight := 0\<rparr>)
                   (setInactiveProducer env p key ht False s1)"
      by (simp add: tryUpdateInactivity_def s1_def start Let_def)
    with False active pen ht(1) start show ?thesis
      by (intro State.equality) (simp_all add: tryRevertInactivity_def s1_def penalised_def Let_def)
  next
    case no: False
    then have "tryUpdateInactivity env key p False ht s = s1"
      by (simp add: tryUpdateInactivity_def s1_def start Let_def)
    moreover have "tryRevertInactivity env key p False ht start s1 = s"
      using ht active(1) unfolding tryRevertInactivity_def s1_def
      by (cases "start = 0") (simp_all add: start [symmetric] modifyProducer_def)
    ultimately show ?thesis using False by simp
  qed
qed

lemma change_undone:
  assumes ok: "change_ok env c s"
  shows "\<exists>t. executeChange env c s = Inr t \<and> rollbackChange env c t = Inr s"
proof (cases c)
  case (InfoUpdated origin update)
  then show ?thesis using ok info_undone by simp
next
  case (EmergencyInactivated key p ht)
  then show ?thesis using ok
   by (simp add: Let_def penalised_def)
next
  case (InactivityCounted key p needReset ht countingHeight)
  then show ?thesis using inactivity_undone [OF ok [unfolded InactivityCounted]] by simp
next
  case (Registered nickname nodeKey ownerKey p programHash outs)
  then show ?thesis using ok
   by (auto intro!: State.equality simp: fun_eq_iff map_add_def disjoint_iff domIff split: option.splits) 
next
  case (ProducerCanceled key p isPending ht)
  then show ?thesis using ok by (cases isPending) (simp_all add: Let_def nickOf_def insert_absorb remove_insert)
next
  case (IllegalFromActive key p ht)
  then show ?thesis using ok by (simp add: Let_def nickOf_def insert_absorb remove_insert)
next
  case (IllegalFromCanceled key p ht)
  then show ?thesis using ok by (simp add: Let_def nickOf_def insert_absorb remove_insert)
next
  case (VoteRecorded k)
  then show ?thesis using ok by (simp add: insert_remove)
next
  case (SpecialTxRecorded h)
  then show ?thesis using ok by (simp add: insert_remove)
next
  case (DepositReturned p v ht)
  then show ?thesis using ok by (simp add: modifyProducer_def)
qed (use ok in \<open>simp_all add: modifyProducer_def\<close>)
end
