(* ===== verification/DposIndependence.thy ===== *)
theory DposIndependence
  imports DposChange
begin

section \<open>Independent changes of the DPoS state\<close>

text \<open>
  \<^verbatim>\<open>HeightChanges.rollback\<close> undoes the changes of a block first to last, which is right only if
  they do not interfere. Here the state is cut into locations, every change gets the locations it
  reads and writes, and two changes whose writes stay clear of the other's reads are shown to be
  independent in the sense of the history's contract. Votes and deposits are locations of their own,
  and changes that only add to them commute even at the same location.
\<close>

subsection \<open>Locations\<close>

datatype location =
    Node string | PendingAt string | ActivityAt string | InactiveAt string | CanceledAt string
  | IllegalAt string | PendingCanceledAt string | VoteAt string | OutputAt string | NicknameAt string
  | SpecialAt Uint256 | ArbitersBefore | DepositHashAt Uint168 | EmergencyAt string | VersionPeriod
  | VotesOf nat | DepositOf nat | CoreOf nat | Allocation

datatype cell =
    Key "string option" | Ref "nat option" | Member bool | Amount "Fixed64 option" | Keys "string set"
  | Period u32 u32 | Total Fixed64 | Core Producer | Next nat

definition core :: "Producer \<Rightarrow> Producer" where
  "core x = x\<lparr>votes := 0, depositAmount := 0\<rparr>"

fun view :: "location \<Rightarrow> State \<Rightarrow> cell" where
  "view (Node k) s = Key (NodeOwnerKeys s k)"
| "view (PendingAt k) s = Ref (PendingProducers s k)"
| "view (ActivityAt k) s = Ref (ActivityProducers s k)"
| "view (InactiveAt k) s = Ref (InactiveProducers s k)"
| "view (CanceledAt k) s = Ref (CanceledProducers s k)"
| "view (IllegalAt k) s = Ref (IllegalProducers s k)"
| "view (PendingCanceledAt k) s = Ref (PendingCanceledProducers s k)"
| "view (VoteAt k) s = Member (k \<in> Votes s)"
| "view (OutputAt k) s = Amount (DepositOutputs s k)"
| "view (NicknameAt k) s = Member (k \<in> Nicknames s)"
| "view (SpecialAt h) s = Member (h \<in> SpecialTxHashes s)"
| "view ArbitersBefore s = Keys (PreBlockArbiters s)"
| "view (DepositHashAt h) s = Member (h \<in> ProducerDepositMap s)"
| "view (EmergencyAt k) s = Member (k \<in> EmergencyInactiveArbiters s)"
| "view VersionPeriod s = Period (VersionStartHeight s) (VersionEndHeight s)"
| "view (VotesOf p) s = Total (votes (objects s p))"
| "view (DepositOf p) s = Total (depositAmount (objects s p))"
| "view (CoreOf p) s = Core (core (objects s p))"
| "view Allocation s = Next (allocated s)"

lemma producer_cut: "x = y \<longleftrightarrow> core x = core y \<and> votes x = votes y \<and> depositAmount x = depositAmount y"
  by (cases x; cases y) (auto simp: core_def)

text \<open>The locations make up the state.\<close>

lemma state_by_view:
  assumes "\<And>l. view l s = view l t"
  shows "s = t"
proof (intro State.equality)
  show "NodeOwnerKeys s = NodeOwnerKeys t" using assms [of "Node _"] by (simp add: fun_eq_iff)
  show "PendingProducers s = PendingProducers t" using assms [of "PendingAt _"] by (simp add: fun_eq_iff)
  show "ActivityProducers s = ActivityProducers t" using assms [of "ActivityAt _"] by (simp add: fun_eq_iff)
  show "InactiveProducers s = InactiveProducers t" using assms [of "InactiveAt _"] by (simp add: fun_eq_iff)
  show "CanceledProducers s = CanceledProducers t" using assms [of "CanceledAt _"] by (simp add: fun_eq_iff)
  show "IllegalProducers s = IllegalProducers t" using assms [of "IllegalAt _"] by (simp add: fun_eq_iff)
  show "PendingCanceledProducers s = PendingCanceledProducers t"
    using assms [of "PendingCanceledAt _"] by (simp add: fun_eq_iff)
  show "Votes s = Votes t" using assms [of "VoteAt _"] by (simp add: set_eq_iff)
  show "DepositOutputs s = DepositOutputs t" using assms [of "OutputAt _"] by (simp add: fun_eq_iff)
  show "Nicknames s = Nicknames t" using assms [of "NicknameAt _"] by (simp add: set_eq_iff)
  show "SpecialTxHashes s = SpecialTxHashes t" using assms [of "SpecialAt _"] by (simp add: set_eq_iff)
  show "PreBlockArbiters s = PreBlockArbiters t" using assms [of ArbitersBefore] by simp
  show "ProducerDepositMap s = ProducerDepositMap t" using assms [of "DepositHashAt _"] by (simp add: set_eq_iff)
  show "EmergencyInactiveArbiters s = EmergencyInactiveArbiters t"
    using assms [of "EmergencyAt _"] by (simp add: set_eq_iff)
  show "VersionStartHeight s = VersionStartHeight t" using assms [of VersionPeriod] by simp
  show "VersionEndHeight s = VersionEndHeight t" using assms [of VersionPeriod] by simp
  show "objects s = objects t"
  proof
    fix p show "objects s p = objects t p"
      using assms [of "CoreOf p"] assms [of "VotesOf p"] assms [of "DepositOf p"]
        producer_cut [of "objects s p" "objects t p"] by simp
  qed
  show "allocated s = allocated t" using assms [of Allocation] by simp
qed simp

subsection \<open>What a change reads and writes\<close>

definition found :: "ProducerInfo \<Rightarrow> State \<Rightarrow> nat set" where
  "found origin s = set_option (getProducerByOwnerPublicKey (hexEncodeToString (info_OwnerPublicKey origin)) s)"

fun writesTo :: "DposChange \<Rightarrow> State \<Rightarrow> location set" where
  "writesTo (Registered nickname nodeKey ownerKey p programHash outs) s =
     {NicknameAt nickname, Node nodeKey, PendingAt ownerKey, DepositHashAt programHash} \<union> OutputAt ` dom outs"
| "writesTo (InfoUpdated origin update) s =
     {NicknameAt (info_NickName origin), NicknameAt (info_NickName update),
      Node (hexEncodeToString (info_NodePublicKey origin)),
      Node (hexEncodeToString (info_NodePublicKey update))} \<union> CoreOf ` found origin s"
| "writesTo (ProducerCanceled key p isPending ht) s =
     {CoreOf p, CanceledAt key, NicknameAt (nickOf p s)} \<union>
     (if isPending then {PendingAt key, PendingCanceledAt key} else {ActivityAt key})"
| "writesTo (ActivateRequested p ht) s = {CoreOf p}"
| "writesTo (VoteRecorded key) s = {VoteAt key}"
| "writesTo (VotesAdded p v) s = {VotesOf p}"
| "writesTo (VotesSubtracted p v) s = {VotesOf p}"
| "writesTo (DepositInitialised p v) s = {DepositOf p}"
| "writesTo (DepositAdded p v) s = {DepositOf p}"
| "writesTo (DepositReturned p v ht) s = {CoreOf p, DepositOf p}"
| "writesTo (VersionUpdated start end' oriStart oriEnd) s = {VersionPeriod}"
| "writesTo (EmergencyInactivated key p ht) s = {CoreOf p, InactiveAt key, ActivityAt key, EmergencyAt key}"
| "writesTo (SpecialTxRecorded hash) s = {SpecialAt hash}"
| "writesTo (IllegalFromActive key p ht) s =
     {CoreOf p, IllegalAt key, ActivityAt key, NicknameAt (nickOf p s)}"
| "writesTo (IllegalFromCanceled key p ht) s =
     {CoreOf p, IllegalAt key, CanceledAt key, NicknameAt (nickOf p s)}"
| "writesTo (ActivatedFromPending key p) s = {CoreOf p, ActivityAt key, PendingAt key}"
| "writesTo (ActivatedFromInactive key p) s = {CoreOf p, ActivityAt key, InactiveAt key}"
| "writesTo (ActivatedFromIllegal key p) s = {CoreOf p, ActivityAt key, IllegalAt key}"
| "writesTo (InactivityCounted key p needReset ht countingHeight) s = {CoreOf p, InactiveAt key, ActivityAt key}"
| "writesTo (EmergencyLeft oriArbiters) s = range EmergencyAt"

text \<open>Beyond what it writes, a change reads the update period, or the maps it finds a producer in.\<close>

fun consults :: "DposChange \<Rightarrow> location set" where
  "consults (InfoUpdated origin update) =
     (let owner = hexEncodeToString (info_OwnerPublicKey origin) in
      {Node owner, ActivityAt owner, CanceledAt owner, IllegalAt owner, PendingAt owner, InactiveAt owner})"
| "consults (EmergencyInactivated key p ht) = {VersionPeriod}"
| "consults (InactivityCounted key p needReset ht countingHeight) = {VersionPeriod}"
| "consults c = {}"

definition reads :: "DposChange \<Rightarrow> State \<Rightarrow> location set" where
  "reads c s = writesTo c s \<union> consults c"

definition agree :: "location set \<Rightarrow> State \<Rightarrow> State \<Rightarrow> bool" where
  "agree L s t \<longleftrightarrow> (\<forall>l \<in> L. view l s = view l t)"


lemma view_count: "l \<noteq> CoreOf p \<Longrightarrow> view l (modifyProducer p (inactiveCountingHeight_update f) s) = view l s"
  by (cases l) simp_all

lemma view_setInactive:
  "l \<notin> {CoreOf p, InactiveAt key, ActivityAt key} \<Longrightarrow> view l (setInactiveProducer env p key ht e s) = view l s"
  by (cases l) simp_all

lemma writes_inactivity:
  assumes l: "l \<notin> writesTo (InactivityCounted key p needReset ht n) s"
  shows "view l (tryUpdateInactivity env key p needReset ht s) = view l s"
proof -
  define s1 where "s1 = (if inactiveCountingHeight (objects s p) = 0
    then modifyProducer p (\<lambda>x. x\<lparr>inactiveCountingHeight := ht\<rparr>) s else s)"
  have l': "l \<noteq> CoreOf p" "l \<notin> {CoreOf p, InactiveAt key, ActivityAt key}" using l by simp_all
  have "view l s1 = view l s" using view_count [OF l'(1)] by (simp add: s1_def)
  then show ?thesis
    unfolding tryUpdateInactivity_def s1_def [symmetric] Let_def
    using view_count [OF l'(1)] view_setInactive [OF l'(2)] by (simp only: split: if_split) blast
qed

lemma writes_info:
  assumes "getProducer (info_OwnerPublicKey origin) s = Some p" and "found origin s = {p}"
    and "updateProducerInfo origin update s = Inr t" and l: "l \<notin> writesTo (InfoUpdated origin update) s"
  shows "view l t = view l s"
proof -
  have t: "t = modifyProducer p (\<lambda>x. x\<lparr>p_info := update\<rparr>)
    (s\<lparr>Nicknames := renamed (info_NickName origin) (info_NickName update) (Nicknames s),
       NodeOwnerKeys := rekeyed (hexEncodeToString (info_NodePublicKey origin))
         (hexEncodeToString (info_NodePublicKey update)) (hexEncodeToString (info_OwnerPublicKey origin))
         (NodeOwnerKeys s)\<rparr>)"
    using assms(3) updateProducerInfo_eq [OF assms(1)] by simp
  show ?thesis unfolding t using l assms(2) by (cases l) (simp_all add: renamed_def rekeyed_def)
qed

lemma writes_canceled:
  assumes "l \<notin> writesTo (ProducerCanceled key p isPending ht) s"
    and "executeChange env (ProducerCanceled key p isPending ht) s = Inr t"
  shows "view l t = view l s"
proof (cases isPending)
  case True
  with assms(1) assms(2) [symmetric] show ?thesis by (cases l) (simp_all add: nickOf_def Let_def)
next
  case False
  with assms(1) assms(2) [symmetric] show ?thesis by (cases l) (simp_all add: nickOf_def Let_def)
qed

lemma writes_registered:
  assumes "l \<notin> writesTo (Registered nickname nodeKey ownerKey p programHash outs) s"
    and "executeChange env (Registered nickname nodeKey ownerKey p programHash outs) s = Inr t"
  shows "view l t = view l s"
  using assms(1) assms(2) [symmetric]
  by (cases l) (auto simp: map_add_def image_iff domIff split: option.splits)

lemma found_one:
  assumes "change_ok env (InfoUpdated origin update) s"
  shows "\<exists>p. found origin s = {p}"
  using assms by (auto simp: Let_def found_def)

lemma found_producer:
  assumes "change_ok env (InfoUpdated origin update) s" and "found origin s = {p}"
  shows "getProducer (info_OwnerPublicKey origin) s = Some p"
proof -
  have "getProducerByOwnerPublicKey (hexEncodeToString (info_OwnerPublicKey origin)) s = Some p"
    using assms(2) by (cases "getProducerByOwnerPublicKey (hexEncodeToString (info_OwnerPublicKey origin)) s")
      (simp_all add: found_def)
  then show ?thesis using assms(1) getProducer_owner [of s "info_OwnerPublicKey origin"] by (simp add: Let_def)
qed

lemma writes_only:
  assumes ok: "change_ok env c s" and ex: "executeChange env c s = Inr t" and l: "l \<notin> writesTo c s"
  shows "view l t = view l s"
proof (cases c)
  case (InfoUpdated origin update)
  note ok' = ok [unfolded InfoUpdated]
  obtain p where p: "found origin s = {p}" using ok' found_one by blast
  show ?thesis
    using writes_info [OF found_producer [OF ok' p] p] ex l unfolding InfoUpdated executeChange.simps by blast
next
  case (Registered nickname nodeKey ownerKey p programHash outs)
  then show ?thesis using ex l writes_registered by blast
next
  case (InactivityCounted key p needReset ht countingHeight)
  then show ?thesis using ex l writes_inactivity by fastforce
next
  case (ProducerCanceled key p isPending ht)
  then show ?thesis using ex l writes_canceled by blast
next
  case (EmergencyInactivated key p ht)
  then have "l \<notin> {CoreOf p, InactiveAt key, ActivityAt key}" using l by simp
  from view_setInactive [OF this, of env ht True s] show ?thesis
    using l ex [symmetric] EmergencyInactivated by (cases l) (simp_all add: Let_def)
next
  case (ActivateRequested p ht)
  then show ?thesis using l ex [symmetric] by (cases l) (simp_all add: Let_def nickOf_def core_def)
next
  case (VoteRecorded key)
  then show ?thesis using l ex [symmetric] by (cases l) (simp_all add: Let_def nickOf_def core_def)
next
  case (VotesAdded p v)
  then show ?thesis using l ex [symmetric] by (cases l) (simp_all add: Let_def nickOf_def core_def)
next
  case (VotesSubtracted p v)
  then show ?thesis using l ex [symmetric] by (cases l) (simp_all add: Let_def nickOf_def core_def)
next
  case (DepositInitialised p v)
  then show ?thesis using l ex [symmetric] by (cases l) (simp_all add: Let_def nickOf_def core_def)
next
  case (DepositAdded p v)
  then show ?thesis using l ex [symmetric] by (cases l) (simp_all add: Let_def nickOf_def core_def)
next
  case (DepositReturned p v ht)
  then show ?thesis using l ex [symmetric] by (cases l) (simp_all add: Let_def nickOf_def core_def)
next
  case (VersionUpdated a b c d)
  then show ?thesis using l ex [symmetric] by (cases l) (simp_all add: Let_def nickOf_def core_def)
next
  case (SpecialTxRecorded h)
  then show ?thesis using l ex [symmetric] by (cases l) (simp_all add: Let_def nickOf_def core_def)
next
  case (IllegalFromActive key p ht)
  then show ?thesis using l ex [symmetric] by (cases l) (simp_all add: Let_def nickOf_def core_def)
next
  case (IllegalFromCanceled key p ht)
  then show ?thesis using l ex [symmetric] by (cases l) (simp_all add: Let_def nickOf_def core_def)
next
  case (ActivatedFromPending key p)
  then show ?thesis using l ex [symmetric] by (cases l) (simp_all add: Let_def nickOf_def core_def)
next
  case (ActivatedFromInactive key p)
  then show ?thesis using l ex [symmetric] by (cases l) (simp_all add: Let_def nickOf_def core_def)
next
  case (ActivatedFromIllegal key p)
  then show ?thesis using l ex [symmetric] by (cases l) (simp_all add: Let_def nickOf_def core_def)
next
  case (EmergencyLeft ori)
  then show ?thesis using l ex [symmetric] by (cases l) (simp_all add: Let_def nickOf_def core_def)
qed

subsection \<open>What a change does depends on what it reads\<close>

lemma core_eq_iff: "core x = core y \<longleftrightarrow> p_info x = p_info y \<and> p_state x = p_state y \<and>
   registerHeight x = registerHeight y \<and> cancelHeight x = cancelHeight y \<and>
   inactiveCountingHeight x = inactiveCountingHeight y \<and> inactiveSince x = inactiveSince y \<and>
   activateRequestHeight x = activateRequestHeight y \<and> penalty x = penalty y \<and>
   illegalHeight x = illegalHeight y \<and> depositHash x = depositHash y"
  by (cases x; cases y) (auto simp: core_def)

lemma agree_simps [simp]:
  "agree {} s t"
  "agree (insert l L) s t \<longleftrightarrow> view l s = view l t \<and> agree L s t"
  "agree (L \<union> M) s t \<longleftrightarrow> agree L s t \<and> agree M s t"
  "agree (f ` A) s t \<longleftrightarrow> (\<forall>x \<in> A. view (f x) s = view (f x) t)"
  by (auto simp: agree_def)

lemma found_cong:
  assumes "agree (consults (InfoUpdated origin update)) s s'"
  shows "getProducerByOwnerPublicKey (hexEncodeToString (info_OwnerPublicKey origin)) s =
    getProducerByOwnerPublicKey (hexEncodeToString (info_OwnerPublicKey origin)) s'"
  using assms by (simp add: getProducerByOwnerPublicKey_def Let_def cong: option.case_cong)

lemma reads_info:
  assumes a: "agree (reads (InfoUpdated origin update) s) s s'" and ok: "change_ok env (InfoUpdated origin update) s"
  shows "change_ok env (InfoUpdated origin update) s'"
  using a ok found_cong [of origin update s s']
  by (auto simp: reads_def Let_def found_def core_eq_iff)

lemma reads_same:
  assumes a: "agree (reads c s) s s'" and ok: "change_ok env c s"
  shows "change_ok env c s' \<and> writesTo c s' = writesTo c s"
proof (cases c)
  case (InfoUpdated origin update)
  have "agree (consults c) s s'" using a by (simp add: reads_def)
  from found_cong [OF this [unfolded InfoUpdated]] have "writesTo c s' = writesTo c s"
    by (simp add: InfoUpdated found_def)
  then show ?thesis using reads_info a ok unfolding InfoUpdated by blast
next
  case (Registered nickname nodeKey ownerKey p programHash outs)
  with a ok show ?thesis by (force simp: reads_def disjoint_iff domIff)
next
  case (EmergencyLeft ori)
  with a ok show ?thesis by (auto simp: reads_def)
next
  case (ProducerCanceled key p isPending ht)
  with a ok show ?thesis by (cases isPending) (auto simp: reads_def nickOf_def core_eq_iff)
next
  case (IllegalFromActive key p ht)
  with a ok show ?thesis by (auto simp: reads_def nickOf_def core_eq_iff)
next
  case (IllegalFromCanceled key p ht)
  with a ok show ?thesis by (auto simp: reads_def nickOf_def core_eq_iff)
qed (use a ok in \<open>simp_all add: reads_def nickOf_def core_eq_iff\<close>)

lemma result_inactivity:
  assumes "agree (reads (InactivityCounted key p needReset ht n) s) s s'"
  shows "agree (writesTo (InactivityCounted key p needReset ht n) s)
    (tryUpdateInactivity env key p needReset ht s) (tryUpdateInactivity env key p needReset ht s')"
proof (cases "inactiveCountingHeight (objects s p) = 0")
  case True
  with assms show ?thesis by (simp add: reads_def tryUpdateInactivity_def core_eq_iff penalised_def Let_def)
next
  case False
  with assms show ?thesis by (simp add: reads_def tryUpdateInactivity_def core_eq_iff penalised_def Let_def)
qed

lemma result_info:
  assumes a: "agree (reads (InfoUpdated origin update) s) s s'"
    and ok: "change_ok env (InfoUpdated origin update) s"
    and "updateProducerInfo origin update s = Inr t" and "updateProducerInfo origin update s' = Inr t'"
  shows "agree (writesTo (InfoUpdated origin update) s) t t'"
proof -
  obtain p where p: "found origin s = {p}" using ok found_one by blast
  have p': "found origin s' = {p}"
    using a p found_cong [of origin update s s'] by (simp add: found_def reads_def)
  have ok': "change_ok env (InfoUpdated origin update) s'" using reads_info a ok .
  have "core (objects s p) = core (objects s' p)" using a p by (simp add: reads_def)
  then have "core ((objects s p)\<lparr>p_info := update\<rparr>) = core ((objects s' p)\<lparr>p_info := update\<rparr>)"
    by (simp add: core_eq_iff)
  moreover have "agree (writesTo (InfoUpdated origin update) s) s s'"
    using a by (simp add: reads_def)
  ultimately show ?thesis
    using assms(3,4) [symmetric]
    unfolding updateProducerInfo_eq [OF found_producer [OF ok p]]
      updateProducerInfo_eq [OF found_producer [OF ok' p']]
    by (simp add: renamed_def rekeyed_def p)
qed

lemma reads_result:
  assumes a: "agree (reads c s) s s'" and ok: "change_ok env c s"
    and ex: "executeChange env c s = Inr t" "executeChange env c s' = Inr t'"
  shows "agree (writesTo c s) t t'"
proof (cases c)
  case (InfoUpdated origin update)
  show ?thesis using a ok ex unfolding InfoUpdated executeChange.simps by (rule result_info)
next
  case (InactivityCounted key p needReset ht countingHeight)
  with ex have "t = tryUpdateInactivity env key p needReset ht s" "t' = tryUpdateInactivity env key p needReset ht s'"
    by simp_all
  then show ?thesis using result_inactivity a unfolding InactivityCounted by blast
next
  case (Registered nickname nodeKey ownerKey p programHash outs)
  with a ex [symmetric] show ?thesis by (auto simp: reads_def map_add_def split: option.splits)
next
  case (ProducerCanceled key p isPending ht)
  with a ex [symmetric] show ?thesis
    by (cases isPending) (simp_all add: reads_def nickOf_def core_eq_iff Let_def)
qed (use a ex [symmetric] in \<open>simp_all add: reads_def nickOf_def core_eq_iff penalised_def Let_def\<close>)

subsection \<open>Independence\<close>

text \<open>The changes that only add to or subtract from a total.\<close>

fun tallies :: "DposChange \<Rightarrow> bool" where
  "tallies (VotesAdded p v) = True"
| "tallies (VotesSubtracted p v) = True"
| "tallies (DepositAdded p v) = True"
| "tallies c = False"

text \<open>
  A change together with the locations it writes: \<open>writesTo\<close> looks at the state (a canceled producer
  frees the nickname it has), and keeps its value under independent changes.
\<close>

type_synonym footed = "DposChange \<times> location set"

definition foot :: "State \<Rightarrow> DposChange \<Rightarrow> footed" where
  "foot s c = (c, writesTo c s)"

definition applicable :: "Env \<Rightarrow> footed \<Rightarrow> State \<Rightarrow> bool" where
  "applicable env i s \<longleftrightarrow> change_ok env (fst i) s \<and> writesTo (fst i) s = snd i"

definition independent :: "footed \<Rightarrow> footed \<Rightarrow> bool" where
  "independent i j \<longleftrightarrow> tallies (fst i) \<and> tallies (fst j) \<or>
     snd i \<inter> (snd j \<union> consults (fst j)) = {} \<and> snd j \<inter> (snd i \<union> consults (fst i)) = {}"

lemma tallies_ok: "tallies c \<Longrightarrow> change_ok env c s \<and> writesTo c s = writesTo c t"
  by (cases c) simp_all

lemma tallies_form:
  assumes "tallies c"
  shows "\<exists>p a b. \<forall>s. executeChange env c s = Inr (modifyProducer p
    (\<lambda>x. x\<lparr>votes := votes x + a, depositAmount := depositAmount x + b\<rparr>) s)"
proof (cases c)
  case (VotesAdded p v)
  then show ?thesis by (intro exI [of _ p] exI [of _ v] exI [of _ 0]) simp
next
  case (VotesSubtracted p v)
  then show ?thesis by (intro exI [of _ p] exI [of _ "- v"] exI [of _ 0]) simp
next
  case (DepositAdded p v)
  then show ?thesis by (intro exI [of _ p] exI [of _ 0] exI [of _ v]) simp
qed (use assms in simp_all)

lemma tallies_commute:
  assumes "tallies c" and "tallies d"
  shows "bindR (executeChange env c s) (executeChange env d) = bindR (executeChange env d s) (executeChange env c)"
proof -
  obtain p a b where c: "\<And>s. executeChange env c s = Inr (modifyProducer p
    (\<lambda>x. x\<lparr>votes := votes x + a, depositAmount := depositAmount x + b\<rparr>) s)"
    using tallies_form [OF assms(1)] by blast
  obtain q a' b' where d: "\<And>s. executeChange env d s = Inr (modifyProducer q
    (\<lambda>x. x\<lparr>votes := votes x + a', depositAmount := depositAmount x + b'\<rparr>) s)"
    using tallies_form [OF assms(2)] by blast
  show ?thesis
    by (cases "p = q") (simp_all add: c d modifyProducer_def fun_upd_twist ac_simps)
qed

lemma apart_agree:
  assumes "change_ok env d s" and "executeChange env d s = Inr t" and "writesTo d s \<inter> L = {}"
  shows "agree L s t"
  using assms writes_only by (fastforce simp: agree_def)

lemma independent_frame:
  assumes "independent i j" and "applicable env i s" and "applicable env j s"
    and "executeChange env (fst j) s = Inr t"
  shows "applicable env i t"
proof (cases "tallies (fst i)")
  case True
  then show ?thesis using tallies_ok [OF True, of env t s] assms(2) by (simp add: applicable_def)
next
  case False
  then have "agree (reads (fst i) s) s t"
    using assms by (intro apart_agree [of env "fst j"]) (auto simp: independent_def applicable_def reads_def)
  then show ?thesis using reads_same assms(2) by (auto simp: applicable_def)
qed

lemma apart_commute:
  assumes ok: "change_ok env c s" "change_ok env d s"
    and apart: "writesTo c s \<inter> reads d s = {}" "writesTo d s \<inter> reads c s = {}"
  shows "bindR (executeChange env c s) (executeChange env d) = bindR (executeChange env d s) (executeChange env c)"
proof -
  obtain t1 t2 where t: "executeChange env c s = Inr t1" "executeChange env d s = Inr t2"
    using change_undone ok by blast
  have a: "agree (reads d s) s t1" "agree (reads c s) s t2"
    using apart_agree ok t apart by blast+
  have d1: "change_ok env d t1" "writesTo d t1 = writesTo d s" using reads_same a(1) ok(2) by blast+
  have c2: "change_ok env c t2" "writesTo c t2 = writesTo c s" using reads_same a(2) ok(1) by blast+
  obtain u v where uv: "executeChange env d t1 = Inr u" "executeChange env c t2 = Inr v"
    using change_undone d1(1) c2(1) by blast
  have r: "agree (writesTo d s) t2 u" "agree (writesTo c s) t1 v"
    using reads_result a ok t uv by blast+
  have "u = v"
  proof (rule state_by_view)
    fix l
    have W: "writesTo c s \<subseteq> reads c s" "writesTo d s \<subseteq> reads d s" by (simp_all add: reads_def)
    consider "l \<in> writesTo c s" "l \<notin> writesTo d s" | "l \<in> writesTo d s" "l \<notin> writesTo c s"
      | "l \<notin> writesTo c s" "l \<notin> writesTo d s"
      using W apart by blast
    then show "view l u = view l v"
    proof cases
      case 1
      then show ?thesis using writes_only [OF d1(1) uv(1)] d1(2) r(2) by (simp add: agree_def)
    next
      case 2
      then show ?thesis using writes_only [OF c2(1) uv(2)] c2(2) r(1) by (simp add: agree_def)
    next
      case 3
      then show ?thesis
        using writes_only [OF d1(1) uv(1)] writes_only [OF c2(1) uv(2)] d1(2) c2(2)
          writes_only [OF ok(1) t(1)] writes_only [OF ok(2) t(2)] by simp
    qed
  qed
  then show ?thesis using t uv by simp
qed

interpretation dpos: independent_changes "\<lambda>i. closures env (fst i)" "applicable env" independent for env
proof
  fix i s assume "applicable env i s"
  then show "\<exists>t. execute (closures env (fst i)) s = Inr t \<and> rollback (closures env (fst i)) t = Inr s"
    using change_undone by (simp add: applicable_def closures_def)
next
  fix i j s t assume "independent i j" "applicable env i s" "applicable env j s"
    "execute (closures env (fst j)) s = Inr t"
  then show "applicable env i t" using independent_frame by (simp add: closures_def)
next
  fix i j s assume a: "independent i j" "applicable env i s" "applicable env j s"
  then consider "tallies (fst i)" "tallies (fst j)"
    | "writesTo (fst i) s \<inter> reads (fst j) s = {}" "writesTo (fst j) s \<inter> reads (fst i) s = {}"
    unfolding independent_def applicable_def reads_def by blast
  then show "bindR (execute (closures env (fst i)) s) (execute (closures env (fst j))) =
    bindR (execute (closures env (fst j)) s) (execute (closures env (fst i)))"
    using tallies_commute apart_commute a by cases (simp_all add: closures_def applicable_def)
qed (auto simp: independent_def)

text \<open>
  So committing a block of independent changes and rolling it back, in the order of the code, gives
  the state back; the block changes no location but those its changes write, and each of its changes
  has taken effect in the end.
\<close>

lemma closures_sels [simp]: "execute (closures env c) = executeChange env c" "rollback (closures env c) = rollbackChange env c"
  by (simp_all add: closures_def)

abbreviation independentIn :: "State \<Rightarrow> DposChange list \<Rightarrow> bool" where
  "independentIn s cs \<equiv> sorted_wrt (\<lambda>c d. independent (foot s c) (foot s d)) cs"

lemma foots:
  assumes "\<forall>c \<in> set cs. change_ok env c s" and "independentIn s cs"
  shows "\<forall>i \<in> set (map (foot s) cs). applicable env i s" and "sorted_wrt independent (map (foot s) cs)"
    and "map (\<lambda>i. closures env (fst i)) (map (foot s) cs) = map (closures env) cs"
  using assms by (simp_all add: applicable_def foot_def sorted_wrt_map comp_def)

lemma dpos_block_undone:
  assumes "\<forall>c \<in> set cs. change_ok env c s" and "independentIn s cs"
  shows "\<exists>t. undone (map (closures env) cs) s t"
  using dpos.block_undone [OF foots(1,2) [OF assms]] unfolding foots(3) [OF assms] .

lemma dpos_block_effect:
  assumes ok: "\<forall>c \<in> set cs. change_ok env c s" and ind: "independentIn s cs" and c: "c \<in> set cs"
    and t: "foldR execute (map (closures env) cs) s = Inr t"
  shows "\<exists>v. change_ok env c v \<and> executeChange env c v = Inr t"
proof -
  obtain xs ys where cs: "cs = xs @ c # ys" using c by (meson split_list)
  have is': "map (foot s) cs = map (foot s) xs @ foot s c # map (foot s) ys" by (simp add: cs)
  obtain t' v where "foldR execute (map (\<lambda>i. closures env (fst i)) (map (foot s) cs)) s = Inr t'"
    "applicable env (foot s c) v" "execute (closures env (fst (foot s c))) v = Inr t'"
    using dpos.execute_any [of "map (foot s) xs" "foot s c" "map (foot s) ys"] foots(1,2) [OF ok ind]
    unfolding is' by blast
  then show ?thesis
    using t unfolding foots(3) [OF ok ind] by (auto simp: applicable_def foot_def closures_def)
qed

lemma dpos_block_frame:
  assumes "\<forall>c \<in> set cs. change_ok env c s" and "independentIn s cs"
    and "foldR execute (map (closures env) cs) s = Inr t" and "\<forall>c \<in> set cs. l \<notin> writesTo c s"
  shows "view l t = view l s"
  using assms
proof (induction cs arbitrary: s)
  case Nil
  then show ?case by simp
next
  case (Cons c cs)
  obtain u where u: "executeChange env c s = Inr u" and t: "foldR execute (map (closures env) cs) u = Inr t"
    using Cons.prems(3) by auto
  have d: "change_ok env d u \<and> writesTo d u = writesTo d s" if "d \<in> set cs" for d
    using independent_frame [of "foot s d" "foot s c" env s u] that Cons.prems(1,2) u
    by (auto simp: applicable_def foot_def independent_def)
  have "independentIn u cs"
    by (rule sorted_wrt_mono_rel [of cs "\<lambda>c d. independent (foot s c) (foot s d)"])
      (use d Cons.prems(2) in \<open>simp_all add: foot_def\<close>)
  then have "view l t = view l u"
    using d Cons.prems by (intro Cons.IH [OF _ _ t]) auto
  also have "\<dots> = view l s" using writes_only [OF _ u] Cons.prems by simp
  finally show ?case .
qed

end
