(* ===== verification/Curve.thy ===== *)
theory Curve
  imports Prelude
begin

section \<open>Encoded public keys: crypto/encode.go\<close>

text \<open>
  The points of the curve P-256 as the chain stores them: \<^verbatim>\<open>DecodePoint\<close> with the decompression of a
  point from its x coordinate, and \<^verbatim>\<open>EncodePoint\<close>. Big integers are HOL integers; \<open>beVal\<close> and
  \<open>beBytes\<close> are \<^verbatim>\<open>SetBytes\<close> and \<^verbatim>\<open>Bytes\<close> of \<^verbatim>\<open>math/big\<close>, \<open>powMod\<close> is \<^verbatim>\<open>Exp\<close>.

  \<^verbatim>\<open>curveSqrt\<close> has a second branch for primes that are 1 modulo 4, with random Lucas sequences; it is
  only ever called with the parameters of P-256, whose prime is 3 modulo 4, and is modelled for these.
\<close>

subsection \<open>Big integers\<close>

fun beNat :: "bytes \<Rightarrow> nat" where
  "beNat [] = 0"
| "beNat (b # bs) = unat b * 256 ^ length bs + beNat bs"

definition beVal :: "bytes \<Rightarrow> int" where
  "beVal bs = int (beNat bs)"

fun natBytes :: "nat \<Rightarrow> bytes" where
  "natBytes n = (if n = 0 then [] else natBytes (n div 256) @ [word_of_nat (n mod 256)])"

declare natBytes.simps [simp del]

text \<open>The bytes of the absolute value, without leading zeros.\<close>

definition beBytes :: "int \<Rightarrow> bytes" where
  "beBytes n = natBytes (nat \<bar>n\<bar>)"

fun powMod :: "int \<Rightarrow> nat \<Rightarrow> int \<Rightarrow> int" where
  "powMod b e m =
     (if e = 0 then 1 mod m
      else (let h = powMod (b * b mod m) (e div 2) m in if odd e then b * h mod m else h))"

declare powMod.simps [simp del]

lemma beNat_append: "beNat (xs @ ys) = beNat xs * 256 ^ length ys + beNat ys"
  by (induction xs) (simp_all add: power_add algebra_simps)

lemma beNat_less: "beNat bs < 256 ^ length bs"
proof (induction bs)
  case (Cons b bs)
  have "unat b * 256 ^ length bs + 256 ^ length bs \<le> 256 * 256 ^ length bs"
    using unat_u8_less [of b] by (metis Suc_leI mult_Suc mult_le_mono1 add.commute)
  then have "unat b * 256 ^ length bs + beNat bs < 256 * 256 ^ length bs" using Cons by linarith
  then show ?case by simp
qed simp

lemma beNat_natBytes [simp]: "beNat (natBytes n) = n"
proof (induction n rule: natBytes.induct)
  case (1 n)
  then show ?case by (subst natBytes.simps) (simp add: beNat_append unat_of_nat)
qed

lemma length_natBytes_le: "length (natBytes n) \<le> k \<longleftrightarrow> n < 256 ^ k"
proof (induction n arbitrary: k rule: natBytes.induct)
  case (1 n)
  show ?case
  proof (cases "n = 0")
    case False
    show ?thesis
    proof (cases k)
      case (Suc j)
      have "n div 256 < 256 ^ j \<longleftrightarrow> n < 256 ^ Suc j"
        by (simp add: div_less_iff_less_mult mult.commute)
      with 1 False Suc show ?thesis by (subst natBytes.simps) simp
    qed (use False in \<open>subst natBytes.simps, simp\<close>)
  qed (subst natBytes.simps, simp)
qed

lemma natBytes_snoc: "m \<noteq> 0 \<Longrightarrow> natBytes (m * 256 + unat c) = natBytes m @ [c]"
  using unat_u8_less [of c] by (subst natBytes.simps) simp

lemma natBytes_beNat: "b \<noteq> 0 \<Longrightarrow> natBytes (beNat (b # bs)) = b # bs"
proof (induction bs rule: rev_induct)
  case Nil
  then show ?case using unat_u8_less [of b]
    by (subst natBytes.simps, subst natBytes.simps) (simp add: unat_eq_0)
next
  case (snoc c bs)
  have "beNat (b # bs @ [c]) = beNat (b # bs) * 256 + unat c"
    using beNat_append [of "b # bs" "[c]"] by simp
  moreover have "beNat (b # bs) \<noteq> 0"
    using snoc.prems by (simp add: unat_eq_0)
  ultimately show ?case
    using snoc natBytes_snoc [of "beNat (b # bs)" c] by (simp del: beNat.simps)
qed

text \<open>Padding the minimal encoding to the width of a byte string gives the string back.\<close>

lemma natBytes_pad: "replicate (length bs - length (natBytes (beNat bs))) 0 @ natBytes (beNat bs) = bs"
proof (induction bs)
  case Nil
  then show ?case by (subst natBytes.simps, subst natBytes.simps) simp
next
  case (Cons b bs)
  show ?case
  proof (cases "b = 0")
    case True
    have "length (natBytes (beNat bs)) \<le> length bs" by (simp add: length_natBytes_le beNat_less)
    with True Cons show ?thesis by (simp add: Suc_diff_le)
  next
    case False
    then show ?thesis using natBytes_beNat by simp
  qed
qed

lemma powMod_eq: "powMod b e m = b ^ e mod m"
proof (induction b e m rule: powMod.induct)
  case (1 b e m)
  let ?h = "powMod (b * b mod m) (e div 2) m"
  show ?case
  proof (cases "e = 0")
    case False
    have "?h = (b * b mod m) ^ (e div 2) mod m" using 1 False by simp
    also have "\<dots> = (b * b) ^ (e div 2) mod m" by (rule power_mod)
    finally have h: "?h = b ^ (2 * (e div 2)) mod m" by (simp add: power_mult power2_eq_square)
    show ?thesis
    proof (cases "odd e")
      case True
      then have "b ^ e = b * b ^ (2 * (e div 2))" by (metis odd_two_times_div_two_succ power_Suc Suc_eq_plus1)
      then show ?thesis using True False h by (subst powMod.simps) (simp add: Let_def mod_mult_right_eq)
    next
      case even: False
      then show ?thesis using False h by (subst powMod.simps) (simp add: Let_def)
    qed
  qed (simp add: powMod.simps)
qed

subsection \<open>Points\<close>

text \<open>A coordinate is nil in the point at infinity.\<close>

record PublicKey =
  pk_X :: "int option"
  pk_Y :: "int option"

record CurveParams =
  curve_P :: int
  curve_B :: int

text \<open>The parameters of P-256, from the standard library.\<close>

definition DefaultParams :: CurveParams where
  "DefaultParams = \<lparr>
     curve_P = 0xffffffff00000001000000000000000000000000ffffffffffffffffffffffff,
     curve_B = 0x5ac635d8aa3a93e7b3ebbd55769886bc651d06b0cc53b0f63bce3c3e27d2604b\<rparr>"

abbreviation P256PARAMA :: int where "P256PARAMA \<equiv> - 3"

definition isEven :: "int \<Rightarrow> bool" where
  "isEven k \<longleftrightarrow> k mod 2 = 0"

definition curveSqrt :: "int \<Rightarrow> CurveParams \<Rightarrow> int option" where
  "curveSqrt ySquare curve =
     (let tmp1 = drop_bit 2 (curve_P curve) + 1;
          tmp2 = powMod ySquare (nat tmp1) (curve_P curve);
          tmp3 = powMod tmp2 2 (curve_P curve)
      in if tmp3 = ySquare then Some tmp2 else None)"

definition deCompress :: "int \<Rightarrow> bytes \<Rightarrow> CurveParams \<Rightarrow> string + PublicKey" where
  "deCompress yTilde xValue curve =
     (let xCoord = beVal xValue;
          sq0 = powMod xCoord 2 (curve_P curve);
          sq1 = (sq0 + P256PARAMA) mod curve_P curve;
          sq2 = sq1 * xCoord mod curve_P curve;
          ySquare = (sq2 + curve_B curve) mod curve_P curve
      in case curveSqrt ySquare curve of
           None \<Rightarrow> Inl ''invalid point compression''
         | Some yValue \<Rightarrow>
             (let yCoord = (if (isEven yValue \<and> 0 \<noteq> yTilde) \<or> (\<not> isEven yValue \<and> 1 \<noteq> yTilde)
                            then curve_P curve - yValue else yValue)
              in Inr \<lparr>pk_X = Some xCoord, pk_Y = Some yCoord\<rparr>))"

fun bitLen :: "nat \<Rightarrow> nat" where
  "bitLen n = (if n = 0 then 0 else Suc (bitLen (n div 2)))"

declare bitLen.simps [simp del]

definition DecodePoint :: "bytes \<Rightarrow> string + PublicKey" where
  "DecodePoint encodeData =
     (if length encodeData = 0 then Inl ''the encodeData cann't be nil''
      else
        (let expectedLength = (bitLen (nat (curve_P DefaultParams)) + 7) div 8;
             flag = encodeData ! 0 in
         if flag = 0x02 \<or> flag = 0x03 then
           (if length encodeData \<noteq> expectedLength + 1 then Inl ''the encodeData format is error''
            else deCompress (uint (flag AND 1)) (take 32 (drop 1 encodeData)) DefaultParams)
         else if flag = 0x04 \<or> flag = 0x06 \<or> flag = 0x07 then
           (if length encodeData \<noteq> 65 then Inl ''the encodeData format is error''
            else Inr \<lparr>pk_X = Some (beVal (take 32 (drop 1 encodeData))),
                      pk_Y = Some (beVal (take 32 (drop 33 encodeData)))\<rparr>)
         else Inl ''the encodeData format is error''))"

text \<open>\<^verbatim>\<open>copy(dst[off:], src)\<close> for a source that fits.\<close>

definition copyAt :: "nat \<Rightarrow> bytes \<Rightarrow> bytes \<Rightarrow> bytes" where
  "copyAt off src dst = take off dst @ src @ drop (off + length src) dst"

text \<open>A coordinate too long for its place makes the slice bound negative, which panics.\<close>

definition EncodePoint :: "bool \<Rightarrow> PublicKey \<Rightarrow> bytes res" where
  "EncodePoint isCompressed e =
     (case (pk_X e, pk_Y e) of
        (Some x, Some y) \<Rightarrow>
          (let xBytes = beBytes x; yBytes = beBytes y in
           if isCompressed then
             (if length xBytes > 33 then Inl IndexOutOfRange
              else Inr ((copyAt (33 - length xBytes) xBytes (replicate 33 0))[0 := if isEven y then 0x02 else 0x03]))
           else if length yBytes > 65 then Inl IndexOutOfRange
           else if length xBytes > 33 then Inl IndexOutOfRange
           else Inr ((copyAt (33 - length xBytes) xBytes
                       (copyAt (65 - length yBytes) yBytes (replicate 65 0)))[0 := 0x04]))
      | _ \<Rightarrow> Inr [0])"

definition onCurve :: "PublicKey \<Rightarrow> bool" where
  "onCurve pk \<longleftrightarrow> (case (pk_X pk, pk_Y pk) of
     (Some x, Some y) \<Rightarrow> (y * y) mod curve_P DefaultParams =
        (x ^ 3 + P256PARAMA * x + curve_B DefaultParams) mod curve_P DefaultParams
   | _ \<Rightarrow> False)"

subsection \<open>Decoding and encoding\<close>

lemma bitLen_Suc: "2 ^ k \<le> n \<Longrightarrow> n < 2 ^ Suc k \<Longrightarrow> bitLen n = Suc k"
proof (induction k arbitrary: n)
  case 0
  then show ?case by (subst bitLen.simps, subst bitLen.simps) simp
next
  case (Suc k)
  have "2 ^ k \<le> n div 2" "n div 2 < 2 ^ Suc k"
    using Suc.prems by (simp_all add: div_less_iff_less_mult less_eq_div_iff_mult_less_eq)
  moreover have "n \<noteq> 0" using Suc.prems(1) by (metis less_le_trans not_less_zero zero_less_numeral zero_less_power)
  ultimately show ?case using Suc.IH [of "n div 2"] by (subst bitLen.simps) simp
qed

lemma bitLen_P [simp]: "bitLen (nat (curve_P DefaultParams)) = 256"
  using bitLen_Suc [of 255 "nat (curve_P DefaultParams)"] by (simp add: DefaultParams_def)

lemma curve_P_odd [simp]: "odd (curve_P DefaultParams)"
  by (simp add: DefaultParams_def)

lemma curveSqrt_square:
  "curveSqrt v curve = Some y \<Longrightarrow> (y * y) mod curve_P curve = v"
  by (auto simp: curveSqrt_def Let_def powMod_eq power2_eq_square split: if_splits)

lemma deCompress_point:
  assumes "deCompress t xs DefaultParams = Inr pk" and "t = 0 \<or> t = 1"
  obtains y where "pk = \<lparr>pk_X = Some (beVal xs), pk_Y = Some y\<rparr>" and "isEven y \<longleftrightarrow> t = 0" and "onCurve pk"
proof -
  let ?P = "curve_P DefaultParams" and ?x = "beVal xs"
  let ?v = "(((powMod ?x 2 ?P + P256PARAMA) mod ?P) * ?x mod ?P + curve_B DefaultParams) mod ?P"
  obtain y0 where y0: "curveSqrt ?v DefaultParams = Some y0"
    and pk: "pk = \<lparr>pk_X = Some ?x, pk_Y = Some (if (isEven y0 \<and> 0 \<noteq> t) \<or> (\<not> isEven y0 \<and> 1 \<noteq> t)
                            then ?P - y0 else y0)\<rparr>"
    using assms(1) by (auto simp: deCompress_def Let_def split: option.splits)
  define y where "y = (if (isEven y0 \<and> 0 \<noteq> t) \<or> (\<not> isEven y0 \<and> 1 \<noteq> t) then ?P - y0 else y0)"
  have "(?P - y0) * (?P - y0) = y0 * y0 + ?P * (?P - 2 * y0)" by (simp add: algebra_simps)
  then have "(?P - y0) * (?P - y0) mod ?P = y0 * y0 mod ?P" by simp
  then have "y * y mod ?P = ?v" using curveSqrt_square [OF y0] by (simp add: y_def)
  also have "\<dots> = ((?x ^ 2 + P256PARAMA) * ?x + curve_B DefaultParams) mod ?P"
    by (simp only: powMod_eq mod_simps)
  also have "(?x ^ 2 + P256PARAMA) * ?x = ?x ^ 3 + P256PARAMA * ?x"
    by (simp add: algebra_simps power2_eq_square power3_eq_cube)
  finally have "onCurve pk" unfolding onCurve_def pk y_def [symmetric] by simp
  moreover have "isEven y \<longleftrightarrow> t = 0"
    using assms(2) curve_P_odd by (auto simp: y_def isEven_def even_iff_mod_2_eq_zero [symmetric])
  ultimately show thesis using that pk y_def by blast
qed

lemma encode_compressed:
  assumes "length xs = 32"
  shows "EncodePoint True \<lparr>pk_X = Some (beVal xs), pk_Y = Some y\<rparr> = Inr ((if isEven y then 2 else 3) # xs)"
proof -
  let ?b = "natBytes (beNat xs)"
  have le: "length ?b \<le> 32" using beNat_less [of xs] assms by (simp add: length_natBytes_le)
  have "replicate (33 - length ?b) 0 @ ?b = 0 # xs"
    using natBytes_pad [of xs] assms Suc_diff_le [OF le] by simp
  moreover have "copyAt (33 - length ?b) ?b (replicate 33 0) = replicate (33 - length ?b) 0 @ ?b"
    using le by (simp add: copyAt_def)
  ultimately show ?thesis using le by (simp add: EncodePoint_def beBytes_def beVal_def)
qed

text \<open>
  C24. A compressed public key determines the point: whenever \<^verbatim>\<open>DecodePoint\<close> accepts 33 bytes, the
  point lies on the curve and \<^verbatim>\<open>EncodePoint\<close> gives exactly these bytes back.
\<close>

theorem compressed_point_round_trip:
  assumes "DecodePoint bs = Inr pk" and "length bs = 33"
  shows "onCurve pk \<and> EncodePoint True pk = Inr bs"
proof -
  obtain f xs where bs: "bs = f # xs" and xs: "length xs = 32"
    using assms(2) by (cases bs) auto
  have f: "f = 2 \<or> f = 3" and d: "deCompress (uint (f AND 1)) xs DefaultParams = Inr pk"
    using assms bs xs by (auto simp: DecodePoint_def Let_def split: if_splits)
  have "uint (f AND 1) = 0 \<longleftrightarrow> f = 2" "uint (f AND 1) = 0 \<or> uint (f AND 1) = 1"
    using f by auto
  with d obtain y where "pk = \<lparr>pk_X = Some (beVal xs), pk_Y = Some y\<rparr>" "isEven y \<longleftrightarrow> f = 2" "onCurve pk"
    by (metis deCompress_point)
  then show ?thesis using encode_compressed [OF xs, of y] f bs by auto
qed

text \<open>A point of the curve with \<open>y = 1\<close>.\<close>

definition samplePoint :: bytes where
  "samplePoint = 3 # [0x8d, 0x01, 0x77, 0xeb, 0xab, 0x9c, 0x6e, 0x9e, 0x10, 0xdb, 0x6d, 0xd0, 0x95, 0xdb, 0xac, 0x0d,
     0x63, 0x75, 0xe8, 0xa9, 0x7b, 0x70, 0xf6, 0x11, 0x87, 0x5d, 0x87, 0x7f, 0x00, 0x69, 0xd2, 0xc7]"

lemma beVal_samplePoint: "beVal (tl samplePoint) = 0x8d0177ebab9c6e9e10db6dd095dbac0d6375e8a97b70f611875d877f0069d2c7"
  by (simp add: samplePoint_def beVal_def)

lemma samplePoint_square:
  "((powMod (beVal (tl samplePoint)) 2 (curve_P DefaultParams) + P256PARAMA) mod curve_P DefaultParams *
      beVal (tl samplePoint) mod curve_P DefaultParams + curve_B DefaultParams) mod curve_P DefaultParams = 1"
proof -
  let ?x = "beVal (tl samplePoint)" and ?P = "curve_P DefaultParams"
  have "(?x * ?x + P256PARAMA) * ?x + curve_B DefaultParams =
    1 + 0x2ac76b21e280b22c42294ce0725afb7999701d0500113e30447271998d29c9441f291b115339eb5654d6fa5c50aa4237e274d1687962c880f5073224ede44274 * ?P"
    by (simp add: beVal_samplePoint DefaultParams_def)
  then have "((?x * ?x + P256PARAMA) * ?x + curve_B DefaultParams) mod ?P = 1 mod ?P"
    by (simp only: mod_mult_self1)
  also have "\<dots> = 1" by (simp add: DefaultParams_def)
  finally have "((?x * ?x + P256PARAMA) * ?x + curve_B DefaultParams) mod ?P = 1" .
  then show ?thesis by (simp only: powMod_eq power2_eq_square mod_simps)
qed

lemma decode_samplePoint:
  "DecodePoint samplePoint = Inr \<lparr>pk_X = Some (beVal (tl samplePoint)), pk_Y = Some 1\<rparr>"
proof -
  have "curveSqrt 1 DefaultParams = Some 1"
    by (simp add: curveSqrt_def powMod_eq DefaultParams_def)
  with samplePoint_square have "deCompress 1 (tl samplePoint) DefaultParams =
      Inr \<lparr>pk_X = Some (beVal (tl samplePoint)), pk_Y = Some 1\<rparr>"
    by (simp add: deCompress_def isEven_def)
  then show ?thesis by (simp add: DecodePoint_def samplePoint_def)
qed

theorem compressed_point_round_trip_witness:
  "length samplePoint = 33 \<and> EncodePoint True \<lparr>pk_X = Some (beVal (tl samplePoint)), pk_Y = Some 1\<rparr> = Inr samplePoint"
  using compressed_point_round_trip [OF decode_samplePoint] by (simp add: samplePoint_def)
end
