(* ===== verification/Contract.thy ===== *)
theory Contract
  imports Codec Curve "HOL-Library.Multiset"
begin

section \<open>Redeem scripts: core/contract, core/contract/program, crypto/common.go\<close>

text \<open>
  The redeem scripts of the chain and what reads them: the program builder, the standard, multi
  signature, cross chain and deposit contracts, the recognisers \<^verbatim>\<open>IsStandard\<close> and \<^verbatim>\<open>IsMultiSig\<close>, the
  parser of the public keys of a script, and program hashes.

  Not under the repository, and so parameters: \<open>h160\<close>, the RIPEMD-160 digest of the SHA-256 digest; and
  the order \<^verbatim>\<open>sort.Sort\<close> leaves equal elements in, so the sorting of public keys is a function \<open>sortX\<close>
  of which only \<open>sorts_by_X\<close> is assumed.
\<close>

subsection \<open>Program builder\<close>

abbreviation PUSH0 :: u8 where "PUSH0 \<equiv> 0x00"
abbreviation PUSHBYTES75 :: nat where "PUSHBYTES75 \<equiv> 0x4b"
abbreviation PUSHDATA1 :: u8 where "PUSHDATA1 \<equiv> 0x4c"
abbreviation PUSHDATA2 :: u8 where "PUSHDATA2 \<equiv> 0x4d"
abbreviation PUSHDATA4 :: u8 where "PUSHDATA4 \<equiv> 0x4e"
abbreviation PUSHM1 :: u8 where "PUSHM1 \<equiv> 0x4f"
abbreviation PUSH1 :: u8 where "PUSH1 \<equiv> 0x51"
abbreviation PUSH16 :: u8 where "PUSH16 \<equiv> 0x60"
abbreviation CHECKSIG :: u8 where "CHECKSIG \<equiv> 0xac"
abbreviation CHECKMULTISIG :: u8 where "CHECKMULTISIG \<equiv> 0xae"
abbreviation CROSSCHAIN :: u8 where "CROSSCHAIN \<equiv> 0xaf"

definition IntToBytes :: "nat \<Rightarrow> bytes" where
  "IntToBytes n = putLE 4 (word_of_nat n :: u32)"

definition AddOp :: "u8 \<Rightarrow> bytes \<Rightarrow> bytes" where
  "AddOp op buffer = buffer @ [op]"

definition PushData :: "bytes \<Rightarrow> bytes \<Rightarrow> bytes" where
  "PushData data buffer =
     (if length data \<le> PUSHBYTES75 then buffer @ [word_of_nat (length data)] @ data
      else if length data < 0x100 then AddOp PUSHDATA1 buffer @ [word_of_nat (length data)] @ data
      else if length data < 0x10000 then AddOp PUSHDATA2 buffer @ take 2 (IntToBytes (length data)) @ data
      else AddOp PUSHDATA4 buffer @ take 4 (IntToBytes (length data)) @ data)"

definition PushNumber :: "int \<Rightarrow> bytes \<Rightarrow> bytes" where
  "PushNumber number buffer =
     (if number = - 1 then AddOp PUSHM1 buffer
      else if number = 0 then AddOp PUSH0 buffer
      else if 0 < number \<and> number \<le> 16 then AddOp (PUSH1 - 1 + beBytes number ! 0) buffer
      else PushData (beBytes number) buffer)"

subsection \<open>Contracts\<close>

text \<open>The prefixes of \<^verbatim>\<open>contract.PrefixType\<close>.\<close>

abbreviation PrefixStandard :: u8 where "PrefixStandard \<equiv> 0x21"
abbreviation PrefixMultiSig :: u8 where "PrefixMultiSig \<equiv> 0x12"
abbreviation PrefixCrossChain :: u8 where "PrefixCrossChain \<equiv> 0x4b"
abbreviation PrefixDeposit :: u8 where "PrefixDeposit \<equiv> 0x1f"
abbreviation PrefixCRDID :: u8 where "PrefixCRDID \<equiv> 0x67"

record Contract =
  ct_Code :: bytes
  ct_Prefix :: u8

type_synonym Uint160 = bytes

text \<open>\<^verbatim>\<open>copy(sum[:], b)\<close> into a zeroed array of \<open>n\<close> bytes.\<close>

definition intoArray :: "nat \<Rightarrow> bytes \<Rightarrow> bytes" where
  "intoArray n b = take n (b @ replicate n 0)"

definition ToCodeHash :: "(bytes \<Rightarrow> bytes) \<Rightarrow> bytes \<Rightarrow> Uint160" where
  "ToCodeHash h160 code = intoArray 20 (h160 code)"

definition ToProgramHash :: "(bytes \<Rightarrow> bytes) \<Rightarrow> u8 \<Rightarrow> bytes \<Rightarrow> Uint168" where
  "ToProgramHash h160 prefix code = intoArray 21 (prefix # h160 code)"

definition Contract_ToProgramHash :: "(bytes \<Rightarrow> bytes) \<Rightarrow> Contract \<Rightarrow> Uint168" where
  "Contract_ToProgramHash h160 c = ToProgramHash h160 (ct_Prefix c) (ct_Code c)"

definition Contract_ToCodeHash :: "(bytes \<Rightarrow> bytes) \<Rightarrow> Contract \<Rightarrow> Uint160" where
  "Contract_ToCodeHash h160 c = ToCodeHash h160 (ct_Code c)"

definition Uint168_ToCodeHash :: "Uint168 \<Rightarrow> Uint160" where
  "Uint168_ToCodeHash u = intoArray 20 (drop 1 u)"

definition Uint168FromCodeHash :: "u8 \<Rightarrow> Uint160 \<Rightarrow> Uint168" where
  "Uint168FromCodeHash prefixType codeHash = prefixType # intoArray 20 codeHash"

definition GetPrefixType :: "Uint168 \<Rightarrow> u8" where
  "GetPrefixType programHash = programHash ! 0"

definition CreateStandardRedeemScript :: "PublicKey option \<Rightarrow> (string + bytes) res" where
  "CreateStandardRedeemScript pubKey =
     (case pubKey of
        None \<Rightarrow> Inr (Inl ''public Key is nil'')
      | Some k \<Rightarrow> bindR (EncodePoint True k) (\<lambda>temp. Inr (Inr (AddOp CHECKSIG (PushData temp [])))))"

definition CreateStandardContract :: "PublicKey option \<Rightarrow> (string + Contract) res" where
  "CreateStandardContract pubKey =
     bindR (CreateStandardRedeemScript pubKey) (\<lambda>r. Inr (bindR r (\<lambda>redeemScript.
       Inr \<lparr>ct_Code = redeemScript, ct_Prefix = PrefixStandard\<rparr>)))"

definition CreateDepositContractByPubKey :: "PublicKey option \<Rightarrow> (string + Contract) res" where
  "CreateDepositContractByPubKey pubkey =
     (case pubkey of
        None \<Rightarrow> Inr (Inl ''public key is nil'')
      | Some k \<Rightarrow> bindR (EncodePoint True k) (\<lambda>temp.
          Inr (Inr \<lparr>ct_Code = AddOp CHECKSIG (PushData temp []), ct_Prefix = PrefixDeposit\<rparr>)))"

definition CreateDepositContractByCode :: "bytes \<Rightarrow> Contract" where
  "CreateDepositContractByCode code = \<lparr>ct_Code = code, ct_Prefix = PrefixDeposit\<rparr>"

definition CreateCRIDContractByCode :: "bytes \<Rightarrow> string + Contract" where
  "CreateCRIDContractByCode code =
     (if length code = 0 then Inl ''code is nil'' else Inr \<lparr>ct_Code = code, ct_Prefix = PrefixCRDID\<rparr>)"

definition PublicKeyToStandardProgramHash :: "(bytes \<Rightarrow> bytes) \<Rightarrow> bytes \<Rightarrow> (string + Uint168) res" where
  "PublicKeyToStandardProgramHash h160 pubKey =
     (case DecodePoint pubKey of
        Inl err \<Rightarrow> Inr (Inl err)
      | Inr publicKey \<Rightarrow> bindR (CreateStandardContract (Some publicKey)) (\<lambda>r.
          Inr (bindR r (\<lambda>contract. Inr (Contract_ToProgramHash h160 contract)))))"

definition PublicKeyToDepositProgramHash :: "(bytes \<Rightarrow> bytes) \<Rightarrow> bytes \<Rightarrow> (string + Uint168) res" where
  "PublicKeyToDepositProgramHash h160 pubKey =
     (case DecodePoint pubKey of
        Inl err \<Rightarrow> Inr (Inl err)
      | Inr publicKey \<Rightarrow> bindR (CreateDepositContractByPubKey (Some publicKey)) (\<lambda>r.
          Inr (bindR r (\<lambda>contract. Inr (Contract_ToProgramHash h160 contract)))))"

definition CreateCrossChainRedeemScript :: "Uint256 \<Rightarrow> bytes" where
  "CreateCrossChainRedeemScript genesisHash = word_of_nat (length genesisHash) # genesisHash @ [CROSSCHAIN]"

text \<open>
  The result of \<^verbatim>\<open>CreateMultiSigRedeemScript\<close>: an error, or a script that is nil, without an error,
  when the counts are out of range. Comparing the X of a point at infinity dereferences nil.
\<close>

definition sorts_by_X :: "(PublicKey list \<Rightarrow> PublicKey list) \<Rightarrow> bool" where
  "sorts_by_X sortX \<longleftrightarrow> (\<forall>ks. mset (sortX ks) = mset ks \<and> sorted (map (\<lambda>k. the (pk_X k)) (sortX ks)))"

definition SortPublicKeys :: "(PublicKey list \<Rightarrow> PublicKey list) \<Rightarrow> PublicKey list \<Rightarrow> PublicKey list res" where
  "SortPublicKeys sortX ks =
     (if 1 < length ks \<and> (\<exists>k \<in> set ks. pk_X k = None) then Inl NilDereference else Inr (sortX ks))"

definition pushKey :: "PublicKey \<Rightarrow> bytes \<Rightarrow> bytes res" where
  "pushKey pubkey sb = bindR (EncodePoint True pubkey) (\<lambda>temp. Inr (PushData temp sb))"

definition CreateMultiSigRedeemScript ::
  "(PublicKey list \<Rightarrow> PublicKey list) \<Rightarrow> int \<Rightarrow> PublicKey option list \<Rightarrow> (string + bytes option) res" where
  "CreateMultiSigRedeemScript sortX m pubkeys =
     (if length pubkeys = 0 then Inr (Inl ''public keys is nil'')
      else if None \<in> set pubkeys then Inr (Inl ''public keys has nil public key'')
      else if \<not> (m \<ge> 1 \<and> m \<le> int (length pubkeys) \<and> length pubkeys \<le> 24) then Inr (Inr None)
      else bindR (SortPublicKeys sortX (map the pubkeys)) (\<lambda>sorted.
           bindR (foldR pushKey sorted (PushNumber m [])) (\<lambda>sb.
           Inr (Inr (Some (AddOp CHECKMULTISIG (PushNumber (int (length pubkeys)) sb)))))))"

definition CreateMultiSigContract ::
  "(PublicKey list \<Rightarrow> PublicKey list) \<Rightarrow> int \<Rightarrow> PublicKey option list \<Rightarrow> (string + Contract) res" where
  "CreateMultiSigContract sortX m pubkeys =
     bindR (CreateMultiSigRedeemScript sortX m pubkeys) (\<lambda>r. Inr (bindR r (\<lambda>redeemScript.
       Inr \<lparr>ct_Code = (case redeemScript of None \<Rightarrow> [] | Some c \<Rightarrow> c), ct_Prefix = PrefixMultiSig\<rparr>)))"

subsection \<open>Recognising a script\<close>

definition byteAt :: "bytes \<Rightarrow> nat \<Rightarrow> u8 res" where
  "byteAt code i = (if i < length code then Inr (code ! i) else Inl IndexOutOfRange)"

definition IsStandard :: "bytes \<Rightarrow> bool" where
  "IsStandard code \<longleftrightarrow>
     (if length code \<noteq> 35 then False else if code ! 0 \<noteq> 33 \<or> code ! 34 \<noteq> CHECKSIG then False else True)"

text \<open>\<^verbatim>\<open>binary.Read\<close> into an int16 leaves it 0 when fewer than two bytes are left.\<close>

definition BytesToInt16 :: "bytes \<Rightarrow> 16 word" where
  "BytesToInt16 b = (if length b < 2 then 0 else push_bit 8 (ucast (b ! 0)) OR ucast (b ! 1))"

text \<open>The number at a position, as the two \<^verbatim>\<open>switch\<close> statements read it, and the position behind it.\<close>

definition countAt :: "bytes \<Rightarrow> nat \<Rightarrow> (16 word \<times> nat) res" where
  "countAt code i = bindR (byteAt code i) (\<lambda>c.
     if c = 1 then bindR (byteAt code (i + 1)) (\<lambda>v. Inr (ucast v, i + 2))
     else if c = 2 then Inr (BytesToInt16 (drop (i + 1) code), i + 3)
     else Inr (ucast c - 80, i + 1))"

function keyLoop :: "bytes \<Rightarrow> nat \<Rightarrow> 16 word \<Rightarrow> (nat \<times> 16 word) option res" where
  "keyLoop code i n = bindR (byteAt code i) (\<lambda>c.
     if c = 33 then (if length code \<le> i + 34 then Inr None else keyLoop code (i + 34) (n + 1))
     else Inr (Some (i, n)))"
  by auto
termination by (relation "measure (\<lambda>(code, i, n). length code - i)") auto

declare keyLoop.simps [simp del]

definition IsMultiSig :: "bytes \<Rightarrow> bool res" where
  "IsMultiSig code =
     (if length code < 37 then Inr False
      else if code ! 0 > PUSH16 then Inr False
      else if code ! 0 < PUSH1 \<and> code ! 0 \<noteq> 1 \<and> code ! 0 \<noteq> 2 then Inr False
      else bindR (countAt code 0) (\<lambda>(m, i).
        if sint m < 1 \<or> sint m > 1024 then Inr False
        else bindR (keyLoop code i 0) (\<lambda>r. case r of
               None \<Rightarrow> Inr False
             | Some (i, n) \<Rightarrow>
                 if sint n < sint m \<or> sint n > 1024 then Inr False
                 else bindR (countAt code i) (\<lambda>(v, i).
                   if n \<noteq> v then Inr False
                   else bindR (byteAt code i) (\<lambda>op.
                     if op \<noteq> CHECKMULTISIG then Inr False else Inr (length code = i + 1))))))"

datatype ContractType = CTSignature | CTMultiSig | CTCustom

definition GetCodeType :: "bytes \<Rightarrow> ContractType res" where
  "GetCodeType code =
     (if IsStandard code then Inr CTSignature
      else bindR (IsMultiSig code) (\<lambda>b. Inr (if b then CTMultiSig else CTCustom)))"

subsection \<open>The public keys of a script\<close>

function scripts :: "bytes \<Rightarrow> bytes list" where
  "scripts code = (if code = [] then [] else take 34 code # scripts (drop 34 code))"
  by auto
termination by (relation "measure length") auto

declare scripts.simps [simp del]

definition parsePublicKeys :: "bytes \<Rightarrow> string + bytes list" where
  "parsePublicKeys code =
     (let code = butlast (drop 1 (butlast code)) in
      if length code mod 34 \<noteq> 0 then Inl ''not a valid transaction code, length not match''
      else Inr (scripts code))"

definition ParseMultisigScript :: "bytes \<Rightarrow> string + bytes list" where
  "ParseMultisigScript code =
     (if length code < 71 \<or> last code \<noteq> CHECKMULTISIG
      then Inl ''not a valid multi sign transaction code, length not enough''
      else parsePublicKeys code)"

definition ParseCrossChainScript :: "bytes \<Rightarrow> string + bytes list" where
  "ParseCrossChainScript code =
     (if length code < 71 \<or> last code \<noteq> CROSSCHAIN
      then Inl ''not a valid cross chain transaction code, length not enough''
      else parsePublicKeys code)"

definition GetScriptType :: "bytes \<Rightarrow> string + u8" where
  "GetScriptType script =
     (if length script \<noteq> 35 \<and> length script < 71
      then Inl ''invalid redeem script, not a standard or multi sign type'' else Inr (last script))"

text \<open>The subtraction and the addition are on bytes, before the conversion.\<close>

definition getM :: "bytes \<Rightarrow> nat" where
  "getM code = unat (code ! 0 - PUSH1 + 1)"

definition GetM :: "bytes \<Rightarrow> string + nat" where
  "GetM code = bindR (GetScriptType code) (\<lambda>scriptType.
     if scriptType \<noteq> CHECKMULTISIG then Inl ''not a multi-signature script'' else Inr (getM code))"

definition GetSignStatus :: "bytes \<Rightarrow> bytes \<Rightarrow> string + (int \<times> int)" where
  "GetSignStatus code param = bindR (GetScriptType code) (\<lambda>scriptType.
     if scriptType = CHECKSIG then Inr (int (length param div 65), 1)
     else if scriptType = CHECKMULTISIG then Inr (int (length param div 65), int (getM code))
     else Inl ''invalid redeem script type'')"

subsection \<open>A script is read as it was built\<close>

text \<open>A key whose coordinates are 32-byte numbers, and its compressed encoding.\<close>

definition key_ok :: "PublicKey \<Rightarrow> bool" where
  "key_ok k \<longleftrightarrow> (case (pk_X k, pk_Y k) of (Some x, Some y) \<Rightarrow> 0 \<le> x \<and> x < 256 ^ 32 | _ \<Rightarrow> False)"

definition encoded :: "PublicKey \<Rightarrow> bytes" where
  "encoded k = projr (EncodePoint True k)"

lemma encode_ok:
  assumes "key_ok k"
  shows "EncodePoint True k = Inr (encoded k)" and "length (encoded k) = 33"
proof -
  obtain x y where k: "pk_X k = Some x" "pk_Y k = Some y" "0 \<le> x" "x < 256 ^ 32"
    using assms by (auto simp: key_ok_def split: option.splits)
  have "nat \<bar>x\<bar> < 256 ^ 32" using k by simp
  then have "length (beBytes x) \<le> 32" unfolding beBytes_def by (simp only: length_natBytes_le)
  then have "EncodePoint True k = Inr (encoded k) \<and> length (encoded k) = 33"
    by (simp add: encoded_def EncodePoint_def k Let_def copyAt_def)
  then show "EncodePoint True k = Inr (encoded k)" "length (encoded k) = 33" by blast+
qed

definition keyScripts :: "PublicKey list \<Rightarrow> bytes" where
  "keyScripts ks = concat (map (\<lambda>k. 33 # encoded k) ks)"

definition number :: "nat \<Rightarrow> bytes" where
  "number n = (if n \<le> 16 then [0x50 + word_of_nat n] else [1, word_of_nat n])"

lemma beBytes_small: "0 < n \<Longrightarrow> n < 256 \<Longrightarrow> beBytes (int n) = [word_of_nat n]"
  unfolding beBytes_def by (subst natBytes.simps, subst natBytes.simps) simp

lemma PushNumber_number: "1 \<le> n \<Longrightarrow> n \<le> 24 \<Longrightarrow> PushNumber (int n) sb = sb @ number n"
  by (auto simp: PushNumber_def number_def beBytes_small AddOp_def PushData_def)

lemma pushKeys:
  "\<forall>k \<in> set ks. key_ok k \<Longrightarrow> foldR pushKey ks sb = Inr (sb @ keyScripts ks)"
  by (induction ks arbitrary: sb) (simp_all add: keyScripts_def pushKey_def encode_ok PushData_def)

lemma length_keyScripts: "\<forall>k \<in> set ks. key_ok k \<Longrightarrow> length (keyScripts ks) = 34 * length ks"
  by (induction ks) (simp_all add: keyScripts_def encode_ok)

lemma byteAt_append [simp]: "byteAt (pre @ c # post) (length pre) = Inr c"
  by (simp add: byteAt_def)

lemma keyLoop_keyScripts:
  assumes "\<forall>k \<in> set ks. key_ok k" and "c \<noteq> 33"
  shows "keyLoop (pre @ keyScripts ks @ c # post) (length pre) n =
    Inr (Some (length pre + length (keyScripts ks), n + word_of_nat (length ks)))"
  using assms
proof (induction ks arbitrary: pre n)
  case Nil
  then show ?case by (simp add: keyLoop.simps keyScripts_def)
next
  case (Cons k ks)
  have len: "length (33 # encoded k) = 34" using Cons.prems encode_ok by simp
  have split: "pre @ keyScripts (k # ks) @ c # post = (pre @ 33 # encoded k) @ keyScripts ks @ c # post"
    by (simp add: keyScripts_def)
  have "keyLoop (pre @ keyScripts (k # ks) @ c # post) (length pre) n =
    keyLoop ((pre @ 33 # encoded k) @ keyScripts ks @ c # post) (length (pre @ 33 # encoded k)) (n + 1)"
    unfolding split using len by (subst keyLoop.simps) (simp add: add.commute)
  also have "\<dots> = Inr (Some (length (pre @ 33 # encoded k) + length (keyScripts ks), n + 1 + word_of_nat (length ks)))"
    using Cons.prems by (intro Cons.IH) simp_all
  finally show ?case by (simp add: keyScripts_def algebra_simps)
qed

lemma number_cases:
  assumes "1 \<le> n" and "n \<le> 24"
  shows "number n \<noteq> [] \<and> hd (number n) \<noteq> 33 \<and> hd (number n) \<le> PUSH16 \<and>
    (hd (number n) < PUSH1 \<longrightarrow> hd (number n) = 1)"
proof -
  have "n \<in> {1, 2, 3, 4, 5, 6, 7, 8, 9, 10, 11, 12, 13, 14, 15, 16, 17, 18, 19, 20, 21, 22, 23, 24}"
    using assms by (simp only: insert_iff empty_iff) presburger
  then show ?thesis by (auto simp: number_def)
qed

lemma countAt_number:
  assumes "1 \<le> n" and "n \<le> 24"
  shows "countAt (pre @ number n @ post) (length pre) = Inr (word_of_nat n, length pre + length (number n))"
proof (cases "n \<le> 16")
  case True
  then have "n \<in> {1, 2, 3, 4, 5, 6, 7, 8, 9, 10, 11, 12, 13, 14, 15, 16}"
    using assms by (simp only: insert_iff empty_iff) presburger
  then show ?thesis by (auto simp: countAt_def number_def)
next
  case False
  then have "n \<in> {17, 18, 19, 20, 21, 22, 23, 24}" using assms by auto
  then show ?thesis by (auto simp: countAt_def number_def byteAt_def nth_append)
qed

lemma sint_small16: "n \<le> 24 \<Longrightarrow> sint (word_of_nat n :: 16 word) = int n"
  by (simp add: sint_uint uint_nat unat_of_nat signed_take_bit_int_eq_self)

lemma multisig_form:
  assumes s: "sorts_by_X sortX" and ks: "\<forall>k \<in> set ks. key_ok k" and m: "1 \<le> m" "m \<le> length ks" "length ks \<le> 24"
  shows "CreateMultiSigRedeemScript sortX (int m) (map Some ks) =
    Inr (Inr (Some (number m @ keyScripts (sortX ks) @ number (length ks) @ [CHECKMULTISIG])))"
proof -
  have "mset (sortX ks) = mset ks" using s by (simp add: sorts_by_X_def)
  then have set: "set (sortX ks) = set ks" by (metis set_mset_mset)
  have "\<forall>k \<in> set ks. pk_X k \<noteq> None" using ks by (auto simp: key_ok_def split: option.splits)
  then have "SortPublicKeys sortX ks = Inr (sortX ks)" by (auto simp: SortPublicKeys_def)
  then show ?thesis
    using m ks set by (auto simp: CreateMultiSigRedeemScript_def comp_def PushNumber_number pushKeys AddOp_def)
qed

lemma IsMultiSig_form:
  assumes ks: "\<forall>k \<in> set ks. key_ok k" and m: "1 \<le> m" "m \<le> length ks" "length ks \<le> 24"
  shows "IsMultiSig (number m @ keyScripts ks @ number (length ks) @ [CHECKMULTISIG]) = Inr True"
proof -
  let ?n = "length ks"
  let ?code = "number m @ keyScripts ks @ number ?n @ [CHECKMULTISIG]"
  obtain c cs where n: "number ?n = c # cs" and c: "c \<noteq> 33"
    using number_cases [of ?n] m by (cases "number ?n") auto
  obtain d ds where d: "number m = d # ds" and d': "d \<le> PUSH16" "d < PUSH1 \<longrightarrow> d = 1"
    using number_cases [of m] m by (cases "number m") auto
  have len: "37 \<le> length ?code" using m by (simp add: length_keyScripts [OF ks] n d)
  have "countAt ?code 0 = Inr (word_of_nat m, length (number m))"
    using countAt_number [of m "[]"] m by simp
  moreover have "keyLoop ?code (length (number m)) 0 =
      Inr (Some (length (number m) + length (keyScripts ks), word_of_nat ?n))"
    using keyLoop_keyScripts [OF ks c, of "number m" "cs @ [CHECKMULTISIG]" 0] n by simp
  moreover have "countAt ?code (length (number m) + length (keyScripts ks)) =
      Inr (word_of_nat ?n, length (number m) + length (keyScripts ks) + length (number ?n))"
    using countAt_number [of ?n "number m @ keyScripts ks" "[CHECKMULTISIG]"] m by simp
  moreover have "byteAt ?code (length (number m) + length (keyScripts ks) + length (number ?n)) = Inr CHECKMULTISIG"
    using byteAt_append [of "number m @ keyScripts ks @ number ?n" CHECKMULTISIG "[]"]
    by (simp add: add.assoc)
  moreover have "?code ! 0 = d" by (simp add: d)
  ultimately show ?thesis
    using len d' m by (simp add: IsMultiSig_def sint_small16)
qed

lemma scripts_keyScripts: "\<forall>k \<in> set ks. key_ok k \<Longrightarrow> scripts (keyScripts ks) = map (\<lambda>k. 33 # encoded k) ks"
proof (induction ks)
  case Nil
  then show ?case by (simp add: scripts.simps keyScripts_def)
next
  case (Cons k ks)
  have "length (33 # encoded k) = 34" using Cons.prems encode_ok by simp
  with Cons show ?case by (subst scripts.simps) (simp add: keyScripts_def)
qed

lemma length_number: "length (number n) = (if n \<le> 16 then 1 else 2)"
  by (simp add: number_def)

lemma number_first: "\<exists>d ds. number n = d # ds \<and> length ds = (if n \<le> 16 then 0 else 1)"
  by (simp add: number_def)

lemma number_last: "\<exists>ns x. number n = ns @ [x] \<and> length ns = (if n \<le> 16 then 0 else 1)"
  by (metis append_butlast_last_id length_butlast length_number list.size(3) diff_self_eq_0 add_diff_cancel_left' one_add_one zero_neq_numeral zero_neq_one)

lemma parse_form:
  assumes ks: "\<forall>k \<in> set ks. key_ok k" and n: "number n = ns @ [x]" and d: "number m = d # ds"
  shows "parsePublicKeys (number m @ keyScripts ks @ number n @ [CHECKMULTISIG]) =
    (if (length ds + length ns) mod 34 \<noteq> 0 then Inl ''not a valid transaction code, length not match''
     else Inr (scripts (ds @ keyScripts ks @ ns)))"
proof -
  have "butlast (drop 1 (butlast (number m @ keyScripts ks @ number n @ [CHECKMULTISIG]))) = ds @ keyScripts ks @ ns"
    by (simp add: n d butlast_append)
  moreover have "length (ds @ keyScripts ks @ ns) mod 34 = (length ds + length ns) mod 34"
    using mod_mult_self2 [of "length ds + length ns" 34 "length ks"]
    by (simp add: length_keyScripts [OF ks] ac_simps)
  ultimately show ?thesis by (simp add: parsePublicKeys_def)
qed

lemma parse_multisig:
  assumes ks: "\<forall>k \<in> set ks. key_ok k" and m: "1 \<le> m" "m \<le> length ks" "length ks \<le> 24"
  shows "ParseMultisigScript (number m @ keyScripts ks @ number (length ks) @ [CHECKMULTISIG]) =
    (if length ks = 1 then Inl ''not a valid multi sign transaction code, length not enough''
     else if length ks \<le> 16 then Inr (map (\<lambda>k. 33 # encoded k) ks)
     else Inl ''not a valid transaction code, length not match'')"
proof -
  let ?n = "length ks"
  let ?code = "number m @ keyScripts ks @ number ?n @ [CHECKMULTISIG]"
  obtain d ds where d: "number m = d # ds" "length ds = (if m \<le> 16 then 0 else 1)"
    using number_first by blast
  obtain ns x where x: "number ?n = ns @ [x]" "length ns = (if ?n \<le> 16 then 0 else 1)"
    using number_last by blast
  have len: "length ?code < 71 \<longleftrightarrow> ?n = 1"
    using m by (auto simp: length_keyScripts [OF ks] length_number)
  have last: "last ?code = CHECKMULTISIG" by simp
  show ?thesis
  proof (cases "?n \<le> 16")
    case True
    then have "ds = []" "ns = []" using d x m by auto
    then show ?thesis
      using len last True parse_form [OF ks x(1) d(1)] by (simp add: ParseMultisigScript_def scripts_keyScripts [OF ks])
  next
    case False
    then have "length ns = 1" "length ds \<le> 1" using d x by simp_all
    then have "(length ds + length ns) mod 34 \<noteq> 0" by simp
    then show ?thesis
      using len last False parse_form [OF ks x(1) d(1)] by (simp add: ParseMultisigScript_def)
  qed
qed

lemma key_sort:
  assumes "sorts_by_X sortX"
  shows "set (sortX ks) = set ks" and "length (sortX ks) = length ks"
proof -
  have "mset (sortX ks) = mset ks" using assms by (simp add: sorts_by_X_def)
  then show "set (sortX ks) = set ks" "length (sortX ks) = length ks"
    by (metis set_mset_mset, metis size_mset)
qed

text \<open>
  C23. Redeem scripts for m of n keys, for every n from 1 to 24 and m from 1 to n: the script is built and
  \<^verbatim>\<open>IsMultiSig\<close> recognises it, but its keys are read back, sorted, only for 2 to 16 keys. For one key
  \<^verbatim>\<open>ParseMultisigScript\<close> calls the script too short, and for 17 to 24 keys, where the count of keys takes
  two bytes of which it removes one, it rejects the length.
\<close>

theorem multisig_script_round_trip:
  assumes "sorts_by_X sortX" and "\<forall>k \<in> set ks. key_ok k" and "1 \<le> m" and "m \<le> length ks" and "length ks \<le> 24"
  shows "\<exists>code. CreateMultiSigRedeemScript sortX (int m) (map Some ks) = Inr (Inr (Some code)) \<and>
    IsMultiSig code = Inr True \<and>
    ParseMultisigScript code =
      (if length ks = 1 then Inl ''not a valid multi sign transaction code, length not enough''
       else if length ks \<le> 16 then Inr (map (\<lambda>k. 33 # encoded k) (sortX ks))
       else Inl ''not a valid transaction code, length not match'')"
  using multisig_form [OF assms] IsMultiSig_form [of "sortX ks" m] parse_multisig [of "sortX ks" m]
    key_sort [OF assms(1), of ks] assms by simp

lemma sort_key_sorts: "sorts_by_X (sort_key (\<lambda>k. the (pk_X k)))"
  by (simp add: sorts_by_X_def)

theorem multisig_script_round_trip_witness:
  "\<exists>code. CreateMultiSigRedeemScript (sort_key (\<lambda>k. the (pk_X k))) 1
      [Some \<lparr>pk_X = Some 7, pk_Y = Some 1\<rparr>, Some \<lparr>pk_X = Some 5, pk_Y = Some 4\<rparr>] = Inr (Inr (Some code)) \<and>
    IsMultiSig code = Inr True \<and>
    ParseMultisigScript code = Inr [33 # encoded \<lparr>pk_X = Some 5, pk_Y = Some 4\<rparr>,
      33 # encoded \<lparr>pk_X = Some 7, pk_Y = Some 1\<rparr>]"
  using multisig_script_round_trip [OF sort_key_sorts,
      of "[\<lparr>pk_X = Some 7, pk_Y = Some 1\<rparr>, \<lparr>pk_X = Some 5, pk_Y = Some 4\<rparr>]" 1]
  by (simp add: key_ok_def)

text \<open>
  C25. \<^verbatim>\<open>IsMultiSig\<close> reads behind the end of a script that stops after the count of keys: such a
  script of 2 to 24 keys makes it panic.
\<close>

theorem multisig_truncated_panics:
  assumes "\<forall>k \<in> set ks. key_ok k" and "1 \<le> m" and "m \<le> length ks" and "2 \<le> length ks" and "length ks \<le> 24"
  shows "IsMultiSig (number m @ keyScripts ks @ number (length ks)) = Inl IndexOutOfRange"
proof -
  let ?n = "length ks"
  let ?code = "number m @ keyScripts ks @ number ?n"
  obtain c cs where n: "number ?n = c # cs" and c: "c \<noteq> 33"
    using number_cases [of ?n] assms by (cases "number ?n") auto
  obtain d ds where d: "number m = d # ds" and d': "d \<le> PUSH16" "d < PUSH1 \<longrightarrow> d = 1"
    using number_cases [of m] assms by (cases "number m") auto
  have len: "37 \<le> length ?code" using assms by (simp add: length_keyScripts [OF assms(1)] n d)
  have "countAt ?code 0 = Inr (word_of_nat m, length (number m))"
    using countAt_number [of m "[]"] assms by simp
  moreover have "keyLoop ?code (length (number m)) 0 =
      Inr (Some (length (number m) + length (keyScripts ks), word_of_nat ?n))"
    using keyLoop_keyScripts [OF assms(1) c, of "number m" cs 0] n by simp
  moreover have "countAt ?code (length (number m) + length (keyScripts ks)) = Inr (word_of_nat ?n, length ?code)"
    using countAt_number [of ?n "number m @ keyScripts ks" "[]"] assms by (simp add: add.assoc)
  moreover have "byteAt ?code (length ?code) = Inl IndexOutOfRange" by (simp add: byteAt_def)
  moreover have "?code ! 0 = d" by (simp add: d)
  ultimately show ?thesis
    using len d' assms by (simp add: IsMultiSig_def sint_small16)
qed

theorem multisig_truncated_panics_witness:
  "IsMultiSig (number 1 @ keyScripts (replicate 2 \<lparr>pk_X = Some 7, pk_Y = Some 4\<rparr>) @ number 2) = Inl IndexOutOfRange"
  using multisig_truncated_panics [of "replicate 2 \<lparr>pk_X = Some 7, pk_Y = Some 4\<rparr>" 1]
  by (simp add: key_ok_def)

lemma standard_script_recognised:
  assumes "key_ok k"
  shows "CreateStandardRedeemScript (Some k) = Inr (Inr (33 # encoded k @ [CHECKSIG]))"
    and "IsStandard (33 # encoded k @ [CHECKSIG])"
  using encode_ok [OF assms]
  by (simp_all add: CreateStandardRedeemScript_def AddOp_def PushData_def IsStandard_def nth_append nth_Cons')
end
