(* ===== verification/Doubles.thy ===== *)
theory Doubles
  imports Prelude
begin

section \<open>Go's float64\<close>

text \<open>
  The shares of a block reward are computed in \<^verbatim>\<open>float64\<close>. A finite double is a pair of integers, the
  significand and the power of two it is multiplied by; every operation rounds the exact result to 53
  bits, to the nearest and to even on ties, as IEEE 754 prescribes. The amounts are below \<open>2 ^ 63\<close> and the
  factors between 0.3 and 1, so no exponent leaves the range of a double, and the conversions back to
  \<^verbatim>\<open>int64\<close> are in range. A literal such as \<^verbatim>\<open>0.3\<close> is the double nearest to the fraction.
\<close>

datatype float64 = Float64 (significand: int) (power: int)

function bitLength :: "int \<Rightarrow> nat" where
  "bitLength n = (if n \<le> 0 then 0 else Suc (bitLength (n div 2)))"
  by auto
termination by (relation "measure nat") auto

declare bitLength.simps [simp del]

definition roundEven :: "int \<Rightarrow> int \<times> nat" where
  "roundEven m =
     (let s = bitLength m - 53; q = m div 2 ^ s; r = m mod 2 ^ s in
      (if 2 * r > 2 ^ s \<or> 2 * r = 2 ^ s \<and> odd q then q + 1 else q, s))"

definition rounded :: "int \<Rightarrow> int \<Rightarrow> float64" where
  "rounded m e = (case roundEven \<bar>m\<bar> of (q, s) \<Rightarrow> Float64 (sgn m * q) (e + int s))"

definition floatOf :: "int \<Rightarrow> float64" where
  "floatOf n = rounded n 0"

definition floatTimes :: "float64 \<Rightarrow> float64 \<Rightarrow> float64" where
  "floatTimes x y = rounded (significand x * significand y) (power x + power y)"

text \<open>The quotient to more bits than are kept, with the last bit set when it is not exact.\<close>

definition floatDiv :: "float64 \<Rightarrow> float64 \<Rightarrow> float64" where
  "floatDiv x y =
     (let a = \<bar>significand x\<bar> * 2 ^ 120; b = \<bar>significand y\<bar> in
      rounded (sgn (significand x) * sgn (significand y) * (2 * (a div b) + (if a mod b = 0 then 0 else 1)))
        (power x - power y - 121))"

definition fraction :: "int \<Rightarrow> int \<Rightarrow> float64" where
  "fraction a b = floatDiv (floatOf a) (floatOf b)"

definition truncated :: "float64 \<Rightarrow> int" where
  "truncated x =
     (if 0 \<le> power x then significand x * 2 ^ nat (power x)
      else sgn (significand x) * (\<bar>significand x\<bar> div 2 ^ nat (- power x)))"

definition ceiled :: "float64 \<Rightarrow> int" where
  "ceiled x =
     (if 0 \<le> power x then significand x * 2 ^ nat (power x)
      else - (- significand x div 2 ^ nat (- power x)))"

definition floatLess :: "float64 \<Rightarrow> float64 \<Rightarrow> bool" where
  "floatLess x y \<longleftrightarrow>
     (let p = min (power x) (power y) in
      significand x * 2 ^ nat (power x - p) < significand y * 2 ^ nat (power y - p))"

lemma fractions:
  "fraction 3 10 = Float64 5404319552844595 (-54)"
  "fraction 35 100 = Float64 6305039478318694 (-54)"
  "fraction 65 100 = Float64 5854679515581645 (-53)"
  by code_simp+

subsection \<open>The error of rounding\<close>

lemma bitLength_bounds: "0 < n \<Longrightarrow> 2 ^ (bitLength n - 1) \<le> n \<and> n < 2 ^ bitLength n \<and> 0 < bitLength n"
proof (induction n rule: bitLength.induct)
  case (1 n)
  show ?case
  proof (cases "n = 1")
    case True
    then show ?thesis by (simp add: bitLength.simps [of 1] bitLength.simps [of 0])
  next
    case False
    with 1(2) have "0 < n div 2" by simp
    with 1 have h: "2 ^ (bitLength (n div 2) - 1) \<le> n div 2" "n div 2 < 2 ^ bitLength (n div 2)" "0 < bitLength (n div 2)"
      by auto
    have b: "bitLength n = Suc (bitLength (n div 2))" using 1(2) by (simp add: bitLength.simps [of n])
    obtain k where k: "bitLength (n div 2) = Suc k" using h(3) gr0_conv_Suc by blast
    have "2 ^ k \<le> n div 2" "n div 2 < 2 * 2 ^ k" using h(1,2) unfolding k by simp_all
    then have "2 * 2 ^ k \<le> n" "n < 2 * (2 * 2 ^ k)" by linarith+
    then show ?thesis unfolding b k by simp
  qed
qed

lemma nearest:
  fixes m :: int
  assumes "m = a * b + r" and "0 \<le> r" and "r < b"
  shows "2 * \<bar>(if 2 * r > b \<or> 2 * r = b \<and> odd a then a + 1 else a) * b - m\<bar> \<le> b"
  using assms(2,3) unfolding assms(1) by (auto simp: distrib_right)

lemma below_next:
  fixes q :: int
  assumes "0 < b"
  shows "q < (q div b + 1) * b"
proof -
  have "q = q div b * b + q mod b" by (rule div_mult_mod_eq [symmetric])
  moreover have "q mod b < b" using assms by simp
  ultimately have "q < q div b * b + b" by linarith
  then show ?thesis by (simp only: distrib_right mult_1)
qed

lemma enough_tenths:
  fixes v :: int
  assumes "\<bar>v - t * 5404319552844595\<bar> * 2 ^ 53 \<le> t * 5404319552844595" and "t < 2 ^ 52" and "v < (c + 1) * 2 ^ 54"
  shows "3 * t - 11 \<le> 10 * c"
proof -
  have "(t * 5404319552844595 - v) * 2 ^ 53 \<le> \<bar>v - t * 5404319552844595\<bar> * 2 ^ 53"
    by (rule mult_right_mono) auto
  with assms(1) have "t * (5404319552844595 * 9007199254740992) - v * 9007199254740992 \<le> t * 5404319552844595"
    by (simp add: left_diff_distrib)
  moreover have "v < c * 18014398509481984 + 18014398509481984" using assms(3) by simp
  moreover have "t < 4503599627370496" using assms(2) by simp
  ultimately have "3 * t - 12 < 10 * c" by linarith
  then show ?thesis by simp
qed

lemma roundEven_error:
  assumes "0 \<le> m" and "roundEven m = (q, s)"
  shows "\<bar>q * 2 ^ s - m\<bar> * 2 ^ 53 \<le> m \<and> 0 \<le> q \<and> s = bitLength m - 53"
proof (cases "bitLength m \<le> 53")
  case True
  then show ?thesis using assms by (simp add: roundEven_def Let_def)
next
  case False
  then have s: "s = bitLength m - 53" "bitLength m = s + 53" "0 < s" using assms(2) by (auto simp: roundEven_def Let_def)
  have "0 < m" using False assms(1) by (cases "m = 0") (auto simp: bitLength.simps)
  then have big: "2 ^ (s + 52) \<le> m" using bitLength_bounds [of m] s(2) by (simp add: add.commute)
  have q: "q = (if 2 * (m mod 2 ^ s) > 2 ^ s \<or> 2 * (m mod 2 ^ s) = 2 ^ s \<and> odd (m div 2 ^ s) then m div 2 ^ s + 1 else m div 2 ^ s)"
    using assms(2) s(1) by (auto simp: roundEven_def Let_def)
  have "2 * \<bar>q * 2 ^ s - m\<bar> \<le> 2 ^ s"
    unfolding q by (rule nearest) (simp_all only: div_mult_mod_eq, simp_all)
  then have "2 * \<bar>q * 2 ^ s - m\<bar> * 2 ^ 52 \<le> 2 ^ s * 2 ^ 52" by (rule mult_right_mono) simp
  then have "\<bar>q * 2 ^ s - m\<bar> * 2 ^ 53 \<le> 2 ^ (s + 52)" by (simp add: power_add)
  moreover have "0 \<le> q" using \<open>0 < m\<close> unfolding q by (auto simp: pos_imp_zdiv_nonneg_iff)
  ultimately show ?thesis using big s(1) by auto
qed

lemma bitLength_le:
  assumes "0 \<le> n" and "n < 2 ^ k"
  shows "bitLength n \<le> k"
proof (cases "n = 0")
  case True
  then show ?thesis by (simp add: bitLength.simps)
next
  case False
  then have "2 ^ (bitLength n - 1) \<le> n" "0 < bitLength n" using bitLength_bounds [of n] assms(1) by simp_all
  moreover from this(1) assms(2) have "2 ^ (bitLength n - 1) < (2 :: int) ^ k" by (rule le_less_trans)
  then have "bitLength n - 1 < k" by (rule power_less_imp_less_exp [rotated]) simp
  ultimately show ?thesis by simp
qed

lemma floatOf_exact: "0 \<le> n \<Longrightarrow> n < 2 ^ 53 \<Longrightarrow> floatOf n = Float64 n 0"
  using bitLength_le [of n 53] by (cases "n = 0") (simp_all add: floatOf_def rounded_def roundEven_def Let_def)

text \<open>
  Three tenths of an amount, as the code computes them, are at most two units of the last digit too low.
\<close>

lemma three_tenths:
  assumes "0 \<le> t" and "t < 2 ^ 52"
  shows "3 * t - 11 \<le> 10 * truncated (floatTimes (floatOf t) (fraction 3 10))"
proof -
  let ?m = "t * 5404319552844595"
  obtain q s where qs: "roundEven ?m = (q, s)" by (cases "roundEven ?m")
  have "?m < 2 ^ 105" using assms(2) by simp
  with assms(1) have "bitLength ?m \<le> 105" by (intro bitLength_le) simp_all
  moreover have err: "\<bar>q * 2 ^ s - ?m\<bar> * 2 ^ 53 \<le> ?m" "0 \<le> q" "s = bitLength ?m - 53"
    using roundEven_error [OF _ qs] assms(1) by auto
  ultimately have s: "s \<le> 52" by simp
  have prod: "floatTimes (floatOf t) (fraction 3 10) = Float64 (sgn t * q) (int s - 54)"
    using assms qs by (simp add: floatTimes_def floatOf_exact fractions rounded_def sgn_mult abs_mult)
  define c where "c = truncated (Float64 (sgn t * q) (int s - 54))"
  show ?thesis
  proof (cases "t = 0")
    case True
    then show ?thesis unfolding prod by (simp add: truncated_def)
  next
    case False
    then have "c = q div 2 ^ (54 - s)"
      using assms(1) err(2) s by (cases "q = 0") (simp_all add: c_def truncated_def nat_diff_distrib)
    then have "q < (c + 1) * 2 ^ (54 - s)" using below_next [of "2 ^ (54 - s)" q] by simp
    then have "q * 2 ^ s < (c + 1) * 2 ^ (54 - s) * 2 ^ s" by simp
    also have "\<dots> = (c + 1) * 2 ^ 54" using s by (simp add: power_add [symmetric] mult.assoc)
    finally have "q * 2 ^ s < (c + 1) * 2 ^ 54" .
    with err(1) assms(2) show ?thesis unfolding prod c_def [symmetric] by (rule enough_tenths)
  qed
qed

text \<open>Two thirds of a number, as the code computes them: the number is at most one and a half times the next integer.\<close>

lemma roundEven_multiple:
  assumes "roundEven m = (q, s)" and "2 ^ s dvd m"
  shows "q * 2 ^ s = m"
proof -
  have s: "s = bitLength m - 53" using assms(1) by (auto simp: roundEven_def Let_def)
  have "m mod 2 ^ s = 0" using assms(2) by simp
  then have "q = m div 2 ^ s" using assms(1) s by (auto simp: roundEven_def Let_def)
  with assms(2) show ?thesis by simp
qed

lemma third_bounds:
  fixes a :: int
  assumes "0 \<le> a"
  shows "0 \<le> 2 * (a div 3) + (if a mod 3 = 0 then 0 else 1) \<and>
    2 * a \<le> 3 * (2 * (a div 3) + (if a mod 3 = 0 then 0 else 1)) + 1 \<and>
    3 * (2 * (a div 3) + (if a mod 3 = 0 then 0 else 1)) \<le> 2 * a + 1"
  using assms by presburger

lemma enough_thirds:
  fixes v :: int
  assumes "\<bar>v - m\<bar> * 2 ^ 53 \<le> m" and "n < 2 ^ 40" and "v < (c + 1) * 2 ^ 121" and "2 * (2 * n * 2 ^ 120) \<le> 3 * m + 1"
  shows "2 * n \<le> 3 * (c + 1)"
proof -
  have "(m - v) * 2 ^ 53 \<le> \<bar>v - m\<bar> * 2 ^ 53" by (rule mult_right_mono) auto
  with assms(1) have "m * 9007199254740992 - v * 9007199254740992 \<le> m" by (simp add: left_diff_distrib)
  moreover have "v < c * 2658455991569831745807614120560689152 + 2658455991569831745807614120560689152" using assms(3) by simp
  moreover have "n * 5316911983139663491615228241121378304 \<le> 3 * m + 1" using assms(4) by simp
  moreover have "n < 1099511627776" using assms(2) by simp
  ultimately have "2 * n < 3 * c + 4" by linarith
  then show ?thesis by simp
qed

lemma two_thirds:
  assumes "0 \<le> n" and "n < 2 ^ 40"
  shows "2 * n < 3 * (truncated (floatDiv (floatTimes (floatOf n) (floatOf 2)) (floatOf 3)) + 1)"
proof (cases "n = 0")
  case True
  have "truncated (floatDiv (floatTimes (floatOf 0) (floatOf 2)) (floatOf 3)) = 0" by code_simp
  then show ?thesis using True by simp
next
  case False
  define a where "a = 2 * n * 2 ^ 120"
  define m where "m = 2 * (a div 3) + (if a mod 3 = 0 then 0 else 1)"
  obtain q s where qs: "roundEven m = (q, s)" by (cases "roundEven m")
  have "0 < a" using False assms(1) by (simp add: a_def)
  have m: "0 \<le> m" "2 * a \<le> 3 * m + 1" "3 * m \<le> 2 * a + 1"
    using third_bounds [of a] \<open>0 < a\<close> unfolding m_def by simp_all
  have "a < 2 ^ 161" using assms(2) by (simp add: a_def)
  then have "bitLength m \<le> 162" using m by (intro bitLength_le) simp_all
  moreover have err: "\<bar>q * 2 ^ s - m\<bar> * 2 ^ 53 \<le> m" "0 \<le> q" "s = bitLength m - 53"
    using roundEven_error [OF m(1) qs] by auto
  ultimately have s: "s \<le> 109" by simp
  have "floatTimes (floatOf n) (floatOf 2) = Float64 (2 * n) 0"
    using assms floatOf_exact [of n] floatOf_exact [of 2] floatOf_exact [of "2 * n"]
    by (simp add: floatTimes_def floatOf_def mult.commute)
  moreover have "m > 0" using m(2) \<open>0 < a\<close> by (simp add: a_def)
  ultimately have quot: "floatDiv (floatTimes (floatOf n) (floatOf 2)) (floatOf 3) = Float64 q (int s - 121)"
    using False assms(1) qs
    by (simp add: floatDiv_def floatOf_exact [of 3] rounded_def a_def m_def)
  define c where "c = q div 2 ^ (121 - s)"
  have trunc: "truncated (Float64 q (int s - 121)) = c"
    using err(2) s by (cases "q = 0") (simp_all add: c_def truncated_def nat_diff_distrib)
  have "q < (c + 1) * 2 ^ (121 - s)" unfolding c_def by (rule below_next) simp
  then have "q * 2 ^ s < (c + 1) * 2 ^ (121 - s) * 2 ^ s" by simp
  also have "\<dots> = (c + 1) * 2 ^ 121" using s by (simp add: power_add [symmetric] mult.assoc)
  finally have below: "q * 2 ^ s < (c + 1) * 2 ^ 121" .
  show ?thesis unfolding quot trunc
  proof (cases "3 dvd n")
    case True
    then obtain k where k: "n = 3 * k" by (auto elim: dvdE)
    have mk: "m = 2 * k * 2 ^ 121" by (simp add: m_def a_def k)
    have "2 ^ s dvd (2 :: int) ^ 121" using s by (intro le_imp_power_dvd) simp
    then have "2 ^ s dvd m" unfolding mk by (rule dvd_mult)
    then have "q * 2 ^ s = 2 * k * 2 ^ 121" using roundEven_multiple [OF qs] mk by simp
    with below have "2 * k * 2 ^ 121 < (c + 1) * 2 ^ 121" by (simp only:)
    then have "2 * k < c + 1" by simp
    then show "2 * n < 3 * (c + 1)" using k by simp
  next
    case False
    have "2 * n \<le> 3 * (c + 1)"
      by (rule enough_thirds [OF err(1) assms(2) below]) (use m(2) in \<open>simp only: a_def\<close>)
    moreover have "2 * n \<noteq> 3 * (c + 1)" using False by presburger
    ultimately show "2 * n < 3 * (c + 1)" by simp
  qed
qed

end
