(* ===== verification/DposState.thy ===== *)
theory DposState
  imports DposIndependence Contract Doubles
begin

section \<open>The DPoS state machine: dpos/state/state.go\<close>

text \<open>
  The handlers of the DPoS state: each reads the state and appends its changes to the history, which
  executes them when the block is committed. The machine is the history together with the state it
  keeps (\<open>dpos\<close>); a handler takes it to the next one, or panics where the code dereferences a nil
  producer, asserts a wrong payload type or slices out of range.

  Reads see the state at the time of the read: the first change appended for a block undoes
  the temporary changes made ahead of it (\<^verbatim>\<open>History.Append\<close>), so what a handler reads before and after
  it may differ, as in the code. Two fields are written past the history, as in the code:
  \<^verbatim>\<open>DepositOutputs\<close> in \<^verbatim>\<open>processDeposit\<close> and \<^verbatim>\<open>PreBlockArbiters\<close> in \<^verbatim>\<open>countArbitratorsInactivity\<close>.
\<close>

type_synonym dpos = "State History \<times> State"

definition appendChange :: "Env \<Rightarrow> u32 \<Rightarrow> DposChange \<Rightarrow> dpos \<Rightarrow> dpos res" where
  "appendChange env ht c = History_Append ht (closures env c)"

abbreviation ActivateDuration :: u32 where "ActivateDuration \<equiv> 6"
abbreviation maxHistoryCapacity :: int where "maxHistoryCapacity \<equiv> 10"

text \<open>Every reference that is not allocated holds the zero producer.\<close>

definition zeroProducer :: Producer where
  "zeroProducer = \<lparr>p_info = \<lparr>info_OwnerPublicKey = [], info_NodePublicKey = [], info_NickName = [],
       info_Url = [], info_Location = 0, info_NetAddress = [], info_Signature = []\<rparr>,
     p_state = Pending, registerHeight = 0, cancelHeight = 0, inactiveCountingHeight = 0,
     inactiveSince = 0, activateRequestHeight = 0, illegalHeight = 0, penalty = 0, votes = 0,
     depositAmount = 0, depositHash = replicate 21 0\<rparr>"

definition NewState :: dpos where
  "NewState = (NewHistory maxHistoryCapacity,
     StateKeyFrame.extend NewStateKeyFrame \<lparr>objects = \<lambda>_. zeroProducer, allocated = 0\<rparr>)"

subsection \<open>Queries\<close>

text \<open>\<^verbatim>\<open>for _, producer := range m\<close>: the producers of a map in the order of the range.\<close>

definition inRange :: "Env \<Rightarrow> (string \<rightharpoonup> nat) \<Rightarrow> nat list" where
  "inRange env m = map (\<lambda>k. the (m k)) (ord env (dom m))"

definition GetProducers :: "Env \<Rightarrow> State \<Rightarrow> nat list" where
  "GetProducers env s = inRange env (PendingProducers s) @ inRange env (ActivityProducers s)"

definition getAllProducers :: "Env \<Rightarrow> State \<Rightarrow> nat list" where
  "getAllProducers env s =
     inRange env (PendingProducers s) @ inRange env (ActivityProducers s) @ inRange env (InactiveProducers s) @
     inRange env (CanceledProducers s) @ inRange env (IllegalProducers s)"

definition GetPendingProducers :: "Env \<Rightarrow> State \<Rightarrow> nat list" where
  "GetPendingProducers env s = inRange env (PendingProducers s)"

definition GetActiveProducers :: "Env \<Rightarrow> State \<Rightarrow> nat list" where
  "GetActiveProducers env s = inRange env (ActivityProducers s)"

definition GetVotedProducers :: "Env \<Rightarrow> State \<Rightarrow> nat list" where
  "GetVotedProducers env s = filter (\<lambda>p. fixed (votes (objects s p)) > 0) (inRange env (ActivityProducers s))"

definition GetCanceledProducers :: "Env \<Rightarrow> State \<Rightarrow> nat list" where
  "GetCanceledProducers env s = inRange env (CanceledProducers s)"

definition GetPendingCanceledProducers :: "Env \<Rightarrow> State \<Rightarrow> nat list" where
  "GetPendingCanceledProducers env s = inRange env (PendingCanceledProducers s)"

definition GetReturnedDepositProducers :: "Env \<Rightarrow> State \<Rightarrow> nat list" where
  "GetReturnedDepositProducers env s =
     filter (\<lambda>p. p_state (objects s p) = Returned) (inRange env (CanceledProducers s))"

definition GetIllegalProducers :: "Env \<Rightarrow> State \<Rightarrow> nat list" where
  "GetIllegalProducers env s = inRange env (IllegalProducers s)"

definition GetInactiveProducers :: "Env \<Rightarrow> State \<Rightarrow> nat list" where
  "GetInactiveProducers env s = inRange env (InactiveProducers s)"

definition IsPendingProducer :: "bytes \<Rightarrow> State \<Rightarrow> bool" where
  "IsPendingProducer publicKey s \<longleftrightarrow> getProducerKey publicKey s \<in> dom (PendingProducers s)"

definition IsActiveProducer :: "bytes \<Rightarrow> State \<Rightarrow> bool" where
  "IsActiveProducer publicKey s \<longleftrightarrow> getProducerKey publicKey s \<in> dom (ActivityProducers s)"

definition IsInactiveProducer :: "bytes \<Rightarrow> State \<Rightarrow> bool" where
  "IsInactiveProducer publicKey s \<longleftrightarrow> getProducerKey publicKey s \<in> dom (InactiveProducers s)"

definition IsCanceledProducer :: "bytes \<Rightarrow> State \<Rightarrow> bool" where
  "IsCanceledProducer publicKey s \<longleftrightarrow> getProducerKey publicKey s \<in> dom (CanceledProducers s)"

definition IsIllegalProducer :: "bytes \<Rightarrow> State \<Rightarrow> bool" where
  "IsIllegalProducer publicKey s \<longleftrightarrow> getProducerKey publicKey s \<in> dom (IllegalProducers s)"

definition ExistProducerByDepositHash :: "Uint168 \<Rightarrow> State \<Rightarrow> bool" where
  "ExistProducerByDepositHash programHash s \<longleftrightarrow> programHash \<in> ProducerDepositMap s"

definition NicknameExists :: "string \<Rightarrow> State \<Rightarrow> bool" where
  "NicknameExists nickname s \<longleftrightarrow> nickname \<in> Nicknames s"

definition ProducerExists :: "bytes \<Rightarrow> State \<Rightarrow> bool" where
  "ProducerExists publicKey s \<longleftrightarrow> getProducer publicKey s \<noteq> None"

definition ProducerOwnerPublicKeyExists :: "bytes \<Rightarrow> State \<Rightarrow> bool" where
  "ProducerOwnerPublicKeyExists publicKey s \<longleftrightarrow>
     getProducerByOwnerPublicKey (hexEncodeToString publicKey) s \<noteq> None"

definition ProducerNodePublicKeyExists :: "bytes \<Rightarrow> State \<Rightarrow> bool" where
  "ProducerNodePublicKeyExists publicKey s \<longleftrightarrow> NodeOwnerKeys s (hexEncodeToString publicKey) \<noteq> None"

definition SpecialTxExists :: "Env \<Rightarrow> Transaction \<Rightarrow> State \<Rightarrow> bool" where
  "SpecialTxExists env tx s =
     (case Option.bind (tx_Payload tx) (DPOSIllegalData_Hash (hashOf env)) of
        None \<Rightarrow> False
      | Some hash \<Rightarrow> hash \<in> SpecialTxHashes s)"

definition IsAbleToRecoverFromInactiveMode :: "State \<Rightarrow> bool" where
  "IsAbleToRecoverFromInactiveMode s =
     (let totalNum = card (EmergencyInactiveArbiters s);
          activatedNum = card {k \<in> EmergencyInactiveArbiters s. InactiveProducers s k = None}
      in totalNum = 0 \<or>
         floatLess (fraction 2 3) (floatDiv (floatOf (int activatedNum)) (floatOf (int totalNum))))"

definition IsAbleToRecoverFromUnderstaffedState :: "Env \<Rightarrow> State \<Rightarrow> bool" where
  "IsAbleToRecoverFromUnderstaffedState env s \<longleftrightarrow>
     int (card (dom (ActivityProducers s))) \<ge> GeneralArbiters (chainParams env)"

definition delegates :: "VoteOutput \<Rightarrow> bool" where
  "delegates p \<longleftrightarrow> list_ex (\<lambda>content. vc_VoteType content = VoteType_Delegate) (vo_Contents p)"

text \<open>The loop over the outputs: a nil payload of a vote output is dereferenced.\<close>

fun votesForProducers :: "Output list \<Rightarrow> bool res" where
  "votesForProducers [] = Inr False"
| "votesForProducers (out # outs) =
     (if out_Type out \<noteq> OTVote then votesForProducers outs
      else case out_Payload out of
             Some (OVoteOutput p) \<Rightarrow>
               (if vo_Version p = VoteProducerVersion then Inr True
                else if delegates p then Inr True else votesForProducers outs)
           | _ \<Rightarrow> Inl NilDereference)"

definition IsDPOSTransaction :: "Transaction \<Rightarrow> State \<Rightarrow> bool res" where
  "IsDPOSTransaction tx s =
     (if tx_TxType tx \<in> {TxType_RegisterProducer, TxType_UpdateProducer, TxType_CancelProducer,
           TxType_ActivateProducer, TxType_IllegalProposalEvidence, TxType_IllegalVoteEvidence,
           TxType_IllegalBlockEvidence, TxType_IllegalSidechainEvidence, TxType_InactiveArbitrators,
           TxType_ReturnDepositCoin}
      then Inr True
      else bindR (if tx_TxType tx = TxType_TransferAsset \<and> tx_Version tx \<ge> TxVersion09
                  then votesForProducers (tx_Outputs tx) else Inr False)
             (\<lambda>b. Inr (b \<or> list_ex (\<lambda>input. Input_ReferKey input \<in> Votes s) (tx_Inputs tx))))"

subsection \<open>Handlers\<close>

text \<open>The key of an output; hashing the transaction panics when an output has no payload.\<close>

definition outPointKey :: "Env \<Rightarrow> Transaction \<Rightarrow> nat \<Rightarrow> string res" where
  "outPointKey env tx i = bindR (Transaction_Hash (hashOf env) tx) (\<lambda>hash.
     Inr (OutPoint_ReferKey \<lparr>op_TxID = hash, op_Index = word_of_nat i\<rparr>))"

definition depositTo ::
    "Env \<Rightarrow> Transaction \<Rightarrow> Uint168 \<Rightarrow> nat \<times> Output \<Rightarrow> Fixed64 \<times> (string \<rightharpoonup> Fixed64) \<Rightarrow>
     (Fixed64 \<times> (string \<rightharpoonup> Fixed64)) res" where
  "depositTo env tx programHash = (\<lambda>(i, output) (amount, depositOutputs).
     if out_ProgramHash output = programHash
     then bindR (outPointKey env tx i) (\<lambda>key.
            Inr (amount + out_Value output, depositOutputs(key \<mapsto> out_Value output)))
     else Inr (amount, depositOutputs))"

definition depositsTo :: "Env \<Rightarrow> Transaction \<Rightarrow> Uint168 \<Rightarrow> (Fixed64 \<times> (string \<rightharpoonup> Fixed64)) res" where
  "depositsTo env tx programHash =
     foldR (depositTo env tx programHash) (enumerate 0 (tx_Outputs tx)) (0, Map.empty)"

text \<open>The error of the deposit address is ignored, and its nil hash dereferenced.\<close>

definition registerProducer :: "Env \<Rightarrow> Transaction \<Rightarrow> u32 \<Rightarrow> dpos \<Rightarrow> dpos res" where
  "registerProducer env tx ht = (\<lambda>(h, s).
     case tx_Payload tx of
       Some (PProducerInfo info) \<Rightarrow>
         bindR (PublicKeyToDepositProgramHash (hash160 env) (info_OwnerPublicKey info)) (\<lambda>r.
           case r of
             Inl err \<Rightarrow> Inl NilDereference
           | Inr programHash \<Rightarrow>
               bindR (depositsTo env tx programHash) (\<lambda>(amount, depositOutputs).
                 let nodeKey = hexEncodeToString (info_NodePublicKey info);
                     ownerKey = hexEncodeToString (info_OwnerPublicKey info);
                     producer = \<lparr>p_info = info, p_state = Pending, registerHeight = ht, cancelHeight = 0,
                       inactiveCountingHeight = 0, inactiveSince = 0, activateRequestHeight = MaxUint32,
                       illegalHeight = 0, penalty = 0, votes = 0, depositAmount = amount,
                       depositHash = programHash\<rparr>;
                     p = allocated s
                 in appendChange env ht
                      (Registered (info_NickName info) nodeKey ownerKey p programHash depositOutputs)
                      (h, s\<lparr>objects := (objects s)(p := producer), allocated := p + 1\<rparr>)))
     | _ \<Rightarrow> Inl TypeAssertion)"

definition updateProducer :: "Env \<Rightarrow> ProducerInfo \<Rightarrow> u32 \<Rightarrow> dpos \<Rightarrow> dpos res" where
  "updateProducer env info ht = (\<lambda>(h, s).
     case getProducer (info_OwnerPublicKey info) s of
       None \<Rightarrow> Inl NilDereference
     | Some p \<Rightarrow> appendChange env ht (InfoUpdated (p_info (objects s p)) info) (h, s))"

definition cancelProducer :: "Env \<Rightarrow> ProcessProducer \<Rightarrow> u32 \<Rightarrow> dpos \<Rightarrow> dpos res" where
  "cancelProducer env payload ht = (\<lambda>(h, s).
     case getProducer (process_OwnerPublicKey payload) s of
       None \<Rightarrow> Inl NilDereference
     | Some p \<Rightarrow>
         appendChange env ht (ProducerCanceled (hexEncodeToString (process_OwnerPublicKey payload)) p
           (p_state (objects s p) = Pending) ht) (h, s))"

definition activateProducer :: "Env \<Rightarrow> ActivateProducer \<Rightarrow> u32 \<Rightarrow> dpos \<Rightarrow> dpos res" where
  "activateProducer env payload ht = (\<lambda>(h, s).
     case getProducer (activate_NodePublicKey payload) s of
       None \<Rightarrow> Inr (h, s)
     | Some p \<Rightarrow> appendChange env ht (ActivateRequested p ht) (h, s))"

text \<open>
  \<^verbatim>\<open>processVoteOutput\<close> and \<^verbatim>\<open>processVoteCancel\<close>: the change of one candidate, the loops, the handlers.
\<close>

definition candidateChange ::
    "Env \<Rightarrow> (nat \<Rightarrow> Fixed64 \<Rightarrow> DposChange) \<Rightarrow> Output \<Rightarrow> u8 \<Rightarrow> u8 \<Rightarrow> u32 \<Rightarrow> CandidateVotes \<Rightarrow> dpos \<Rightarrow> dpos res" where
  "candidateChange env chg output version voteType ht cv = (\<lambda>(h, s).
     case getProducer (cv_Candidate cv) s of
       None \<Rightarrow> Inr (h, s)
     | Some p \<Rightarrow>
         (if voteType = VoteType_Delegate
          then (if version = VoteProducerVersion
                then appendChange env ht (chg p (out_Value output)) (h, s)
                else appendChange env ht (chg p (cv_Votes cv)) (h, s))
          else Inr (h, s)))"

definition voteChanges :: "Env \<Rightarrow> (nat \<Rightarrow> Fixed64 \<Rightarrow> DposChange) \<Rightarrow> Output \<Rightarrow> u32 \<Rightarrow> dpos \<Rightarrow> dpos res" where
  "voteChanges env chg output ht =
     (case out_Payload output of
        Some (OVoteOutput p) \<Rightarrow>
          foldR (\<lambda>vote. foldR (candidateChange env chg output (vo_Version p) (vc_VoteType vote) ht)
            (vc_CandidateVotes vote)) (vo_Contents p)
      | _ \<Rightarrow> (\<lambda>_. Inl TypeAssertion))"

definition processVoteOutput :: "Env \<Rightarrow> Output \<Rightarrow> u32 \<Rightarrow> dpos \<Rightarrow> dpos res" where
  "processVoteOutput env output ht = voteChanges env VotesAdded output ht"

definition processVoteCancel :: "Env \<Rightarrow> Output \<Rightarrow> u32 \<Rightarrow> dpos \<Rightarrow> dpos res" where
  "processVoteCancel env output ht = voteChanges env VotesSubtracted output ht"

definition recordVote :: "Env \<Rightarrow> Transaction \<Rightarrow> u32 \<Rightarrow> nat \<times> Output \<Rightarrow> dpos \<Rightarrow> dpos res" where
  "recordVote env tx ht = (\<lambda>(i, output) hs.
     if out_Type output \<noteq> OTVote then Inr hs
     else case out_Payload output of
            Some (OVoteOutput p) \<Rightarrow>
              (if vo_Version p = VoteProducerVersion \<or> delegates p
               then bindR (outPointKey env tx i) (\<lambda>key.
                    bindR (appendChange env ht (VoteRecorded key) hs) (processVoteOutput env output ht))
               else Inr hs)
          | _ \<Rightarrow> Inl NilDereference)"

definition processVotes :: "Env \<Rightarrow> Transaction \<Rightarrow> u32 \<Rightarrow> dpos \<Rightarrow> dpos res" where
  "processVotes env tx ht hs =
     (if tx_Version tx \<ge> TxVersion09 then foldR (recordVote env tx ht) (enumerate 0 (tx_Outputs tx)) hs
      else Inr hs)"

definition cancelVote :: "Env \<Rightarrow> (nat \<Rightarrow> Output option) \<Rightarrow> u32 \<Rightarrow> nat \<times> Input \<Rightarrow> dpos \<Rightarrow> dpos res" where
  "cancelVote env references ht = (\<lambda>(i, input) (h, s).
     if Input_ReferKey input \<in> Votes s
     then (case references i of
             None \<Rightarrow> Inl TypeAssertion
           | Some out \<Rightarrow> processVoteCancel env out ht (h, s))
     else Inr (h, s))"

text \<open>An input without a reference gives the zero output, whose nil payload fails the assertion.\<close>

definition processCancelVotes :: "Env \<Rightarrow> Transaction \<Rightarrow> u32 \<Rightarrow> dpos \<Rightarrow> dpos res" where
  "processCancelVotes env tx ht = (\<lambda>(h, s).
     if \<not> list_ex (\<lambda>input. Input_ReferKey input \<in> Votes s) (tx_Inputs tx) then Inr (h, s)
     else case getTxReference env tx of
            None \<Rightarrow> Inr (h, s)
          | Some references \<Rightarrow> foldR (cancelVote env references ht) (enumerate 0 (tx_Inputs tx)) (h, s))"

definition setAmount :: "Env \<Rightarrow> u32 \<Rightarrow> nat \<Rightarrow> dpos \<Rightarrow> dpos res" where
  "setAmount env ht p = (\<lambda>(h, s).
     bindR (PublicKeyToDepositProgramHash (hash160 env) (info_OwnerPublicKey (p_info (objects s p)))) (\<lambda>r.
       case r of
         Inl err \<Rightarrow> Inr (h, s)
       | Inr programHash \<Rightarrow>
           (case getProducerDepositAmount env programHash of
              None \<Rightarrow> Inr (h, s)
            | Some amount \<Rightarrow> appendChange env ht (DepositInitialised p amount) (h, s))))"

definition tryInitProducerAssetAmounts :: "Env \<Rightarrow> u32 \<Rightarrow> dpos \<Rightarrow> dpos res" where
  "tryInitProducerAssetAmounts env ht hs =
     (if ht \<noteq> CRVotingStartHeight (chainParams env) then Inr hs
      else foldR (setAmount env ht) (getAllProducers env (snd hs)) hs)"

definition getProducerByDepositHash :: "Env \<Rightarrow> Uint168 \<Rightarrow> State \<Rightarrow> nat option" where
  "getProducerByDepositHash env hash s = find (\<lambda>p. depositHash (objects s p) = hash) (getAllProducers env s)"

definition addProducerAssert :: "Env \<Rightarrow> Output \<Rightarrow> u32 \<Rightarrow> dpos \<Rightarrow> (bool \<times> dpos) res" where
  "addProducerAssert env output ht = (\<lambda>(h, s).
     case getProducerByDepositHash env (out_ProgramHash output) s of
       None \<Rightarrow> Inr (False, h, s)
     | Some p \<Rightarrow> bindR (appendChange env ht (DepositAdded p (out_Value output)) (h, s)) (\<lambda>hs. Inr (True, hs)))"

definition depositOutput :: "Env \<Rightarrow> Transaction \<Rightarrow> u32 \<Rightarrow> nat \<times> Output \<Rightarrow> dpos \<Rightarrow> dpos res" where
  "depositOutput env tx ht = (\<lambda>(i, output) hs.
     if GetPrefixType (out_ProgramHash output) = PrefixDeposit
     then bindR (addProducerAssert env output ht hs) (\<lambda>(found, h, s).
            if found
            then bindR (outPointKey env tx i) (\<lambda>key.
                   Inr (h, s\<lparr>DepositOutputs := (DepositOutputs s)(key \<mapsto> out_Value output)\<rparr>))
            else Inr (h, s))
     else Inr hs)"

definition processDeposit :: "Env \<Rightarrow> Transaction \<Rightarrow> u32 \<Rightarrow> dpos \<Rightarrow> dpos res" where
  "processDeposit env tx ht = foldR (depositOutput env tx ht) (enumerate 0 (tx_Outputs tx))"

definition returnProgram :: "Env \<Rightarrow> Fixed64 \<Rightarrow> u32 \<Rightarrow> Program \<Rightarrow> dpos \<Rightarrow> dpos res" where
  "returnProgram env inputValue ht program = (\<lambda>(h, s).
     if length (prog_Code program) < 2 then Inl IndexOutOfRange
     else case getProducer (drop 1 (butlast (prog_Code program))) s of
            None \<Rightarrow> Inr (h, s)
          | Some p \<Rightarrow>
              (if p_state (objects s p) = Canceled
               then appendChange env ht (DepositReturned p inputValue ht) (h, s) else Inr (h, s)))"

definition returnDeposit :: "Env \<Rightarrow> Transaction \<Rightarrow> u32 \<Rightarrow> dpos \<Rightarrow> dpos res" where
  "returnDeposit env tx ht = (\<lambda>(h, s).
     let inputValue = fold (\<lambda>input v. v + (case DepositOutputs s (Input_ReferKey input) of
           None \<Rightarrow> 0 | Some x \<Rightarrow> x)) (tx_Inputs tx) 0
     in foldR (returnProgram env inputValue ht) (tx_Programs tx) (h, s))"

definition updateVersion :: "Env \<Rightarrow> Transaction \<Rightarrow> u32 \<Rightarrow> dpos \<Rightarrow> dpos res" where
  "updateVersion env tx ht = (\<lambda>(h, s).
     case tx_Payload tx of
       Some (PUpdateVersion p) \<Rightarrow>
         appendChange env ht (VersionUpdated (update_StartHeight p) (update_EndHeight p)
           (VersionStartHeight s) (VersionEndHeight s)) (h, s)
     | _ \<Rightarrow> Inr (h, s))"

definition emergencyArbitrator :: "Env \<Rightarrow> u32 \<Rightarrow> bytes \<Rightarrow> dpos \<Rightarrow> dpos res" where
  "emergencyArbitrator env ht v = (\<lambda>(h, s).
     case NodeOwnerKeys s (hexEncodeToString v) of
       None \<Rightarrow> Inr (h, s)
     | Some key \<Rightarrow>
         bindR (case ActivityProducers s key of
                  None \<Rightarrow> Inr (h, s)
                | Some p \<Rightarrow> appendChange env ht (EmergencyInactivated key p ht) (h, s)) (\<lambda>(h, s).
           case InactiveProducers s key of
             None \<Rightarrow> Inr (h, s)
           | Some p \<Rightarrow> appendChange env ht (EmergencyInactivated key p ht) (h, s)))"

definition processEmergencyInactiveArbitrators :: "Env \<Rightarrow> InactiveArbitrators \<Rightarrow> u32 \<Rightarrow> dpos \<Rightarrow> dpos res" where
  "processEmergencyInactiveArbitrators env inactivePayload ht =
     foldR (emergencyArbitrator env ht) (ia_Arbitrators inactivePayload)"

definition recordSpecialTx :: "Env \<Rightarrow> Transaction \<Rightarrow> u32 \<Rightarrow> dpos \<Rightarrow> dpos res" where
  "recordSpecialTx env tx ht hs =
     (case Option.bind (tx_Payload tx) (DPOSIllegalData_Hash (hashOf env)) of
        None \<Rightarrow> Inr hs
      | Some hash \<Rightarrow> appendChange env ht (SpecialTxRecorded hash) hs)"

definition illegalProducer :: "Env \<Rightarrow> u32 \<Rightarrow> bytes \<Rightarrow> dpos \<Rightarrow> dpos res" where
  "illegalProducer env ht pk = (\<lambda>(h, s).
     case NodeOwnerKeys s (hexEncodeToString pk) of
       None \<Rightarrow> Inr (h, s)
     | Some key \<Rightarrow>
         (case ActivityProducers s key of
            Some p \<Rightarrow> appendChange env ht (IllegalFromActive key p ht) (h, s)
          | None \<Rightarrow>
              (case CanceledProducers s key of
                 Some p \<Rightarrow> appendChange env ht (IllegalFromCanceled key p ht) (h, s)
               | None \<Rightarrow> Inr (h, s))))"

text \<open>The signers of both blocks, compared by their hexadecimal form as in the code.\<close>

fun evidencedProducers :: "Payload option \<Rightarrow> bytes list" where
  "evidencedProducers (Some (PDPOSIllegalProposals p)) = [proposal_Sponsor (pe_Proposal (ip_Evidence p))]"
| "evidencedProducers (Some (PDPOSIllegalVotes p)) = [vote_Signer (ve_Vote (iv_Evidence p))]"
| "evidencedProducers (Some (PDPOSIllegalBlocks p)) =
     filter (\<lambda>pk. hexEncodeToString pk \<in> set (map hexEncodeToString (be_Signers (ib_Evidence p))))
       (be_Signers (ib_CompareEvidence p))"
| "evidencedProducers (Some (PSidechainIllegalData p)) = [sid_IllegalSigner p]"
| "evidencedProducers _ = []"

definition processIllegalEvidence :: "Env \<Rightarrow> Payload option \<Rightarrow> u32 \<Rightarrow> dpos \<Rightarrow> dpos res" where
  "processIllegalEvidence env payloadData ht = foldR (illegalProducer env ht) (evidencedProducers payloadData)"

definition ProcessSpecialTxPayload :: "Env \<Rightarrow> Payload \<Rightarrow> u32 \<Rightarrow> dpos \<Rightarrow> dpos res" where
  "ProcessSpecialTxPayload env p ht hs =
     bindR (case p of
              PInactiveArbitrators inactivePayload \<Rightarrow> processEmergencyInactiveArbitrators env inactivePayload 0 hs
            | _ \<Rightarrow> processIllegalEvidence env (Some p) 0 hs)
       (History_Commit ht)"

definition processTransaction :: "Env \<Rightarrow> u32 \<Rightarrow> Transaction \<Rightarrow> dpos \<Rightarrow> dpos res" where
  "processTransaction env ht tx hs =
     bindR
      (if tx_TxType tx = TxType_RegisterProducer then registerProducer env tx ht hs
       else if tx_TxType tx = TxType_UpdateProducer then
         (case tx_Payload tx of Some (PProducerInfo p) \<Rightarrow> updateProducer env p ht hs | _ \<Rightarrow> Inl TypeAssertion)
       else if tx_TxType tx = TxType_CancelProducer then
         (case tx_Payload tx of Some (PProcessProducer p) \<Rightarrow> cancelProducer env p ht hs | _ \<Rightarrow> Inl TypeAssertion)
       else if tx_TxType tx = TxType_ActivateProducer then
         (case tx_Payload tx of Some (PActivateProducer p) \<Rightarrow> activateProducer env p ht hs | _ \<Rightarrow> Inl TypeAssertion)
       else if tx_TxType tx = TxType_TransferAsset then
         bindR (processVotes env tx ht hs) (processDeposit env tx ht)
       else if tx_TxType tx = TxType_IllegalProposalEvidence \<or> tx_TxType tx = TxType_IllegalVoteEvidence \<or>
               tx_TxType tx = TxType_IllegalBlockEvidence \<or> tx_TxType tx = TxType_IllegalSidechainEvidence then
         bindR (processIllegalEvidence env (tx_Payload tx) ht hs) (recordSpecialTx env tx ht)
       else if tx_TxType tx = TxType_InactiveArbitrators then
         (case tx_Payload tx of
            Some (PInactiveArbitrators p) \<Rightarrow>
              bindR (processEmergencyInactiveArbitrators env p ht hs) (recordSpecialTx env tx ht)
          | _ \<Rightarrow> Inl TypeAssertion)
       else if tx_TxType tx = TxType_ReturnDepositCoin then
         bindR (returnDeposit env tx ht hs) (processDeposit env tx ht)
       else if tx_TxType tx = TxType_UpdateVersion then updateVersion env tx ht hs
       else Inr hs)
      (processCancelVotes env tx ht)"

subsection \<open>Blocks\<close>

text \<open>A range over a map while the history may change it: a key that is gone is not visited.\<close>

definition rangeMap :: "Env \<Rightarrow> (State \<Rightarrow> string \<rightharpoonup> nat) \<Rightarrow> (string \<Rightarrow> nat \<Rightarrow> dpos \<Rightarrow> dpos res) \<Rightarrow> dpos \<Rightarrow> dpos res" where
  "rangeMap env m body hs =
     foldR (\<lambda>key hs. case m (snd hs) key of None \<Rightarrow> Inr hs | Some p \<Rightarrow> body key p hs)
       (ord env (dom (m (snd hs)))) hs"

definition activatePending :: "Env \<Rightarrow> u32 \<Rightarrow> string \<Rightarrow> nat \<Rightarrow> dpos \<Rightarrow> dpos res" where
  "activatePending env ht key p hs =
     (if ht - registerHeight (objects (snd hs) p) + 1 \<ge> ActivateDuration
      then appendChange env ht (ActivatedFromPending key p) hs else Inr hs)"

definition requestConfirmed :: "u32 \<Rightarrow> Producer \<Rightarrow> bool" where
  "requestConfirmed ht producer \<longleftrightarrow>
     ht > activateRequestHeight producer \<and> ht - activateRequestHeight producer + 1 \<ge> ActivateDuration"

definition activateInactive :: "Env \<Rightarrow> u32 \<Rightarrow> string \<Rightarrow> nat \<Rightarrow> dpos \<Rightarrow> dpos res" where
  "activateInactive env ht key p hs =
     (if requestConfirmed ht (objects (snd hs) p)
      then appendChange env ht (ActivatedFromInactive key p) hs else Inr hs)"

definition activateIllegal :: "Env \<Rightarrow> u32 \<Rightarrow> string \<Rightarrow> nat \<Rightarrow> dpos \<Rightarrow> dpos res" where
  "activateIllegal env ht key p hs =
     (if requestConfirmed ht (objects (snd hs) p)
      then appendChange env ht (ActivatedFromIllegal key p) hs else Inr hs)"

definition processTransactions :: "Env \<Rightarrow> Transaction list \<Rightarrow> u32 \<Rightarrow> dpos \<Rightarrow> dpos res" where
  "processTransactions env txs ht hs =
     bindR (foldR (processTransaction env ht) txs hs) (\<lambda>hs.
     bindR (rangeMap env PendingProducers (activatePending env ht) hs) (\<lambda>hs.
     bindR (rangeMap env InactiveProducers (activateInactive env ht) hs) (\<lambda>hs.
     if ht \<ge> EnableActivateIllegalHeight (chainParams env)
     then rangeMap env IllegalProducers (activateIllegal env ht) hs else Inr hs)))"

definition ProcessVoteStatisticsBlock :: "Env \<Rightarrow> Transaction list \<Rightarrow> u32 \<Rightarrow> dpos \<Rightarrow> dpos res" where
  "ProcessVoteStatisticsBlock env txs ht hs =
     (if ht = VoteStatisticsHeight (chainParams env) then processTransactions env txs ht hs else Inr hs)"

text \<open>The arbiters to look at: \<open>Some True\<close> where the counting is reset, \<open>Some False\<close> where it goes on.\<close>

definition changingArbiters :: "Env \<Rightarrow> Confirm \<Rightarrow> State \<Rightarrow> string \<rightharpoonup> bool" where
  "changingArbiters env confirm s =
     (fold (\<lambda>a m. let key = getProducerKey a s in if m key \<noteq> None then m(key \<mapsto> False) else m)
        (getArbiters env) (\<lambda>k. if k \<in> PreBlockArbiters s then Some True else None))
       (getProducerKey (proposal_Sponsor (confirm_Proposal confirm)) s \<mapsto> True)"

definition countArbiter :: "Env \<Rightarrow> u32 \<Rightarrow> (string \<rightharpoonup> bool) \<Rightarrow> string \<Rightarrow> dpos \<Rightarrow> dpos res" where
  "countArbiter env ht changing key = (\<lambda>(h, s).
     case ActivityProducers s key of
       None \<Rightarrow> Inr (h, s)
     | Some p \<Rightarrow>
         appendChange env ht (InactivityCounted key p (the (changing key)) ht
           (inactiveCountingHeight (objects s p))) (h, s))"

definition countArbitratorsInactivity :: "Env \<Rightarrow> u32 \<Rightarrow> Confirm \<Rightarrow> dpos \<Rightarrow> dpos res" where
  "countArbitratorsInactivity env ht confirm = (\<lambda>(h, s).
     if ht < PublicDPOSHeight (chainParams env) then Inr (h, s)
     else (let changing = changingArbiters env confirm s;
               s1 = s\<lparr>PreBlockArbiters := set (map (\<lambda>a. getProducerKey a s) (getArbiters env))\<rparr>
           in foldR (countArbiter env ht changing) (ord env (dom changing)) (h, s1)))"

definition ProcessBlock :: "Env \<Rightarrow> Transaction list \<Rightarrow> u32 \<Rightarrow> Confirm option \<Rightarrow> dpos \<Rightarrow> dpos res" where
  "ProcessBlock env txs ht confirm hs =
     bindR (tryInitProducerAssetAmounts env ht hs) (\<lambda>hs.
     bindR (processTransactions env txs ht hs) (\<lambda>hs.
     bindR (ProcessVoteStatisticsBlock env txs ht hs) (\<lambda>hs.
     bindR (case confirm of None \<Rightarrow> Inr hs | Some c \<Rightarrow> countArbitratorsInactivity env ht c hs) (\<lambda>hs.
     History_Commit ht hs))))"

definition State_RollbackTo :: "u32 \<Rightarrow> dpos \<Rightarrow> dpos res" where
  "State_RollbackTo ht = History_RollbackTo ht"

text \<open>The history \<^verbatim>\<open>LeaveEmergency\<close> appends to is an argument, the one of the arbitrators, not that of the state.\<close>

definition LeaveEmergency :: "Env \<Rightarrow> State History \<Rightarrow> u32 \<Rightarrow> State \<Rightarrow> (State History \<times> State) res" where
  "LeaveEmergency env history ht s =
     History_Append ht (closures env (EmergencyLeft (EmergencyInactiveArbiters s))) (history, s)"

text \<open>
  \<^verbatim>\<open>snapshot\<close> copies the producers out of the store, and leaves the emergency arbiters and the update
  period at their zero values.
\<close>

definition snapshot :: "State \<Rightarrow> Producer StateKeyFrame" where
  "snapshot s = \<lparr>NodeOwnerKeys = NodeOwnerKeys s,
     PendingProducers = map_option (objects s) \<circ> PendingProducers s,
     ActivityProducers = map_option (objects s) \<circ> ActivityProducers s,
     InactiveProducers = map_option (objects s) \<circ> InactiveProducers s,
     CanceledProducers = map_option (objects s) \<circ> CanceledProducers s,
     IllegalProducers = map_option (objects s) \<circ> IllegalProducers s,
     PendingCanceledProducers = map_option (objects s) \<circ> PendingCanceledProducers s,
     Votes = Votes s, DepositOutputs = DepositOutputs s, Nicknames = Nicknames s,
     SpecialTxHashes = SpecialTxHashes s, PreBlockArbiters = PreBlockArbiters s,
     ProducerDepositMap = ProducerDepositMap s, EmergencyInactiveArbiters = {},
     VersionStartHeight = 0, VersionEndHeight = 0\<rparr>"

definition GetHistory :: "u32 \<Rightarrow> dpos \<Rightarrow> ((hist_error + Producer StateKeyFrame) \<times> dpos) res" where
  "GetHistory ht hs = bindR (History_SeekTo ht hs) (\<lambda>(err, h, s).
     Inr (case err of Some e \<Rightarrow> Inl e | None \<Rightarrow> Inr (snapshot s), h, s))"

end
