(* ===== verification/DposBlock.thy ===== *)
theory DposBlock
  imports DposState
begin

section \<open>Blocks of the DPoS state\<close>

subsection \<open>What the handlers leave behind\<close>

text \<open>
  Before the block is committed the handlers have only recorded changes: apart from the two fields
  written past the history and newly allocated producers the state is as it was (\<open>untouched\<close>), and
  the history has grown by the closures of some changes (\<open>records\<close>).
\<close>

definition masked :: "State \<Rightarrow> State" where
  "masked s = s\<lparr>DepositOutputs := Map.empty, PreBlockArbiters := {}, objects := \<lambda>_. zeroProducer, allocated := 0\<rparr>"

definition untouched :: "State \<Rightarrow> State \<Rightarrow> bool" where
  "untouched s s' \<longleftrightarrow> masked s' = masked s \<and> allocated s \<le> allocated s' \<and>
     (\<forall>p < allocated s. objects s' p = objects s p)"

definition recorded :: "State History \<Rightarrow> State change list" where
  "recorded h = (case cachedChanges h of None \<Rightarrow> [] | Some hc \<Rightarrow> hc_changes hc)"

definition quiet :: "u32 \<Rightarrow> State History \<Rightarrow> bool" where
  "quiet ht h \<longleftrightarrow> tempChanges h = [] \<and> (\<forall>hc. cachedChanges h = Some hc \<longrightarrow> hc_height hc = ht)"

text \<open>
  A handler takes a history to one with further recorded changes, and leaves the rest of the history and the
  state as they were; each of the changes satisfies \<open>P\<close> in the state it leaves.
\<close>

definition records :: "(State \<Rightarrow> DposChange \<Rightarrow> bool) \<Rightarrow> Env \<Rightarrow> u32 \<Rightarrow> dpos \<Rightarrow> dpos \<Rightarrow> bool" where
  "records P env ht hs hs' \<longleftrightarrow> quiet ht (fst hs') \<and> untouched (snd hs) (snd hs') \<and>
     (fst hs')\<lparr>cachedChanges := None\<rparr> = (fst hs)\<lparr>cachedChanges := None\<rparr> \<and>
     (\<exists>cs. recorded (fst hs') = recorded (fst hs) @ map (closures env) cs \<and> (\<forall>c \<in> set cs. P (snd hs') c))"

definition recording ::
  "(State \<Rightarrow> bool) \<Rightarrow> (State \<Rightarrow> DposChange \<Rightarrow> bool) \<Rightarrow> Env \<Rightarrow> u32 \<Rightarrow> (dpos \<Rightarrow> dpos res) \<Rightarrow> bool" where
  "recording I P env ht f \<longleftrightarrow>
     (\<forall>hs hs'. quiet ht (fst hs) \<longrightarrow> I (snd hs) \<longrightarrow> f hs = Inr hs' \<longrightarrow> records P env ht hs hs')"

lemma untouched_refl [simp]: "untouched s s"
  by (simp add: untouched_def)

lemma untouched_trans: "untouched s t \<Longrightarrow> untouched t u \<Longrightarrow> untouched s u"
  by (auto simp: untouched_def)

text \<open>The changes that leave the maps of producers and the states of the producers alone.\<close>

fun neutral :: "DposChange \<Rightarrow> bool" where
  "neutral (ActivateRequested p ht) \<longleftrightarrow> True"
| "neutral (VoteRecorded key) \<longleftrightarrow> True"
| "neutral (VotesAdded p v) \<longleftrightarrow> True"
| "neutral (VotesSubtracted p v) \<longleftrightarrow> True"
| "neutral (DepositInitialised p v) \<longleftrightarrow> True"
| "neutral (DepositAdded p v) \<longleftrightarrow> True"
| "neutral (VersionUpdated a b c d) \<longleftrightarrow> True"
| "neutral (SpecialTxRecorded hash) \<longleftrightarrow> True"
| "neutral _ \<longleftrightarrow> False"

lemmas neutrals = neutral.simps(1-8) [THEN iffD2, OF TrueI]

lemma case_sum_panic:
  "(case r of Inl e \<Rightarrow> Inl (p :: go_panic) | Inr x \<Rightarrow> g x) = Inr y \<longleftrightarrow> (\<exists>x. r = Inr x \<and> g x = Inr y)"
  by (cases r) auto

lemma case_sum_skip:
  "(case r of Inl e \<Rightarrow> Inr z | Inr x \<Rightarrow> g x) = Inr y \<longleftrightarrow> (\<exists>e. r = Inl e \<and> y = z) \<or> (\<exists>x. r = Inr x \<and> g x = Inr y)"
  by (cases r) auto

text \<open>
  What a property \<open>P\<close> of changes must satisfy to hold of every change a block records, in the states with \<open>I\<close>
  and for the transactions in \<open>T\<close>: it holds of each change in the situation in which a handler records it.
\<close>

locale recorder =
  fixes I :: "State \<Rightarrow> bool" and P :: "State \<Rightarrow> DposChange \<Rightarrow> bool" and T :: "Transaction set"
  assumes keeps_state: "I s \<Longrightarrow> untouched s s' \<Longrightarrow> I s'"
    and keeps_change: "I s \<Longrightarrow> P s c \<Longrightarrow> untouched s s' \<Longrightarrow> P s' c"
    and on_neutral: "I s \<Longrightarrow> neutral c \<Longrightarrow> P s c"
    and on_register: "I s \<Longrightarrow> tx \<in> T \<Longrightarrow> tx_TxType tx = TxType_RegisterProducer \<Longrightarrow>
      tx_Payload tx = Some (PProducerInfo info) \<Longrightarrow> p_info x = info \<Longrightarrow> p_state x = Pending \<Longrightarrow>
      P (s\<lparr>objects := (objects s)(allocated s := x), allocated := allocated s + 1\<rparr>)
        (Registered (info_NickName info) (hexEncodeToString (info_NodePublicKey info))
          (hexEncodeToString (info_OwnerPublicKey info)) (allocated s) hash outs)"
    and on_update: "I s \<Longrightarrow> tx \<in> T \<Longrightarrow> tx_TxType tx = TxType_UpdateProducer \<Longrightarrow>
      tx_Payload tx = Some (PProducerInfo info) \<Longrightarrow> getProducer (info_OwnerPublicKey info) s = Some p \<Longrightarrow>
      P s (InfoUpdated (p_info (objects s p)) info)"
    and on_cancel: "I s \<Longrightarrow> tx \<in> T \<Longrightarrow> tx_TxType tx = TxType_CancelProducer \<Longrightarrow>
      tx_Payload tx = Some (PProcessProducer payload) \<Longrightarrow> getProducer (process_OwnerPublicKey payload) s = Some p \<Longrightarrow>
      P s (ProducerCanceled (hexEncodeToString (process_OwnerPublicKey payload)) p (p_state (objects s p) = Pending) ht)"
    and on_return: "I s \<Longrightarrow> getProducer k s = Some p \<Longrightarrow> p_state (objects s p) = Canceled \<Longrightarrow> P s (DepositReturned p v ht)"
    and on_emergency: "I s \<Longrightarrow> ActivityProducers s key = Some p \<or> InactiveProducers s key = Some p \<Longrightarrow>
      P s (EmergencyInactivated key p ht)"
    and on_illegal: "I s \<Longrightarrow> ActivityProducers s key = Some p \<Longrightarrow> P s (IllegalFromActive key p ht)"
      "I s \<Longrightarrow> CanceledProducers s key = Some p \<Longrightarrow> P s (IllegalFromCanceled key p ht)"
    and on_activation: "I s \<Longrightarrow> PendingProducers s key = Some p \<Longrightarrow> P s (ActivatedFromPending key p)"
      "I s \<Longrightarrow> InactiveProducers s key = Some p \<Longrightarrow> P s (ActivatedFromInactive key p)"
      "I s \<Longrightarrow> IllegalProducers s key = Some p \<Longrightarrow> P s (ActivatedFromIllegal key p)"
    and on_count: "I s \<Longrightarrow> ActivityProducers s key = Some p \<Longrightarrow> P s (InactivityCounted key p needReset ht n)"
begin

lemma records_refl: "quiet ht (fst hs) \<Longrightarrow> records P env ht hs hs"
  by (simp add: records_def exI [of _ "[]"])

lemma records_state: "records P env ht hs hs' \<Longrightarrow> I (snd hs) \<Longrightarrow> I (snd hs')"
  using keeps_state by (auto simp: records_def)

lemma records_trans:
  assumes "records P env ht a b" and "records P env ht b c" and "I (snd a)"
  shows "records P env ht a c"
proof -
  obtain cs ds where cs: "recorded (fst b) = recorded (fst a) @ map (closures env) cs" "\<forall>c \<in> set cs. P (snd b) c"
    and ds: "recorded (fst c) = recorded (fst b) @ map (closures env) ds" "\<forall>d \<in> set ds. P (snd c) d"
    using assms(1,2) unfolding records_def by blast
  have bc: "untouched (snd b) (snd c)" using assms(2) by (simp add: records_def)
  have "\<forall>d \<in> set (cs @ ds). P (snd c) d"
    using cs(2) ds(2) keeps_change [OF records_state [OF assms(1,3)] _ bc] by auto
  moreover have "recorded (fst c) = recorded (fst a) @ map (closures env) (cs @ ds)" using cs(1) ds(1) by simp
  ultimately have "\<exists>es. recorded (fst c) = recorded (fst a) @ map (closures env) es \<and> (\<forall>d \<in> set es. P (snd c) d)"
    by blast
  moreover have "untouched (snd a) (snd c)" using assms(1) bc untouched_trans unfolding records_def by blast
  moreover have "(fst c)\<lparr>cachedChanges := None\<rparr> = (fst a)\<lparr>cachedChanges := None\<rparr>"
    using assms(1,2) unfolding records_def by (simp only:)
  ultimately show ?thesis using assms(2) unfolding records_def by blast
qed

lemma records_untouched: "quiet ht h \<Longrightarrow> untouched s s' \<Longrightarrow> records P env ht (h, s) (h, s')"
  by (simp add: records_def exI [of _ "[]"])

lemma recordingI:
  "(\<And>h s hs'. quiet ht h \<Longrightarrow> I s \<Longrightarrow> f (h, s) = Inr hs' \<Longrightarrow> records P env ht (h, s) hs') \<Longrightarrow> recording I P env ht f"
  by (auto simp: recording_def)

lemma recordingD:
  "recording I P env ht f \<Longrightarrow> f hs = Inr hs' \<Longrightarrow> quiet ht (fst hs) \<Longrightarrow> I (snd hs) \<Longrightarrow> records P env ht hs hs'"
  unfolding recording_def by blast

lemma appendD:
  assumes "ht \<noteq> 0" and r: "appendChange env ht c (h, s) = Inr hs'" and q: "quiet ht h" and "P s c"
  shows "records P env ht (h, s) hs'"
proof -
  have "hs' = (h\<lparr>cachedChanges := Some \<lparr>hc_height = ht, hc_changes = recorded h @ map (closures env) [c]\<rparr>\<rparr>, s)"
    using q r assms(1)
    by (auto simp: appendChange_def History_Append_def quiet_def recorded_def HeightChanges_append_def
        split: option.splits if_splits)
  then show ?thesis
    using q assms(4)
    by (simp add: records_def quiet_def recorded_def [of "cachedChanges_update _ _"] exI [of _ "[c]"])
qed

lemma recording_neutral: "ht \<noteq> 0 \<Longrightarrow> neutral c \<Longrightarrow> recording I P env ht (appendChange env ht c)"
  by (rule recordingI) (blast intro: appendD on_neutral neutrals)

lemma recording_bind:
  assumes "recording I P env ht f" and "recording I P env ht g"
  shows "recording I P env ht (\<lambda>hs. bindR (f hs) g)"
proof (rule recordingI)
  fix h s hs'
  assume q: "quiet ht h" "I s" and "bindR (f (h, s)) g = Inr hs'"
  then obtain m where m: "f (h, s) = Inr m" "g m = Inr hs'" by auto
  have 1: "records P env ht (h, s) m" using recordingD [OF assms(1) m(1)] q by simp
  then have "records P env ht m hs'"
    using recordingD [OF assms(2) m(2)] records_state [OF 1] q by (simp add: records_def)
  with 1 show "records P env ht (h, s) hs'" by (rule records_trans) (simp add: q)
qed

lemma recording_foldR:
  assumes "\<And>x. x \<in> set xs \<Longrightarrow> recording I P env ht (f x)"
  shows "recording I P env ht (foldR f xs)"
  using assms
proof (induction xs)
  case Nil
  show ?case by (rule recordingI) (auto intro: records_refl)
next
  case (Cons x xs)
  then have "recording I P env ht (\<lambda>hs. bindR (f x hs) (foldR f xs))"
    by (intro recording_bind) simp_all
  then show ?case by (simp add: recording_def)
qed

lemma recording_if:
  "(b \<Longrightarrow> recording I P env ht f) \<Longrightarrow> (\<not> b \<Longrightarrow> recording I P env ht g) \<Longrightarrow>
     recording I P env ht (\<lambda>hs. if b then f hs else g hs)"
  by (simp add: recording_def)

lemma recording_Inr: "recording I P env ht Inr"
  by (rule recordingI) (auto intro: records_refl)

text \<open>Every handler only records.\<close>

lemma recording_register:
  assumes "ht \<noteq> 0" and "tx \<in> T" and "tx_TxType tx = TxType_RegisterProducer"
  shows "recording I P env ht (registerProducer env tx ht)"
proof (rule recordingI)
  fix h s hs'
  assume q: "quiet ht h" "I s" and "registerProducer env tx ht (h, s) = Inr hs'"
  then obtain info x hash outs where pay: "tx_Payload tx = Some (PProducerInfo info)" "p_info x = info" "p_state x = Pending"
    and r: "appendChange env ht (Registered (info_NickName info) (hexEncodeToString (info_NodePublicKey info))
          (hexEncodeToString (info_OwnerPublicKey info)) (allocated s) hash outs)
      (h, s\<lparr>objects := (objects s)(allocated s := x), allocated := allocated s + 1\<rparr>) = Inr hs'"
    by (auto simp: registerProducer_def Let_def case_sum_panic split: option.splits Payload.splits)
      (metis Producer.select_convs(1,2))
  have "untouched s (s\<lparr>objects := (objects s)(allocated s := x), allocated := allocated s + 1\<rparr>)"
    by (simp add: untouched_def masked_def)
  then have "records P env ht (h, s) (h, s\<lparr>objects := (objects s)(allocated s := x), allocated := allocated s + 1\<rparr>)"
    by (rule records_untouched [OF q(1)])
  moreover have "records P env ht (h, s\<lparr>objects := (objects s)(allocated s := x), allocated := allocated s + 1\<rparr>) hs'"
    by (rule appendD [OF assms(1) r q(1) on_register [OF q(2) assms(2,3) pay]])
  ultimately show "records P env ht (h, s) hs'" by (rule records_trans) (simp add: q)
qed

lemma recording_update:
  assumes "ht \<noteq> 0" and "tx \<in> T" and "tx_TxType tx = TxType_UpdateProducer"
  shows "recording I P env ht (\<lambda>hs. case tx_Payload tx of
    Some (PProducerInfo p) \<Rightarrow> updateProducer env p ht hs | _ \<Rightarrow> Inl TypeAssertion)"
  by (rule recordingI)
    (auto simp: updateProducer_def split: option.splits Payload.splits
      intro: appendD [OF assms(1)] on_update [OF _ assms(2,3)])

lemma recording_cancel:
  assumes "ht \<noteq> 0" and "tx \<in> T" and "tx_TxType tx = TxType_CancelProducer"
  shows "recording I P env ht (\<lambda>hs. case tx_Payload tx of
    Some (PProcessProducer p) \<Rightarrow> cancelProducer env p ht hs | _ \<Rightarrow> Inl TypeAssertion)"
  by (rule recordingI)
    (auto simp: cancelProducer_def split: option.splits Payload.splits
      intro: appendD [OF assms(1)] on_cancel [OF _ assms(2,3)])

lemma recording_activate:
  assumes "ht \<noteq> 0"
  shows "recording I P env ht (\<lambda>hs. case tx_Payload tx of
    Some (PActivateProducer p) \<Rightarrow> activateProducer env p ht hs | _ \<Rightarrow> Inl TypeAssertion)"
  by (rule recordingI)
    (auto simp: activateProducer_def split: option.splits Payload.splits
      intro: appendD [OF assms] on_neutral neutrals records_refl)

lemma recording_candidate:
  "ht \<noteq> 0 \<Longrightarrow> (\<And>p v. neutral (chg p v)) \<Longrightarrow> recording I P env ht (candidateChange env chg out version voteType ht cv)"
  by (rule recordingI)
    (auto simp: candidateChange_def split: option.splits if_splits intro: appendD on_neutral neutrals records_refl)

lemma recording_votes:
  assumes "ht \<noteq> 0" and "\<And>p v. neutral (chg p v)"
  shows "recording I P env ht (voteChanges env chg out ht)"
  unfolding voteChanges_def
  by (auto simp: recording_def split: option.split OutputPayload.split
      intro!: recordingD [OF recording_foldR [OF recording_foldR [OF recording_candidate [OF assms]]]])

lemma recording_recordVote: "ht \<noteq> 0 \<Longrightarrow> recording I P env ht (recordVote env tx ht x)"
proof (rule recordingI)
  fix h s hs'
  assume ht: "ht \<noteq> 0" and q: "quiet ht h" "I s" and r: "recordVote env tx ht x (h, s) = Inr hs'"
  show "records P env ht (h, s) hs'"
  proof (cases "hs' = (h, s)")
    case True
    then show ?thesis using q by (simp add: records_refl)
  next
    case False
    with r obtain key where "bindR (appendChange env ht (VoteRecorded key) (h, s)) (processVoteOutput env (snd x) ht) = Inr hs'"
      by (auto simp: recordVote_def split: prod.splits option.splits OutputPayload.splits if_splits)
    then show ?thesis
      using recordingD [OF recording_bind [OF recording_neutral [OF ht] recording_votes [OF ht]],
          of "VoteRecorded key" VotesAdded] q
      unfolding processVoteOutput_def by auto
  qed
qed

lemma recording_processVotes: "ht \<noteq> 0 \<Longrightarrow> recording I P env ht (processVotes env tx ht)"
  by (auto simp: recording_def processVotes_def records_refl
      intro: recordingD [OF recording_foldR [OF recording_recordVote]])

lemma recording_cancelVote: "ht \<noteq> 0 \<Longrightarrow> recording I P env ht (cancelVote env references ht x)"
  by (rule recordingI)
    (auto simp: cancelVote_def processVoteCancel_def records_refl split: prod.splits option.splits if_splits
      intro: recordingD [OF recording_votes] neutrals)

lemma recording_cancelVotes: "ht \<noteq> 0 \<Longrightarrow> recording I P env ht (processCancelVotes env tx ht)"
  by (rule recordingI)
    (auto simp: processCancelVotes_def records_refl split: option.splits if_splits
      intro: recordingD [OF recording_foldR [OF recording_cancelVote]])

lemma recording_init: "ht \<noteq> 0 \<Longrightarrow> recording I P env ht (tryInitProducerAssetAmounts env ht)"
proof (rule recordingI)
  fix h s hs'
  assume ht: "ht \<noteq> 0" and q: "quiet ht h" "I s" and r: "tryInitProducerAssetAmounts env ht (h, s) = Inr hs'"
  have "recording I P env ht (setAmount env ht p)" for p
    by (rule recordingI)
      (auto simp: setAmount_def case_sum_skip records_refl split: option.splits intro: appendD [OF ht] on_neutral neutrals)
  then show "records P env ht (h, s) hs'"
    using r q recordingD [OF recording_foldR, of _ env ht "setAmount env ht"]
    by (auto simp: tryInitProducerAssetAmounts_def records_refl split: if_splits)
qed

lemma records_addProducerAssert:
  "ht \<noteq> 0 \<Longrightarrow> quiet ht h \<Longrightarrow> I s \<Longrightarrow> addProducerAssert env out ht (h, s) = Inr (b, hs') \<Longrightarrow> records P env ht (h, s) hs'"
  by (auto simp: addProducerAssert_def records_refl split: option.splits intro: appendD on_neutral neutrals)

lemma records_direct:
  assumes "records P env ht hs (h, s)" and "I (snd hs)"
  shows "records P env ht hs (h, s\<lparr>DepositOutputs := m\<rparr>)"
proof -
  have "untouched s (s\<lparr>DepositOutputs := m\<rparr>)" by (simp add: untouched_def masked_def)
  then have "records P env ht (h, s) (h, s\<lparr>DepositOutputs := m\<rparr>)"
    using assms by (intro records_untouched) (simp add: records_def)
  with assms show ?thesis by (blast intro: records_trans)
qed

lemma recording_depositOutput: "ht \<noteq> 0 \<Longrightarrow> recording I P env ht (depositOutput env tx ht x)"
proof (rule recordingI)
  fix h s hs'
  assume ht: "ht \<noteq> 0" and q: "quiet ht h" "I s" and r: "depositOutput env tx ht x (h, s) = Inr hs'"
  show "records P env ht (h, s) hs'"
  proof (cases "GetPrefixType (out_ProgramHash (snd x)) = PrefixDeposit")
    case True
    with r obtain b h1 s1 where a: "addProducerAssert env (snd x) ht (h, s) = Inr (b, h1, s1)"
      and hs': "hs' = (h1, s1) \<or> (\<exists>m. hs' = (h1, s1\<lparr>DepositOutputs := m\<rparr>))"
      by (auto simp: depositOutput_def split: prod.splits if_splits)
    have "records P env ht (h, s) (h1, s1)" using records_addProducerAssert [OF ht q a] .
    then show ?thesis using hs' records_direct q by auto
  next
    case False
    then show ?thesis using r q by (auto simp: depositOutput_def records_refl split: prod.splits)
  qed
qed

lemma recording_deposit: "ht \<noteq> 0 \<Longrightarrow> recording I P env ht (processDeposit env tx ht)"
  unfolding processDeposit_def by (intro recording_foldR recording_depositOutput)

lemma recording_return: "ht \<noteq> 0 \<Longrightarrow> recording I P env ht (returnDeposit env tx ht)"
proof (rule recordingI)
  fix h s hs'
  assume ht: "ht \<noteq> 0" and q: "quiet ht h" "I s" and r: "returnDeposit env tx ht (h, s) = Inr hs'"
  have "recording I P env ht (returnProgram env v ht p)" for v p
    by (rule recordingI)
      (auto simp: returnProgram_def records_refl split: option.splits if_splits intro: appendD [OF ht] on_return)
  then have "recording I P env ht (foldR (returnProgram env v ht) ps)" for v ps by (intro recording_foldR)
  from recordingD [OF this] show "records P env ht (h, s) hs'"
    using r q by (simp add: returnDeposit_def Let_def)
qed

lemma recording_version: "ht \<noteq> 0 \<Longrightarrow> recording I P env ht (updateVersion env tx ht)"
  by (rule recordingI)
    (auto simp: updateVersion_def records_refl split: option.splits Payload.splits intro: appendD on_neutral neutrals)

lemma recording_emergencyArbitrator:
  assumes ht: "ht \<noteq> 0"
  shows "recording I P env ht (emergencyArbitrator env ht v)"
proof (rule recordingI)
  fix h s hs'
  assume q: "quiet ht h" "I s" and r: "emergencyArbitrator env ht v (h, s) = Inr hs'"
  show "records P env ht (h, s) hs'"
  proof (cases "NodeOwnerKeys s (hexEncodeToString v)")
    case None
    then show ?thesis using r q by (auto simp: emergencyArbitrator_def intro: records_refl)
  next
    case (Some key)
    obtain m where m: "(case ActivityProducers s key of None \<Rightarrow> Inr (h, s)
        | Some p \<Rightarrow> appendChange env ht (EmergencyInactivated key p ht) (h, s)) = Inr m"
      and n: "(case InactiveProducers (snd m) key of None \<Rightarrow> Inr m
        | Some p \<Rightarrow> appendChange env ht (EmergencyInactivated key p ht) m) = Inr hs'"
      using r Some by (auto simp: emergencyArbitrator_def)
    have 1: "records P env ht (h, s) m"
      using m q by (auto simp: records_refl split: option.splits intro: appendD [OF ht] on_emergency)
    then have "quiet ht (fst m)" "I (snd m)" using records_state [OF 1] q by (simp_all add: records_def)
    then have "records P env ht m hs'"
      using n by (cases m) (auto simp: records_refl split: option.splits intro: appendD [OF ht] on_emergency)
    with 1 show ?thesis by (rule records_trans) (simp add: q)
  qed
qed

lemma recording_emergency: "ht \<noteq> 0 \<Longrightarrow> recording I P env ht (processEmergencyInactiveArbitrators env p ht)"
  unfolding processEmergencyInactiveArbitrators_def by (intro recording_foldR recording_emergencyArbitrator)

lemma recording_special: "ht \<noteq> 0 \<Longrightarrow> recording I P env ht (recordSpecialTx env tx ht)"
  by (rule recordingI) (auto simp: recordSpecialTx_def records_refl split: option.splits intro: appendD on_neutral neutrals)

lemma recording_inactive_payload:
  assumes ht: "ht \<noteq> 0"
  shows "recording I P env ht (\<lambda>hs. case tx_Payload tx of
      Some (PInactiveArbitrators p) \<Rightarrow>
        bindR (processEmergencyInactiveArbitrators env p ht hs) (recordSpecialTx env tx ht)
    | _ \<Rightarrow> Inl TypeAssertion)"
  by (rule recordingI) (auto split: option.splits Payload.splits
      intro: recordingD [OF recording_bind [OF recording_emergency [OF ht] recording_special [OF ht]]] simp del: bindR_Inr_iff)

lemma recording_illegal: "ht \<noteq> 0 \<Longrightarrow> recording I P env ht (processIllegalEvidence env p ht)"
proof -
  assume ht: "ht \<noteq> 0"
  have "recording I P env ht (illegalProducer env ht v)" for v
    by (rule recordingI)
      (auto simp: illegalProducer_def records_refl split: option.splits intro: appendD [OF ht] on_illegal)
  then show ?thesis unfolding processIllegalEvidence_def by (intro recording_foldR)
qed

lemma recording_transaction:
  assumes ht: "ht \<noteq> 0" and tx: "tx \<in> T"
  shows "recording I P env ht (processTransaction env ht tx)"
  unfolding processTransaction_def [abs_def]
  by (intro recording_bind recording_if recording_Inr recording_register [OF ht tx] recording_update [OF ht tx]
      recording_cancel [OF ht tx] recording_activate [OF ht] recording_processVotes [OF ht] recording_deposit [OF ht]
      recording_illegal [OF ht] recording_special [OF ht] recording_inactive_payload [OF ht] recording_return [OF ht]
      recording_version [OF ht] recording_cancelVotes [OF ht])

lemma recording_range:
  assumes "\<And>key p h s hs'. quiet ht h \<Longrightarrow> I s \<Longrightarrow> m s key = Some p \<Longrightarrow> body key p (h, s) = Inr hs' \<Longrightarrow>
    records P env ht (h, s) hs'"
  shows "recording I P env ht (rangeMap env m body)"
proof (rule recordingI)
  fix h s hs'
  assume q: "quiet ht h" "I s" and r: "rangeMap env m body (h, s) = Inr hs'"
  have "recording I P env ht (\<lambda>hs. case m (snd hs) key of None \<Rightarrow> Inr hs | Some p \<Rightarrow> body key p hs)" for key
    by (rule recordingI) (auto simp: records_refl split: option.splits intro: assms)
  then have "recording I P env ht (foldR (\<lambda>key hs. case m (snd hs) key of None \<Rightarrow> Inr hs | Some p \<Rightarrow> body key p hs) ks)" for ks
    by (intro recording_foldR)
  from recordingD [OF this] show "records P env ht (h, s) hs'"
    using r q by (simp add: rangeMap_def)
qed

lemma recording_activations:
  assumes ht: "ht \<noteq> 0"
  shows "recording I P env ht (rangeMap env PendingProducers (activatePending env ht))"
    and "recording I P env ht (rangeMap env InactiveProducers (activateInactive env ht))"
    and "recording I P env ht (rangeMap env IllegalProducers (activateIllegal env ht))"
  by (rule recording_range; auto simp: activatePending_def activateInactive_def activateIllegal_def records_refl
      split: if_splits intro: appendD [OF ht] on_activation)+

lemma recording_transactions:
  assumes "ht \<noteq> 0" and "set txs \<subseteq> T"
  shows "recording I P env ht (processTransactions env txs ht)"
  unfolding processTransactions_def [abs_def]
  using assms
  by (intro recording_bind recording_if recording_foldR recording_transaction recording_activations recording_Inr) auto

lemma recording_inactivity:
  assumes ht: "ht \<noteq> 0"
  shows "recording I P env ht (countArbitratorsInactivity env ht confirm)"
proof (rule recordingI)
  fix h s hs'
  assume q: "quiet ht h" "I s" and r: "countArbitratorsInactivity env ht confirm (h, s) = Inr hs'"
  let ?s = "s\<lparr>PreBlockArbiters := set (map (\<lambda>a. getProducerKey a s) (getArbiters env))\<rparr>"
  have "recording I P env ht (countArbiter env ht m key)" for m key
    by (rule recordingI) (auto simp: countArbiter_def records_refl split: option.splits intro: appendD [OF ht] on_count)
  then have "recording I P env ht (foldR (countArbiter env ht m) ks)" for m ks by (intro recording_foldR)
  note step = recordingD [OF this]
  have "untouched s ?s" by (simp add: untouched_def masked_def)
  then have "records P env ht (h, s) (h, ?s)" by (rule records_untouched [OF q(1)])
  moreover from this have "I ?s" using records_state q by fastforce
  ultimately have "records P env ht (h, s) hs'" if "foldR (countArbiter env ht m) ks (h, ?s) = Inr hs'" for m ks
    using records_trans step [OF that] q by auto
  then show "records P env ht (h, s) hs'"
    using r q by (auto simp: countArbitratorsInactivity_def Let_def records_refl split: if_splits)
qed

end

definition beforeCommit :: "Env \<Rightarrow> Transaction list \<Rightarrow> u32 \<Rightarrow> Confirm option \<Rightarrow> dpos \<Rightarrow> dpos res" where
  "beforeCommit env txs ht confirm hs =
     bindR (tryInitProducerAssetAmounts env ht hs) (\<lambda>hs.
     bindR (processTransactions env txs ht hs) (\<lambda>hs.
     bindR (ProcessVoteStatisticsBlock env txs ht hs) (\<lambda>hs.
     case confirm of None \<Rightarrow> Inr hs | Some c \<Rightarrow> countArbitratorsInactivity env ht c hs)))"

lemma ProcessBlock_split:
  "ProcessBlock env txs ht confirm hs = bindR (beforeCommit env txs ht confirm hs) (History_Commit ht)"
  by (simp add: ProcessBlock_def beforeCommit_def bindR_assoc)

context recorder
begin

lemma recording_block:
  assumes ht: "ht \<noteq> 0" and txs: "set txs \<subseteq> T"
  shows "recording I P env ht (beforeCommit env txs ht confirm)"
proof -
  have "recording I P env ht (\<lambda>hs. case confirm of None \<Rightarrow> Inr hs | Some c \<Rightarrow> countArbitratorsInactivity env ht c hs)"
    by (cases confirm) (simp_all add: recording_Inr recording_inactivity [OF ht])
  then show ?thesis
    unfolding beforeCommit_def [abs_def] ProcessVoteStatisticsBlock_def
    by (intro recording_bind recording_if recording_init recording_transactions recording_Inr assms)
qed

end

text \<open>Of every block, without any condition, that it only records.\<close>

interpretation plain: recorder "\<lambda>_. True" "\<lambda>_ _. True" T for T
  by unfold_locales simp_all

abbreviation logs_changes :: "Env \<Rightarrow> u32 \<Rightarrow> dpos \<Rightarrow> dpos \<Rightarrow> bool" where
  "logs_changes \<equiv> records (\<lambda>_ _. True)"

lemma block_logs:
  assumes "beforeCommit env txs ht confirm hs = Inr hs'" and "ht \<noteq> 0" and "quiet ht (fst hs)"
  shows "logs_changes env ht hs hs'"
  using plain.recordingD [OF plain.recording_block [OF assms(2) subset_UNIV] assms(1,3)] by simp

subsection \<open>Rolling back a block\<close>

text \<open>A history between two blocks, not seeked to another height.\<close>

definition settled :: "State History \<Rightarrow> bool" where
  "settled h \<longleftrightarrow> tempChanges h = [] \<and> cachedChanges h = None \<and> seekHeight h = height h \<and> 0 < capacity h \<and>
     (\<forall>c \<in> set (changes h). hc_height c \<le> height h)"

lemma settled_NewHistory: "settled (NewHistory maxHistoryCapacity)"
  by (simp add: settled_def NewHistory_def)

lemma settled_quiet: "settled h \<Longrightarrow> quiet ht h"
  by (simp add: settled_def quiet_def)

lemma records_history:
  assumes "settled h" and "records P env ht (h, s) (h1, s1)"
  obtains cc where "h1 = h\<lparr>cachedChanges := cc\<rparr>"
    and "(case cc of None \<Rightarrow> \<lparr>hc_height = ht, hc_changes = []\<rparr> | Some hc \<Rightarrow> hc) =
      \<lparr>hc_height = ht, hc_changes = recorded h1\<rparr>"
proof
  have "h1\<lparr>cachedChanges := None\<rparr> = h\<lparr>cachedChanges := None\<rparr>" using assms(2) by (simp add: records_def)
  then show "h1 = h\<lparr>cachedChanges := cachedChanges h1\<rparr>" by (cases h1; cases h) simp
  show "(case cachedChanges h1 of None \<Rightarrow> \<lparr>hc_height = ht, hc_changes = []\<rparr> | Some hc \<Rightarrow> hc) =
      \<lparr>hc_height = ht, hc_changes = recorded h1\<rparr>"
    using assms(2) by (auto simp: records_def quiet_def recorded_def split: option.splits)
qed

lemma commit_recorded:
  assumes st: "settled h" and rec: "records P env ht (h, s) (h1, s1)"
    and t: "foldR execute (recorded h1) s1 = Inr t"
  shows "\<exists>cs. History_Commit ht (h1, s1) = Inr (h\<lparr>height := ht, seekHeight := ht,
      changes := cs @ [\<lparr>hc_height = ht, hc_changes = recorded h1\<rparr>]\<rparr>, t) \<and> set cs \<subseteq> set (changes h)"
proof -
  obtain cc where h1: "h1 = h\<lparr>cachedChanges := cc\<rparr>"
    and cc: "(case cc of None \<Rightarrow> \<lparr>hc_height = ht, hc_changes = []\<rparr> | Some hc \<Rightarrow> hc) =
      \<lparr>hc_height = ht, hc_changes = recorded h1\<rparr>"
    using records_history [OF st rec] .
  define xs where "xs = recorded h1"
  note cc = cc [folded xs_def] and t = t [folded xs_def]
  define cs where "cs = (if int (length (changes h)) \<ge> capacity h then tl (changes h) else changes h)"
  have cs: "(if int (length (changes h)) \<ge> capacity h
      then (case changes h of [] \<Rightarrow> Inl IndexOutOfRange | _ # cs \<Rightarrow> Inr cs) else Inr (changes h)) = Inr cs"
    using st by (auto simp: cs_def settled_def split: list.splits)
  have sub: "set cs \<subseteq> set (changes h)"
    by (cases "changes h") (auto simp: cs_def)
  have "History_Commit ht (h1, s1) = Inr (h\<lparr>height := ht, seekHeight := ht,
      changes := cs @ [\<lparr>hc_height = ht, hc_changes = xs\<rparr>], cachedChanges := None\<rparr>, t)"
    using st t cc cs unfolding h1 settled_def
    by (auto simp: History_Commit_def commitFrom_def HeightChanges_commit_def Let_def split: if_splits)
  moreover have "h\<lparr>height := ht, seekHeight := ht, changes := c, cachedChanges := None\<rparr> =
      h\<lparr>height := ht, seekHeight := ht, changes := c\<rparr>" for c
    using st by (cases h) (simp add: settled_def)
  ultimately show ?thesis using sub unfolding xs_def by auto
qed

lemma settled_commit:
  assumes "settled h" and "height h < ht" and "set cs \<subseteq> set (changes h)"
  shows "settled (h\<lparr>height := ht, seekHeight := ht, changes := cs @ [\<lparr>hc_height = ht, hc_changes = xs\<rparr>]\<rparr>)"
  using assms by (auto simp: settled_def dest!: subsetD intro: order_trans [OF _ less_imp_le])

lemma rollback_recorded:
  assumes st: "settled h" and ht: "height h < ht" and cs: "set cs \<subseteq> set (changes h)"
    and u: "foldR rollback xs t = Inr s"
  shows "\<exists>h''. History_RollbackTo (height h) (h\<lparr>height := ht, seekHeight := ht,
      changes := cs @ [\<lparr>hc_height = ht, hc_changes = xs\<rparr>]\<rparr>, t) = Inr (h'', s)"
proof -
  have "rollbackLoop (length cs) (height h) cs s = Inr (cs, s)"
    using st cs by (intro rollbackLoop_keep) (auto simp: settled_def)
  then show ?thesis
    using st ht u by (simp add: History_RollbackTo_def settled_def HeightChanges_rollback_def undone_def)
qed

text \<open>
  C12. Rolling back a block of the DPoS state: whatever transactions the block has, when the changes
  they record can be undone in the state they were recorded in and are pairwise independent, the block
  is processed, and RollbackTo the height before it restores that state, which is the state before
  the block but for new, unreferenced producers and the two fields the code writes past the history
  (\<^verbatim>\<open>DepositOutputs\<close> and \<^verbatim>\<open>PreBlockArbiters\<close>).
\<close>

theorem dpos_block_rollback:
  assumes "settled h" and "height h < ht" and "beforeCommit env txs ht confirm (h, s) = Inr (h1, s1)"
    and "recorded h1 = map (closures env) cs"
    and "\<forall>c \<in> set cs. change_ok env c s1" and "independentIn s1 cs"
  shows "\<exists>h' s' h''. ProcessBlock env txs ht confirm (h, s) = Inr (h', s') \<and>
    State_RollbackTo (height h) (h', s') = Inr (h'', s1) \<and> untouched s s1"
proof -
  have "ht \<noteq> 0" using assms(2) by (metis word_not_simps(1))
  then have rec: "logs_changes env ht (h, s) (h1, s1)"
    using block_logs [OF assms(3)] settled_quiet [OF assms(1)] by simp
  obtain t where t: "undone (recorded h1) s1 t"
    using dpos_block_undone [OF assms(5,6)] assms(4) by auto
  obtain ds where "History_Commit ht (h1, s1) = Inr (h\<lparr>height := ht, seekHeight := ht,
      changes := ds @ [\<lparr>hc_height = ht, hc_changes = recorded h1\<rparr>]\<rparr>, t)" "set ds \<subseteq> set (changes h)"
    using commit_recorded [OF assms(1) rec] t by (auto simp: undone_def)
  moreover obtain h'' where "History_RollbackTo (height h) (h\<lparr>height := ht, seekHeight := ht,
      changes := ds @ [\<lparr>hc_height = ht, hc_changes = recorded h1\<rparr>]\<rparr>, t) = Inr (h'', s1)"
    using rollback_recorded [OF assms(1,2) calculation(2)] t unfolding undone_def by blast
  moreover have "untouched s s1" using rec by (simp add: records_def)
  ultimately show ?thesis
    using assms(3) by (auto simp: ProcessBlock_split State_RollbackTo_def)
qed

text \<open>A state with one producer registered at height 1, and the block that activates it.\<close>

definition sampleParams :: Params where
  "sampleParams = \<lparr>PublicDPOSHeight = 1, CRVotingStartHeight = 100, EnableActivateIllegalHeight = 100,
     VoteStatisticsHeight = 100, GeneralArbiters = 24, MaxInactiveRounds = 3, InactivePenalty = 0,
     EmergencyInactivePenalty = 0\<rparr>"

definition sampleEnv :: Env where
  "sampleEnv = \<lparr>chainParams = sampleParams, getArbiters = [], getProducerDepositAmount = \<lambda>_. None,
     getTxReference = \<lambda>_. None, hashOf = id, hash160 = id, ord = sorted_list_of_set\<rparr>"

definition sampleProducer :: Producer where
  "sampleProducer = zeroProducer\<lparr>p_info := (p_info zeroProducer)\<lparr>info_OwnerPublicKey := [0], info_NickName := ''n''\<rparr>,
     registerHeight := 1\<rparr>"

definition sampleState :: State where
  "sampleState = (snd NewState)\<lparr>PendingProducers := [''00'' \<mapsto> 0], Nicknames := {''n''},
     objects := (\<lambda>_. zeroProducer)(0 := sampleProducer), allocated := 1\<rparr>"

lemma sampleState_maps [simp]:
  "PendingProducers sampleState = [''00'' \<mapsto> 0]" "ActivityProducers sampleState = Map.empty"
  "InactiveProducers sampleState = Map.empty" "CanceledProducers sampleState = Map.empty"
  "IllegalProducers sampleState = Map.empty" "objects sampleState 0 = sampleProducer"
  by (simp_all add: sampleState_def NewState_def NewStateKeyFrame_def StateKeyFrame.extend_def)

lemma sampleEnv_sels [simp]: "chainParams sampleEnv = sampleParams" "ord sampleEnv = sorted_list_of_set"
  by (simp_all add: sampleEnv_def)

lemma sample_before:
  "beforeCommit sampleEnv [] 7 None (NewHistory maxHistoryCapacity, sampleState) =
    Inr ((NewHistory maxHistoryCapacity)\<lparr>cachedChanges :=
      Some \<lparr>hc_height = 7, hc_changes = map (closures sampleEnv) [ActivatedFromPending ''00'' 0]\<rparr>\<rparr>, sampleState)"
  by (simp add: beforeCommit_def tryInitProducerAssetAmounts_def processTransactions_def rangeMap_def
      activatePending_def appendChange_def History_Append_def resetTemp_def NewHistory_def sampleParams_def
      sampleProducer_def zeroProducer_def ProcessVoteStatisticsBlock_def HeightChanges_append_def)

theorem dpos_block_rollback_witness:
  "\<exists>h' s' h''. ProcessBlock sampleEnv [] 7 None (NewHistory maxHistoryCapacity, sampleState) = Inr (h', s') \<and>
    State_RollbackTo 0 (h', s') = Inr (h'', sampleState) \<and> untouched sampleState sampleState"
  using dpos_block_rollback [OF settled_NewHistory, of 7 sampleEnv "[]" None sampleState _ sampleState
      "[ActivatedFromPending ''00'' 0]"] sample_before
  by (simp add: NewHistory_def recorded_def sampleProducer_def zeroProducer_def)

end
