(* ===== verification/DposInvariant.thy ===== *)
theory DposInvariant
  imports DposBlock
begin

section \<open>The invariant of the producer maps\<close>

text \<open>
  The five maps of producers as one table and what it means for them to be well formed (\<open>wf_state\<close>).
  Every change recorded where it applies (\<open>placed\<close>) keeps them so, and the handlers record only such
  changes for the transactions called \<open>admissible\<close> (the interpretation \<open>filing\<close> of the locale
  \<open>recorder\<close>). Then what the two conditions on transactions exclude, and what an empty block does.
\<close>

subsection \<open>The tables\<close>

datatype table = PendingT | ActivityT | InactiveT | CanceledT | IllegalT

fun tableOf :: "State \<Rightarrow> table \<Rightarrow> string \<rightharpoonup> nat" where
  "tableOf s PendingT = PendingProducers s"
| "tableOf s ActivityT = ActivityProducers s"
| "tableOf s InactiveT = InactiveProducers s"
| "tableOf s CanceledT = CanceledProducers s"
| "tableOf s IllegalT = IllegalProducers s"

fun statesOf :: "table \<Rightarrow> ProducerState set" where
  "statesOf PendingT = {Pending}"
| "statesOf ActivityT = {Active}"
| "statesOf InactiveT = {Inactive}"
| "statesOf CanceledT = {Canceled, Returned}"
| "statesOf IllegalT = {Illegal}"

definition ownerOf :: "State \<Rightarrow> nat \<Rightarrow> string" where
  "ownerOf s p = hexEncodeToString (info_OwnerPublicKey (p_info (objects s p)))"

definition stateOf :: "State \<Rightarrow> nat \<Rightarrow> ProducerState" where
  "stateOf s p = p_state (objects s p)"

text \<open>
  A producer of a table is in a state of the table, its key is its owner's public key, and a key is in
  one table at most.
\<close>

definition filed :: "(table \<Rightarrow> string \<rightharpoonup> nat) \<Rightarrow> (nat \<Rightarrow> ProducerState) \<Rightarrow> (nat \<Rightarrow> string) \<Rightarrow> bool" where
  "filed T st ow \<longleftrightarrow> (\<forall>a k p. T a k = Some p \<longrightarrow> st p \<in> statesOf a \<and> ow p = k) \<and>
     (\<forall>a b k p q. T a k = Some p \<longrightarrow> T b k = Some q \<longrightarrow> a = b)"

definition well_filed :: "State \<Rightarrow> bool" where
  "well_filed s \<longleftrightarrow> filed (tableOf s) (stateOf s) (ownerOf s)"

lemma statesOf_disjoint: "x \<in> statesOf a \<Longrightarrow> x \<in> statesOf b \<Longrightarrow> a = b"
  by (cases a; cases b) auto

lemma filed_once: "filed T st ow \<Longrightarrow> T a k = Some p \<Longrightarrow> T b k = Some q \<Longrightarrow> a = b"
  unfolding filed_def by blast

lemma filedD: "filed T st ow \<Longrightarrow> T a k = Some p \<Longrightarrow> st p \<in> statesOf a \<and> ow p = k"
  by (simp add: filed_def)

text \<open>Filing a producer elsewhere keeps the tables well formed.\<close>

lemma filed_move:
  assumes T: "filed T st ow" and p: "T a k = Some p" and "a \<noteq> b" and x: "x \<in> statesOf b"
  shows "filed (T(a := (T a)(k := None), b := (T b)(k \<mapsto> p))) (st(p := x)) ow"
proof -
  let ?T = "T(a := (T a)(k := None), b := (T b)(k \<mapsto> p))"
  have old: "if l = k then c = b \<and> q = p else T c l = Some q \<and> q \<noteq> p" if q: "?T c l = Some q" for c l q
  proof (cases "l = k")
    case True
    then show ?thesis using q filed_once [OF T p, of c] \<open>a \<noteq> b\<close> by (auto split: if_splits)
  next
    case False
    then have "T c l = Some q" using q by (auto split: if_splits)
    then show ?thesis using False filedD [OF T p] filedD [OF T] by auto
  qed
  show ?thesis
    unfolding filed_def
  proof (intro conjI allI impI)
    fix c l q assume "?T c l = Some q"
    from old [OF this] show "(st(p := x)) q \<in> statesOf c" "ow q = l"
      using filedD [OF T] p x by (auto split: if_splits)
  next
    fix c d l q r assume "?T c l = Some q" "?T d l = Some r"
    from old [OF this(1)] old [OF this(2)] show "c = d"
      using filed_once [OF T, of c l q d r] by (auto split: if_splits)
  qed
qed

lemma filed_add:
  assumes T: "filed T st ow" and new: "\<forall>b. T b (ow p) = None" and p: "st p \<in> statesOf a"
  shows "filed (T(a := (T a)(ow p \<mapsto> p))) st ow"
proof -
  let ?T = "T(a := (T a)(ow p \<mapsto> p))"
  have old: "if l = ow p then c = a \<and> q = p else T c l = Some q" if "?T c l = Some q" for c l q
    using that new by (auto split: if_splits)
  show ?thesis
    unfolding filed_def
  proof (intro conjI allI impI)
    fix c l q assume "?T c l = Some q"
    from old [OF this] show "st q \<in> statesOf c" "ow q = l"
      using filedD [OF T] p by (auto split: if_splits)
  next
    fix c d l q r assume "?T c l = Some q" "?T d l = Some r"
    from old [OF this(1)] old [OF this(2)] show "c = d"
      using filed_once [OF T, of c l q d r] by (auto split: if_splits)
  qed
qed

lemma filed_state:
  assumes "filed T st ow" and "st p \<in> statesOf a" and "x \<in> statesOf a"
  shows "filed T (st(p := x)) ow"
  using assms statesOf_disjoint unfolding filed_def by (metis fun_upd_apply)

subsection \<open>Every change keeps the tables well formed\<close>

text \<open>
  What a change relies on in the tables when it is executed: a registration is of a new producer with its
  owner's key not in use, an update keeps the owner and finds the producer of that owner, and a producer is
  moved out of the table it is in.
\<close>

fun placed :: "State \<Rightarrow> DposChange \<Rightarrow> bool" where
  "placed s (Registered nickname nodeKey ownerKey p programHash outs) \<longleftrightarrow>
     p < allocated s \<and> stateOf s p = Pending \<and> ownerOf s p = ownerKey \<and> (\<forall>a. tableOf s a ownerKey = None)"
| "placed s (InfoUpdated origin update) \<longleftrightarrow> info_OwnerPublicKey update = info_OwnerPublicKey origin \<and>
     (\<exists>p. getProducer (info_OwnerPublicKey origin) s = Some p \<and>
        ownerOf s p = hexEncodeToString (info_OwnerPublicKey origin))"
| "placed s (ProducerCanceled key p isPending ht) \<longleftrightarrow> tableOf s (if isPending then PendingT else ActivityT) key = Some p"
| "placed s (DepositReturned p v ht) \<longleftrightarrow> stateOf s p = Canceled \<and> (\<exists>a. tableOf s a (ownerOf s p) = Some p)"
| "placed s (EmergencyInactivated key p ht) \<longleftrightarrow> tableOf s ActivityT key = Some p \<or> tableOf s InactiveT key = Some p"
| "placed s (IllegalFromActive key p ht) \<longleftrightarrow> tableOf s ActivityT key = Some p"
| "placed s (IllegalFromCanceled key p ht) \<longleftrightarrow> tableOf s CanceledT key = Some p"
| "placed s (ActivatedFromPending key p) \<longleftrightarrow> tableOf s PendingT key = Some p"
| "placed s (ActivatedFromInactive key p) \<longleftrightarrow> tableOf s InactiveT key = Some p"
| "placed s (ActivatedFromIllegal key p) \<longleftrightarrow> tableOf s IllegalT key = Some p"
| "placed s (InactivityCounted key p needReset ht n) \<longleftrightarrow> needReset \<or> tableOf s ActivityT key = Some p"
| "placed s _ \<longleftrightarrow> True"

text \<open>The key whose producer a change files or gives another state, and the node keys it assigns anew.\<close>

fun shiftKey :: "State \<Rightarrow> DposChange \<Rightarrow> string option" where
  "shiftKey s (Registered nickname nodeKey ownerKey p programHash outs) = Some ownerKey"
| "shiftKey s (ProducerCanceled key p isPending ht) = Some key"
| "shiftKey s (DepositReturned p v ht) = Some (ownerOf s p)"
| "shiftKey s (EmergencyInactivated key p ht) = Some key"
| "shiftKey s (IllegalFromActive key p ht) = Some key"
| "shiftKey s (IllegalFromCanceled key p ht) = Some key"
| "shiftKey s (ActivatedFromPending key p) = Some key"
| "shiftKey s (ActivatedFromInactive key p) = Some key"
| "shiftKey s (ActivatedFromIllegal key p) = Some key"
| "shiftKey s (InactivityCounted key p needReset ht n) = (if needReset then None else Some key)"
| "shiftKey s _ = None"

fun rewires :: "DposChange \<Rightarrow> string set" where
  "rewires (Registered nickname nodeKey ownerKey p programHash outs) = {nodeKey}"
| "rewires (InfoUpdated origin update) =
     (if info_NodePublicKey origin = info_NodePublicKey update then {}
      else {hexEncodeToString (info_NodePublicKey origin), hexEncodeToString (info_NodePublicKey update)})"
| "rewires _ = {}"

text \<open>
  Two changes of a block are unrelated when they do not shift the same producer, and the first does not
  reassign, as a node key, the owner key of the producer that the second updates.
\<close>

fun updatesOwner :: "DposChange \<Rightarrow> string set" where
  "updatesOwner (InfoUpdated origin update) = {hexEncodeToString (info_OwnerPublicKey origin)}"
| "updatesOwner _ = {}"

definition unrelated :: "State \<Rightarrow> DposChange \<Rightarrow> DposChange \<Rightarrow> bool" where
  "unrelated s c d \<longleftrightarrow> (shiftKey s c = None \<or> shiftKey s c \<noteq> shiftKey s d) \<and> updatesOwner d \<inter> rewires c = {}"

lemma table_all: "(\<forall>a. P a) \<longleftrightarrow> P PendingT \<and> P ActivityT \<and> P InactiveT \<and> P CanceledT \<and> P IllegalT"
  by (metis table.exhaust)

lemma table_ex: "(\<exists>a. P a) \<longleftrightarrow> P PendingT \<or> P ActivityT \<or> P InactiveT \<or> P CanceledT \<or> P IllegalT"
  by (metis table.exhaust)

text \<open>
  What a change does to the tables and the states: nothing, the return of a deposit, or a move of the
  producer of the key from one table to another.
\<close>

definition refiles :: "string option \<Rightarrow> State \<Rightarrow> State \<Rightarrow> bool" where
  "refiles ko s t \<longleftrightarrow> ownerOf t = ownerOf s \<and>
     (tableOf t = tableOf s \<and> stateOf t = stateOf s \<or>
      (\<exists>p. ko = Some (ownerOf s p) \<and> tableOf t = tableOf s \<and> stateOf s p = Canceled \<and> stateOf t = (stateOf s)(p := Returned)) \<or>
      (\<exists>key p a b x. ko = Some key \<and> tableOf s a key = Some p \<and> a \<noteq> b \<and> x \<in> statesOf b \<and> stateOf t = (stateOf s)(p := x) \<and>
         tableOf t = (tableOf s)(a := (tableOf s a)(key := None), b := (tableOf s b)(key \<mapsto> p))))"

lemma refiles_same:
  "tableOf t = tableOf s \<Longrightarrow> stateOf t = stateOf s \<Longrightarrow> ownerOf t = ownerOf s \<Longrightarrow> refiles ko s t"
  by (simp add: refiles_def)

lemma refiles_move:
  assumes "tableOf s a key = Some p" "a \<noteq> b" "x \<in> statesOf b" "stateOf t = (stateOf s)(p := x)"
    "tableOf t = (tableOf s)(a := (tableOf s a)(key := None), b := (tableOf s b)(key \<mapsto> p))" "ownerOf t = ownerOf s"
  shows "refiles (Some key) s t"
  using assms unfolding refiles_def by blast

lemmas state_simps = table_all fun_eq_iff stateOf_def ownerOf_def

lemma refiles_inactivity:
  assumes "needReset \<or> tableOf s ActivityT key = Some p"
  shows "refiles (if needReset then None else Some key) s (tryUpdateInactivity env key p needReset ht s)"
proof (cases "needReset \<or> (let s1 = (if inactiveCountingHeight (objects s p) = 0
      then modifyProducer p (\<lambda>x. x\<lparr>inactiveCountingHeight := ht\<rparr>) s else s)
    in ht - inactiveCountingHeight (objects s1 p) < MaxInactiveRounds (chainParams env))")
  case True
  then show ?thesis by (intro refiles_same) (auto simp: tryUpdateInactivity_def Let_def state_simps)
next
  case False
  then have "refiles (Some key) s (tryUpdateInactivity env key p needReset ht s)"
    using assms
    by (intro refiles_move [of _ ActivityT key p InactiveT Inactive])
      (auto simp: tryUpdateInactivity_def Let_def not_less state_simps)
  then show ?thesis using False by simp
qed

lemma refiles_emergency:
  assumes f: "well_filed s" and "placed s (EmergencyInactivated key p ht)"
    and "executeChange env (EmergencyInactivated key p ht) s = Inr t"
  shows "refiles (Some key) s t"
proof (cases "tableOf s ActivityT key = Some p")
  case True
  then show ?thesis
    using assms(3) by (intro refiles_move [of _ ActivityT key p InactiveT Inactive]) (auto simp: Let_def state_simps)
next
  case False
  then have i: "tableOf s InactiveT key = Some p" using assms(2) by simp
  have "tableOf s ActivityT key = None"
    using filed_once [of "tableOf s" "stateOf s" "ownerOf s" InactiveT key p ActivityT] f i
    by (cases "tableOf s ActivityT key") (auto simp: well_filed_def)
  moreover have "stateOf s p = Inactive"
    using filedD [of "tableOf s" "stateOf s" "ownerOf s" InactiveT key p] f i unfolding well_filed_def by simp
  ultimately show ?thesis
    using assms(3) i by (intro refiles_same) (auto simp: Let_def state_simps)
qed

lemma refiles_info:
  assumes "placed s (InfoUpdated origin update)" and "updateProducerInfo origin update s = Inr t"
  shows "refiles ko s t"
  using assms
  by (intro refiles_same)
    (auto simp: updateProducerInfo_def Let_def state_simps split: if_splits option.splits)

definition is_Registered :: "DposChange \<Rightarrow> bool" where
  "is_Registered c \<longleftrightarrow> (\<exists>nickname nodeKey ownerKey p programHash outs.
     c = Registered nickname nodeKey ownerKey p programHash outs)"

lemma change_refiles:
  assumes "well_filed s" and "placed s c" and "executeChange env c s = Inr t" and "\<not> is_Registered c"
  shows "refiles (shiftKey s c) s t"
proof (cases c)
  case (Registered a1 a2 a3 a4 a5 a6)
  then show ?thesis using assms(4) by (simp add: is_Registered_def)
next
  case (InfoUpdated origin update)
  then show ?thesis using assms refiles_info by simp
next
  case (ProducerCanceled key p isPending ht)
  then show ?thesis
    using assms by (auto simp: Let_def state_simps split: if_splits
      intro!: refiles_move [of _ "if isPending then PendingT else ActivityT" key p CanceledT Canceled])
next
  case (DepositReturned p v ht)
  then have "tableOf t = tableOf s \<and> stateOf t = (stateOf s)(p := Returned) \<and> ownerOf t = ownerOf s \<and> stateOf s p = Canceled"
    using assms by (auto simp: state_simps)
  then show ?thesis unfolding refiles_def DepositReturned by auto
next
  case (EmergencyInactivated key p ht)
  then show ?thesis using assms refiles_emergency by simp
next
  case (IllegalFromActive key p ht)
  then show ?thesis
    using assms by (auto simp: Let_def state_simps intro!: refiles_move [of _ ActivityT key p IllegalT Illegal])
next
  case (IllegalFromCanceled key p ht)
  then show ?thesis
    using assms by (auto simp: Let_def state_simps intro!: refiles_move [of _ CanceledT key p IllegalT Illegal])
next
  case (ActivatedFromPending key p)
  then show ?thesis
    using assms by (auto simp: Let_def state_simps intro!: refiles_move [of _ PendingT key p ActivityT Active])
next
  case (ActivatedFromInactive key p)
  then show ?thesis
    using assms by (auto simp: Let_def state_simps intro!: refiles_move [of _ InactiveT key p ActivityT Active])
next
  case (ActivatedFromIllegal key p)
  then show ?thesis
    using assms by (auto simp: Let_def state_simps intro!: refiles_move [of _ IllegalT key p ActivityT Active])
next
  case (InactivityCounted key p needReset ht n)
  then show ?thesis using assms refiles_inactivity [of needReset s key p env ht] by simp
qed (insert assms, simp_all, (rule refiles_same; auto simp: state_simps)+)

lemma wf_refiles:
  assumes "well_filed s" and "refiles ko s t"
  shows "well_filed t"
proof -
  have f: "filed (tableOf s) (stateOf s) (ownerOf s)" using assms(1) by (simp add: well_filed_def)
  have o: "ownerOf t = ownerOf s" using assms(2) by (simp add: refiles_def)
  from assms(2) show ?thesis
    unfolding refiles_def
  proof (elim conjE disjE exE)
    assume "tableOf t = tableOf s" "stateOf t = stateOf s"
    then show ?thesis using f o by (simp add: well_filed_def)
  next
    fix p assume "tableOf t = tableOf s" "stateOf s p = Canceled" "stateOf t = (stateOf s)(p := Returned)"
    then show ?thesis using filed_state [OF f, of p CanceledT Returned] o by (simp add: well_filed_def)
  next
    fix key p a b x
    assume "tableOf s a key = Some p" "a \<noteq> b" "x \<in> statesOf b" "stateOf t = (stateOf s)(p := x)"
      "tableOf t = (tableOf s)(a := (tableOf s a)(key := None), b := (tableOf s b)(key \<mapsto> p))"
    then show ?thesis using filed_move [OF f] o unfolding well_filed_def by metis
  qed
qed

lemma registered_tables:
  assumes "executeChange env (Registered nickname nodeKey ownerKey p programHash outs) s = Inr t"
  shows "tableOf t = (tableOf s)(PendingT := (tableOf s PendingT)(ownerKey \<mapsto> p))"
    and "stateOf t = stateOf s" and "ownerOf t = ownerOf s"
  using assms by (auto simp: state_simps)

lemma wf_change:
  assumes "well_filed s" and "placed s c" and "executeChange env c s = Inr t"
  shows "well_filed t"
proof (cases "is_Registered c")
  case True
  then obtain nickname nodeKey ownerKey p programHash outs
    where c: "c = Registered nickname nodeKey ownerKey p programHash outs" by (auto simp: is_Registered_def)
  have "well_filed t \<longleftrightarrow> filed ((tableOf s)(PendingT := (tableOf s PendingT)(ownerOf s p \<mapsto> p))) (stateOf s) (ownerOf s)"
    using assms(2) registered_tables [OF assms(3) [unfolded c]] by (simp only: well_filed_def c placed.simps)
  then show ?thesis
    using filed_add [of "tableOf s" "stateOf s" "ownerOf s" p PendingT] assms(1,2) by (simp add: c well_filed_def)
next
  case False
  then show ?thesis using assms change_refiles wf_refiles by blast
qed

text \<open>The effect of a change away from the key it shifts.\<close>

lemma change_elsewhere:
  assumes wf: "well_filed s" and "placed s c" and "executeChange env c s = Inr t"
  shows "ownerOf t = ownerOf s"
    and "Some k \<noteq> shiftKey s c \<Longrightarrow> tableOf t a k = tableOf s a k"
    and "Some (ownerOf s q) \<noteq> shiftKey s c \<Longrightarrow> stateOf t q = stateOf s q"
    and "tableOf s a k = Some p \<Longrightarrow> \<exists>b. tableOf t b k = Some p"
proof -
  have "ownerOf t = ownerOf s \<and> (Some k \<noteq> shiftKey s c \<longrightarrow> tableOf t a k = tableOf s a k) \<and>
    (Some (ownerOf s q) \<noteq> shiftKey s c \<longrightarrow> stateOf t q = stateOf s q) \<and>
    (tableOf s a k = Some p \<longrightarrow> (\<exists>b. tableOf t b k = Some p))"
  proof (cases "is_Registered c")
    case True
    then obtain a1 a2 a3 a4 a5 a6 where c: "c = Registered a1 a2 a3 a4 a5 a6" by (auto simp: is_Registered_def)
    have no: "tableOf s b a3 = None" for b using assms(2) c by simp
    show ?thesis
      using registered_tables [OF assms(3) [unfolded c]] no c
      by (cases "k = a3"; cases "a = PendingT") (auto simp del: tableOf.simps)
  next
    case False
    from change_refiles [OF assms False] show ?thesis
      unfolding refiles_def
    proof (elim conjE disjE exE)
      fix key q' a' b' x
      assume m: "shiftKey s c = Some key" "tableOf s a' key = Some q'" "a' \<noteq> b'" "stateOf t = (stateOf s)(q' := x)"
        "tableOf t = (tableOf s)(a' := (tableOf s a')(key := None), b' := (tableOf s b')(key \<mapsto> q'))" "ownerOf t = ownerOf s"
      have f: "filed (tableOf s) (stateOf s) (ownerOf s)" using wf by (simp add: well_filed_def)
      have owner: "ownerOf s q' = key" using filedD [OF f m(2)] by simp
      have "\<exists>b. tableOf t b k = Some p" if "tableOf s a k = Some p"
      proof (cases "k = key")
        case True
        then have "a = a'" "p = q'" using filed_once [OF f m(2), of a p] that m(2) by auto
        then show ?thesis using m(5) True by (intro exI [of _ b']) simp
      next
        case False
        then show ?thesis using m(5) that by (intro exI [of _ a]) auto
      qed
      then show ?thesis using m owner by auto
    qed auto
  qed
  then show "ownerOf t = ownerOf s" "Some k \<noteq> shiftKey s c \<Longrightarrow> tableOf t a k = tableOf s a k"
    "Some (ownerOf s q) \<noteq> shiftKey s c \<Longrightarrow> stateOf t q = stateOf s q"
    "tableOf s a k = Some p \<Longrightarrow> \<exists>b. tableOf t b k = Some p" by blast+
qed

lemma nodeKeys_elsewhere:
  assumes "executeChange env c s = Inr t" and "k \<notin> rewires c"
  shows "NodeOwnerKeys t k = NodeOwnerKeys s k"
proof (cases c)
  case (InfoUpdated origin update)
  then show ?thesis
    using assms by (auto simp: updateProducerInfo_def Let_def split: option.splits if_splits)
next
  case (InactivityCounted key p needReset ht n)
  then show ?thesis using assms by (auto simp: tryUpdateInactivity_def Let_def)
qed (insert assms, auto simp: Let_def split: if_splits)

lemma allocated_change:
  assumes "executeChange env c s = Inr t"
  shows "allocated t = allocated s"
proof (cases c)
  case (InfoUpdated origin update)
  then show ?thesis using assms by (auto simp: updateProducerInfo_def Let_def split: option.splits if_splits)
next
  case (InactivityCounted key p needReset ht n)
  then show ?thesis using assms by (auto simp: tryUpdateInactivity_def Let_def)
qed (insert assms, auto simp: Let_def split: if_splits)

text \<open>Looking a producer up by a key.\<close>

lemma getProducer_filed:
  assumes "well_filed s"
  shows "getProducer k s = Some p \<longleftrightarrow> (\<exists>a. tableOf s a (getProducerKey k s) = Some p)"
proof -
  let ?key = "getProducerKey k s"
  have f: "filed (tableOf s) (stateOf s) (ownerOf s)" using assms by (simp add: well_filed_def)
  have once: "tableOf s b ?key = None" if "tableOf s a ?key = Some q" "b \<noteq> a" for a b q
    using filed_once [OF f that(1), of b] that(2) by (cases "tableOf s b ?key") auto
  show ?thesis
  proof
    assume "getProducer k s = Some p"
    then show "\<exists>a. tableOf s a ?key = Some p"
      by (auto simp: getProducer_def getProducerByOwnerPublicKey_def table_ex split: option.splits)
  next
    assume "\<exists>a. tableOf s a ?key = Some p"
    then obtain a where a: "tableOf s a ?key = Some p" by blast
    from once [OF a, of PendingT] once [OF a, of ActivityT] once [OF a, of InactiveT] once [OF a, of CanceledT]
      once [OF a, of IllegalT] a
    show "getProducer k s = Some p"
      by (cases a) (auto simp: getProducer_def getProducerByOwnerPublicKey_def)
  qed
qed

lemma getProducer_listed:
  assumes "well_filed s" and "getProducer k s = Some p"
  shows "\<exists>a. tableOf s a (ownerOf s p) = Some p \<and> stateOf s p \<in> statesOf a"
proof -
  obtain a where a: "tableOf s a (getProducerKey k s) = Some p" using assms getProducer_filed by blast
  then show ?thesis
    using filedD [of "tableOf s" "stateOf s" "ownerOf s" a "getProducerKey k s" p] assms(1)
    by (intro exI [of _ a]) (simp add: well_filed_def)
qed

lemma placed_kept:
  assumes wf: "well_filed s" and c: "placed s c" and d: "placed s d" and t: "executeChange env c s = Inr t"
    and u: "unrelated s c d"
  shows "placed t d \<and> shiftKey t d = shiftKey s d"
proof -
  note e = change_elsewhere [OF wf c t] and al = allocated_change [OF t]
  have same: "shiftKey t d = shiftKey s d" using e(1) by (cases d) simp_all
  have away: "tableOf t a k = tableOf s a k" if "shiftKey s d = Some k" for a k
    using e(2) [of k a] u that by (auto simp: unrelated_def)
  have still: "stateOf t q = stateOf s q" if "shiftKey s d = Some (ownerOf s q)" for q
    using e(3) [of q] u that by (auto simp: unrelated_def)
  have "placed t d"
  proof (cases d)
    case (InfoUpdated origin update)
    let ?k = "info_OwnerPublicKey origin"
    obtain p where p: "getProducer ?k s = Some p" "ownerOf s p = hexEncodeToString ?k" "info_OwnerPublicKey update = ?k"
      using d InfoUpdated by auto
    have "getProducerKey ?k t = getProducerKey ?k s"
      using nodeKeys_elsewhere [OF t, of "hexEncodeToString ?k"] u InfoUpdated
      by (simp add: unrelated_def getProducerKey_def Let_def)
    then have "getProducer ?k t = Some p"
      using p(1) e(4) getProducer_filed [OF wf] getProducer_filed [OF wf_change [OF wf c t]] by metis
    then show ?thesis using p InfoUpdated e(1) by simp
  next
    case (InactivityCounted key p needReset ht n)
    then show ?thesis using d away [of key ActivityT] by (cases needReset) simp_all
  qed (use d e(1) al away still in \<open>auto simp del: tableOf.simps split: if_splits\<close>)
  with same show ?thesis by simp
qed

subsection \<open>The invariant of the state\<close>

text \<open>The producers of the tables are allocated.\<close>

definition held :: "State \<Rightarrow> bool" where
  "held s \<longleftrightarrow> (\<forall>a k p. tableOf s a k = Some p \<longrightarrow> p < allocated s)"

definition wf_state :: "State \<Rightarrow> bool" where
  "wf_state s \<longleftrightarrow> well_filed s \<and> held s"

lemma held_change:
  assumes "well_filed s" and "held s" and "placed s c" and "executeChange env c s = Inr t"
  shows "held t"
proof (cases "is_Registered c")
  case True
  then obtain a1 a2 a3 a4 a5 a6 where c: "c = Registered a1 a2 a3 a4 a5 a6" by (auto simp: is_Registered_def)
  then show ?thesis
    using assms registered_tables [of env a1 a2 a3 a4 a5 a6 s t] allocated_change [of env c s t]
    by (auto simp: held_def simp del: tableOf.simps split: if_splits)
next
  case False
  then show ?thesis
    using assms(2) change_refiles [OF assms(1,3,4)] allocated_change [OF assms(4)]
    unfolding held_def refiles_def by (auto split: if_splits)
qed

lemma wf_state_change:
  "wf_state s \<Longrightarrow> placed s c \<Longrightarrow> executeChange env c s = Inr t \<Longrightarrow> wf_state t"
  using wf_change held_change unfolding wf_state_def by blast

lemma wf_state_block:
  assumes "wf_state s" and "\<forall>c \<in> set cs. placed s c" and "sorted_wrt (unrelated s) cs"
    and "foldR execute (map (closures env) cs) s = Inr t"
  shows "wf_state t"
  using assms
proof (induction cs arbitrary: s)
  case Nil
  then show ?case by simp
next
  case (Cons c cs)
  obtain u where u: "executeChange env c s = Inr u" and t: "foldR execute (map (closures env) cs) u = Inr t"
    using Cons.prems(4) by auto
  have wf: "well_filed s" using Cons.prems(1) by (simp add: wf_state_def)
  have kept: "placed u d \<and> shiftKey u d = shiftKey s d" if "d \<in> set cs" for d
    using placed_kept [OF wf _ _ u, of d] that Cons.prems by simp
  have "sorted_wrt (unrelated s) cs" using Cons.prems(3) by simp
  then have "sorted_wrt (unrelated u) cs"
    by (rule sorted_wrt_mono_rel [rotated]) (use kept in \<open>simp add: unrelated_def\<close>)
  moreover have "wf_state u" using wf_state_change [of s c env u] Cons.prems u by simp
  ultimately show ?case using Cons.IH [OF _ _ _ t] kept by blast
qed

subsection \<open>What the handlers record is placed\<close>

lemma untouched_tables:
  assumes "untouched s t"
  shows "tableOf t = tableOf s" and "NodeOwnerKeys t = NodeOwnerKeys s"
proof -
  have m: "masked t = masked s" using assms by (simp add: untouched_def)
  have "f (masked t) = f (masked s)" for f :: "State \<Rightarrow> string \<rightharpoonup> nat" by (simp add: m)
  from this [of PendingProducers] this [of ActivityProducers] this [of InactiveProducers]
    this [of CanceledProducers] this [of IllegalProducers]
  show "tableOf t = tableOf s" by (simp add: masked_def table_all fun_eq_iff)
  have "NodeOwnerKeys (masked t) = NodeOwnerKeys (masked s)" by (simp add: m)
  then show "NodeOwnerKeys t = NodeOwnerKeys s" by (simp add: masked_def)
qed

lemma untouched_lookup:
  assumes "untouched s t"
  shows "getProducer k t = getProducer k s"
proof -
  note T = untouched_tables [OF assms]
  from T(1) have "tableOf t a = tableOf s a" for a by simp
  from this [of PendingT] this [of ActivityT] this [of InactiveT] this [of CanceledT] this [of IllegalT] T(2)
  show ?thesis
    by (simp add: getProducer_def getProducerKey_def getProducerByOwnerPublicKey_def cong: option.case_cong)
qed

lemma untouched_producer:
  assumes "untouched s t" and "held s" and "tableOf s a k = Some p"
  shows "stateOf t p = stateOf s p \<and> ownerOf t p = ownerOf s p"
  using assms by (auto simp: held_def untouched_def stateOf_def ownerOf_def)

lemma wf_untouched:
  assumes "wf_state s" and "untouched s t"
  shows "wf_state t"
proof -
  have T: "tableOf t = tableOf s" by (rule untouched_tables [OF assms(2)])
  have same: "stateOf t p = stateOf s p \<and> ownerOf t p = ownerOf s p" if "tableOf s a k = Some p" for a k p
    using untouched_producer [OF assms(2) _ that] assms(1) by (simp add: wf_state_def)
  have "held t"
    using assms T by (auto simp: wf_state_def held_def untouched_def intro: less_le_trans)
  moreover have "well_filed t"
    using assms(1) T same unfolding wf_state_def well_filed_def filed_def by auto
  ultimately show ?thesis by (simp add: wf_state_def)
qed

lemma placed_untouched:
  assumes wf: "wf_state s" and "placed s c" and u: "untouched s t"
  shows "placed t c"
proof -
  note T = untouched_tables [OF u]
  have held: "held s" and filed: "well_filed s" using wf by (simp_all add: wf_state_def)
  show ?thesis
  proof (cases c)
    case (Registered a1 a2 a3 p a5 a6)
    then have "objects t p = objects s p" "p < allocated t" using assms(2) u by (auto simp: untouched_def)
    then show ?thesis using Registered assms(2) T by (simp add: stateOf_def ownerOf_def)
  next
    case (InfoUpdated origin update)
    then obtain p where p: "getProducer (info_OwnerPublicKey origin) s = Some p"
        "ownerOf s p = hexEncodeToString (info_OwnerPublicKey origin)" using assms(2) by auto
    obtain a where "tableOf s a (ownerOf s p) = Some p" using getProducer_listed [OF filed p(1)] by blast
    then show ?thesis
      using untouched_producer [OF u held] p InfoUpdated assms(2) untouched_lookup [OF u] by simp
  next
    case (DepositReturned p v ht)
    then obtain a where a: "tableOf s a (ownerOf s p) = Some p" "stateOf s p = Canceled" using assms(2) by auto
    then show ?thesis using untouched_producer [OF u held a(1)] T(1) DepositReturned by auto
  qed (use assms(2) T in auto)
qed

text \<open>
  What the transactions of a block must satisfy: a registration is for an owner key that no table has, an
  update and a cancellation find the producer of the owner that signs them, and the producer that is
  canceled is pending or active.
\<close>

definition admissible :: "State \<Rightarrow> Transaction \<Rightarrow> bool" where
  "admissible s tx \<longleftrightarrow>
     (case tx_Payload tx of
        Some (PProducerInfo info) \<Rightarrow>
          (tx_TxType tx = TxType_RegisterProducer \<longrightarrow> (\<forall>a. tableOf s a (hexEncodeToString (info_OwnerPublicKey info)) = None)) \<and>
          (tx_TxType tx = TxType_UpdateProducer \<longrightarrow> (\<forall>p. getProducer (info_OwnerPublicKey info) s = Some p \<longrightarrow>
             ownerOf s p = hexEncodeToString (info_OwnerPublicKey info)))
      | Some (PProcessProducer payload) \<Rightarrow>
          (tx_TxType tx = TxType_CancelProducer \<longrightarrow> (\<forall>p. getProducer (process_OwnerPublicKey payload) s = Some p \<longrightarrow>
             ownerOf s p = hexEncodeToString (process_OwnerPublicKey payload) \<and> stateOf s p \<in> {Pending, Active}))
      | _ \<Rightarrow> True)"

lemma admissible_untouched:
  assumes wf: "wf_state s" and "admissible s tx" and u: "untouched s t"
  shows "admissible t tx"
proof -
  note T = untouched_tables [OF u]
  have "stateOf t p = stateOf s p \<and> ownerOf t p = ownerOf s p" if "getProducer k s = Some p" for k p
    using getProducer_listed [OF _ that] untouched_producer [OF u] wf unfolding wf_state_def by blast
  then show ?thesis
    using assms(2) T(1) untouched_lookup [OF u]
    by (auto simp: admissible_def split: option.splits Payload.splits)
qed

lemma canceled_placed:
  assumes wf: "wf_state s" and "getProducer k s = Some p" and "ownerOf s p = hexEncodeToString k"
    and "stateOf s p \<in> {Pending, Active}"
  shows "placed s (ProducerCanceled (hexEncodeToString k) p (p_state (objects s p) = Pending) ht)"
proof -
  obtain a where "tableOf s a (hexEncodeToString k) = Some p" "stateOf s p \<in> statesOf a"
    using getProducer_listed [of s k p] assms unfolding wf_state_def by auto
  then show ?thesis using assms(4) by (cases a) (auto simp: stateOf_def)
qed

interpretation filing: recorder "\<lambda>s. wf_state s \<and> (\<forall>tx \<in> T. admissible s tx)" placed T for T
proof unfold_locales
  fix s s' :: State and c
  assume I: "wf_state s \<and> (\<forall>tx \<in> T. admissible s tx)"
  show "wf_state s' \<and> (\<forall>tx \<in> T. admissible s' tx)" if "untouched s s'"
    using I that wf_untouched admissible_untouched by blast
  show "placed s' c" if "placed s c" "untouched s s'" using I that placed_untouched by blast
  show "placed s c" if "neutral c" using that by (cases c) simp_all
  fix k p v ht
  show "placed s (DepositReturned p v ht)" if "getProducer k s = Some p" "p_state (objects s p) = Canceled"
    using getProducer_listed [OF _ that(1)] I that(2) by (auto simp: wf_state_def stateOf_def)
next
  fix s :: State and tx info and x :: Producer and hash outs
  assume I: "wf_state s \<and> (\<forall>tx \<in> T. admissible s tx)" and tx: "tx \<in> T" "tx_TxType tx = TxType_RegisterProducer"
    "tx_Payload tx = Some (PProducerInfo info)" "p_info x = info" "p_state x = Pending"
  then have "\<forall>a. tableOf s a (hexEncodeToString (info_OwnerPublicKey info)) = None"
    by (auto simp: admissible_def dest!: bspec)
  with tx show "placed (s\<lparr>objects := (objects s)(allocated s := x), allocated := allocated s + 1\<rparr>)
      (Registered (info_NickName info) (hexEncodeToString (info_NodePublicKey info))
        (hexEncodeToString (info_OwnerPublicKey info)) (allocated s) hash outs)"
    by (simp add: stateOf_def ownerOf_def table_all)
next
  fix s :: State and tx info p
  assume I: "wf_state s \<and> (\<forall>tx \<in> T. admissible s tx)" and tx: "tx \<in> T" "tx_TxType tx = TxType_UpdateProducer"
    "tx_Payload tx = Some (PProducerInfo info)" "getProducer (info_OwnerPublicKey info) s = Some p"
  then have "ownerOf s p = hexEncodeToString (info_OwnerPublicKey info)" by (auto simp: admissible_def dest!: bspec)
  moreover from this have "info_OwnerPublicKey (p_info (objects s p)) = info_OwnerPublicKey info"
    by (simp add: ownerOf_def hexEncodeToString_inject)
  ultimately show "placed s (InfoUpdated (p_info (objects s p)) info)" using tx(4) by simp
next
  fix s :: State and tx payload p ht
  assume I: "wf_state s \<and> (\<forall>tx \<in> T. admissible s tx)" and tx: "tx \<in> T" "tx_TxType tx = TxType_CancelProducer"
    "tx_Payload tx = Some (PProcessProducer payload)" "getProducer (process_OwnerPublicKey payload) s = Some p"
  then have "ownerOf s p = hexEncodeToString (process_OwnerPublicKey payload) \<and> stateOf s p \<in> {Pending, Active}"
    by (auto simp: admissible_def dest!: bspec)
  then show "placed s (ProducerCanceled (hexEncodeToString (process_OwnerPublicKey payload)) p
      (p_state (objects s p) = Pending) ht)"
    using canceled_placed tx(4) I by blast
qed simp_all

subsection \<open>Blocks on a growing chain\<close>

lemma block_commits:
  assumes "settled h" and "height h < ht" and "beforeCommit env txs ht confirm (h, s) = Inr (h1, s1)"
    and "recorded h1 = map (closures env) cs" and "\<forall>c \<in> set cs. change_ok env c s1" and "independentIn s1 cs"
  shows "\<exists>h' t. ProcessBlock env txs ht confirm (h, s) = Inr (h', t) \<and> settled h' \<and> height h' = ht \<and>
    foldR execute (map (closures env) cs) s1 = Inr t \<and> untouched s s1"
proof -
  have "ht \<noteq> 0" using assms(2) by (metis word_not_simps(1))
  then have rec: "logs_changes env ht (h, s) (h1, s1)"
    using block_logs [OF assms(3)] settled_quiet [OF assms(1)] by simp
  obtain t where t: "undone (recorded h1) s1 t"
    using dpos_block_undone [OF assms(5,6)] assms(4) by auto
  obtain ds where c: "History_Commit ht (h1, s1) = Inr (h\<lparr>height := ht, seekHeight := ht,
      changes := ds @ [\<lparr>hc_height = ht, hc_changes = recorded h1\<rparr>]\<rparr>, t)" and ds: "set ds \<subseteq> set (changes h)"
    using commit_recorded [OF assms(1) rec] t by (auto simp: undone_def)
  then show ?thesis
    using assms(3,4) t settled_commit [OF assms(1,2) ds] rec
    by (simp add: ProcessBlock_split undone_def records_def)
qed

lemma commit_runs:
  assumes st: "settled h" and rec: "records P env ht (h, s) (h1, s1)" and "History_Commit ht (h1, s1) = Inr hs"
  shows "foldR execute (recorded h1) s1 = Inr (snd hs)"
proof (cases "foldR execute (recorded h1) s1")
  case (Inl e)
  obtain cc where h1: "h1 = h\<lparr>cachedChanges := cc\<rparr>"
    and cc: "(case cc of None \<Rightarrow> \<lparr>hc_height = ht, hc_changes = []\<rparr> | Some hc \<Rightarrow> hc) =
      \<lparr>hc_height = ht, hc_changes = recorded h1\<rparr>"
    using records_history [OF st rec] .
  define xs where "xs = recorded h1"
  note cc = cc [folded xs_def] and Inl = Inl [folded xs_def]
  have "\<exists>e. History_Commit ht (h1, s1) = Inl e"
    using st Inl cc unfolding h1 settled_def
    by (auto simp: History_Commit_def commitFrom_def HeightChanges_commit_def Let_def bindR_def split: if_splits sum.splits list.splits)
  then show ?thesis using assms(3) by auto
next
  case (Inr t)
  then show ?thesis using commit_recorded [OF st rec Inr] assms(3) by auto
qed

text \<open>
  The machine after some blocks of a growing chain, in any environments: the transactions of each block are
  admissible in the state it is processed in, and the changes it records are pairwise unrelated.
\<close>

inductive reachable :: "dpos \<Rightarrow> bool" where
  start: "reachable NewState"
| block: "reachable (h, s) \<Longrightarrow> height h < ht \<Longrightarrow> \<forall>tx \<in> set txs. admissible s tx \<Longrightarrow>
    beforeCommit env txs ht confirm (h, s) = Inr (h1, s1) \<Longrightarrow>
    \<forall>cs. recorded h1 = map (closures env) cs \<longrightarrow> sorted_wrt (unrelated s1) cs \<Longrightarrow>
    ProcessBlock env txs ht confirm (h, s) = Inr hs \<Longrightarrow> reachable hs"

lemma block_wf:
  assumes "settled h" and "wf_state s" and "height h < ht" and "\<forall>tx \<in> set txs. admissible s tx"
    and b: "beforeCommit env txs ht confirm (h, s) = Inr (h1, s1)"
    and u: "\<forall>cs. recorded h1 = map (closures env) cs \<longrightarrow> sorted_wrt (unrelated s1) cs"
    and p: "ProcessBlock env txs ht confirm (h, s) = Inr hs"
  shows "settled (fst hs) \<and> wf_state (snd hs)"
proof -
  have "ht \<noteq> 0" using assms(3) by (metis word_not_simps(1))
  then have rec: "records placed env ht (h, s) (h1, s1)"
    using filing.recordingD [OF filing.recording_block [of ht txs "set txs"] b] settled_quiet [OF assms(1)] assms(2,4) by simp
  then obtain cs where cs: "recorded h1 = map (closures env) cs" "\<forall>c \<in> set cs. placed s1 c"
    using assms(1) by (auto simp: records_def recorded_def settled_def)
  have commit: "History_Commit ht (h1, s1) = Inr hs" using b p by (simp add: ProcessBlock_split)
  have t: "foldR execute (map (closures env) cs) s1 = Inr (snd hs)"
    using commit_runs [OF assms(1) rec commit] cs(1) by simp
  have "wf_state s1" using wf_untouched [OF assms(2)] rec by (simp add: records_def)
  then have "wf_state (snd hs)" using wf_state_block [OF _ cs(2) _ t] u cs(1) by blast
  moreover obtain ds where "hs = (h\<lparr>height := ht, seekHeight := ht,
      changes := ds @ [\<lparr>hc_height = ht, hc_changes = recorded h1\<rparr>]\<rparr>, snd hs)" "set ds \<subseteq> set (changes h)"
    using commit_recorded [OF assms(1) rec, of "snd hs"] commit t cs(1) by auto
  ultimately show ?thesis using settled_commit [OF assms(1,3)] by (metis fst_conv)
qed

lemma reachable_wf:
  assumes "reachable hs"
  shows "settled (fst hs) \<and> wf_state (snd hs)"
  using assms
proof induction
  case start
  have "tableOf (snd NewState) a = Map.empty" for a
    by (cases a) (simp_all add: NewState_def NewStateKeyFrame_def StateKeyFrame.extend_def)
  then show ?case
    by (simp add: NewState_def settled_NewHistory [simplified] wf_state_def well_filed_def held_def filed_def)
next
  case (block h s ht txs env confirm h1 s1 hs)
  then show ?case using block_wf [of h s ht txs env confirm h1 s1 hs] by simp
qed


text \<open>A block that registers a producer.\<close>

definition sampleInfo :: ProducerInfo where
  "sampleInfo = \<lparr>info_OwnerPublicKey = samplePoint, info_NodePublicKey = samplePoint, info_NickName = ''n'',
     info_Url = [], info_Location = 0, info_NetAddress = [], info_Signature = []\<rparr>"

definition sampleRegister :: Transaction where
  "sampleRegister = sampleTx\<lparr>tx_TxType := TxType_RegisterProducer, tx_Payload := Some (PProducerInfo sampleInfo),
     tx_Inputs := [], tx_Outputs := []\<rparr>"

lemma sample_deposit_hash:
  "\<exists>hash. PublicKeyToDepositProgramHash (hash160 sampleEnv) samplePoint = Inr (Inr hash)"
proof -
  have "key_ok \<lparr>pk_X = Some (beVal (tl samplePoint)), pk_Y = Some 1\<rparr>"
    by (simp add: key_ok_def beVal_samplePoint)
  from encode_ok(1) [OF this] show ?thesis
    by (simp add: PublicKeyToDepositProgramHash_def decode_samplePoint CreateDepositContractByPubKey_def)
qed

lemma NewState_sels [simp]:
  "fst NewState = NewHistory maxHistoryCapacity"
  "PendingProducers (snd NewState) = Map.empty" "ActivityProducers (snd NewState) = Map.empty"
  "InactiveProducers (snd NewState) = Map.empty" "CanceledProducers (snd NewState) = Map.empty"
  "IllegalProducers (snd NewState) = Map.empty" "NodeOwnerKeys (snd NewState) = Map.empty"
  "Nicknames (snd NewState) = {}" "ProducerDepositMap (snd NewState) = {}"
  "DepositOutputs (snd NewState) = Map.empty" "allocated (snd NewState) = 0" "Votes (snd NewState) = {}"
  by (simp_all add: NewState_def NewStateKeyFrame_def StateKeyFrame.extend_def)

lemma sample_registered:
  "\<exists>h1 s1 hash. beforeCommit sampleEnv [sampleRegister] 1 None NewState = Inr (h1, s1) \<and>
    recorded h1 = map (closures sampleEnv) [Registered ''n'' (hexEncodeToString samplePoint)
      (hexEncodeToString samplePoint) 0 hash Map.empty] \<and>
    p_state (objects s1 0) = Pending \<and> p_info (objects s1 0) = sampleInfo \<and> allocated s1 = 1 \<and>
    (\<forall>a k. tableOf s1 a k = None) \<and> Nicknames s1 = {} \<and> NodeOwnerKeys s1 = Map.empty \<and>
    ProducerDepositMap s1 = {} \<and> DepositOutputs s1 = Map.empty"
proof -
  obtain hash where hash: "PublicKeyToDepositProgramHash (hash160 sampleEnv) samplePoint = Inr (Inr hash)"
    using sample_deposit_hash by blast
  obtain h s where N: "NewState = (h, s)" by (cases NewState)
  then have h: "h = NewHistory maxHistoryCapacity" using NewState_sels(1) by (metis fst_conv)
  note s = NewState_sels(2-) [unfolded N snd_conv]
  show ?thesis
    unfolding N
    by (simp add: beforeCommit_def tryInitProducerAssetAmounts_def processTransactions_def rangeMap_def
      appendChange_def History_Append_def resetTemp_def h NewHistory_def sampleParams_def s hash
      ProcessVoteStatisticsBlock_def HeightChanges_append_def processTransaction_def sampleRegister_def
      registerProducer_def sampleInfo_def depositsTo_def processCancelVotes_def table_all recorded_def) blast
qed


subsection \<open>The conditions are needed\<close>

lemma append_first:
  assumes "settled h" and "height h < ht"
  shows "appendChange env ht c (h, s) =
    Inr (h\<lparr>cachedChanges := Some \<lparr>hc_height = ht, hc_changes = [closures env c]\<rparr>\<rparr>, s)"
proof -
  have "ht \<noteq> 0" using assms(2) by (metis word_not_simps(1))
  then show ?thesis
    using assms less_not_sym [OF assms(2)]
    by (simp add: appendChange_def History_Append_def settled_def HeightChanges_append_def)
qed

text \<open>Cancelling an inactive producer: it is filed among the canceled ones without leaving the inactive ones.\<close>

lemma cancel_inactive_two_maps:
  assumes "settled h" and "height h < ht" and "wf_state s" and "InactiveProducers s key = Some p"
    and "key = hexEncodeToString (process_OwnerPublicKey payload)" and "NodeOwnerKeys s key \<in> {None, Some key}"
  shows "\<exists>h1 h' t h'' u. cancelProducer env payload ht (h, s) = Inr (h1, s) \<and> History_Commit ht (h1, s) = Inr (h', t) \<and>
    InactiveProducers t key = Some p \<and> CanceledProducers t key = Some p \<and> p_state (objects t p) = Canceled \<and>
    State_RollbackTo (height h) (h', t) = Inr (h'', u) \<and>
    InactiveProducers u key = Some p \<and> ActivityProducers u key = Some p \<and> p_state (objects u p) = Active"
proof -
  let ?c = "ProducerCanceled key p False ht"
  let ?h1 = "h\<lparr>cachedChanges := Some \<lparr>hc_height = ht, hc_changes = [closures env ?c]\<rparr>\<rparr>"
  have wf: "well_filed s" using assms(3) by (simp add: wf_state_def)
  have T: "tableOf s InactiveT key = Some p" using assms(4) by simp
  have "stateOf s p \<in> statesOf InactiveT" using filedD [of "tableOf s" "stateOf s" "ownerOf s" InactiveT key p] wf T unfolding well_filed_def by blast
  then have inactive: "p_state (objects s p) = Inactive" by (simp add: stateOf_def)
  have key: "getProducerKey (process_OwnerPublicKey payload) s = key" using assms(5,6) by (auto simp: getProducerKey_def)
  have one: "cancelProducer env payload ht (h, s) = Inr (?h1, s)"
    using getProducer_filed [OF wf, of "process_OwnerPublicKey payload" p] exI [of _ InactiveT] T key append_first [OF assms(1,2), of env ?c s] assms(5) inactive
    by (simp add: cancelProducer_def)
  obtain t where t: "executeChange env ?c s = Inr t" "InactiveProducers t key = Some p" "CanceledProducers t key = Some p"
      "p_state (objects t p) = Canceled"
    using assms(4) by (simp add: Let_def)
  obtain u where u: "rollbackChange env ?c t = Inr u" "InactiveProducers u key = Some p" "ActivityProducers u key = Some p"
      "p_state (objects u p) = Active"
    using t(2) by (simp add: Let_def)
  have "logs_changes env ht (h, s) (?h1, s)"
    using assms(1) by (simp add: records_def settled_def quiet_def recorded_def exI [of _ "[?c]"])
  then obtain cs where commit: "History_Commit ht (?h1, s) = Inr (h\<lparr>height := ht, seekHeight := ht,
      changes := cs @ [\<lparr>hc_height = ht, hc_changes = [closures env ?c]\<rparr>]\<rparr>, t)" and cs: "set cs \<subseteq> set (changes h)"
    using commit_recorded [OF assms(1), of _ env ht s ?h1 s t] t(1) by (auto simp: recorded_def closures_def)
  have "foldR rollback [closures env ?c] t = Inr u" using u(1) by (simp add: closures_def)
  then obtain h'' where "State_RollbackTo (height h) (h\<lparr>height := ht, seekHeight := ht,
      changes := cs @ [\<lparr>hc_height = ht, hc_changes = [closures env ?c]\<rparr>]\<rparr>, t) = Inr (h'', u)"
    using rollback_recorded [OF assms(1,2) cs] unfolding State_RollbackTo_def by blast
  with one commit t u show ?thesis by blast
qed

text \<open>
  Updating a producer whose owner key another producer has registered as its node key: the update reaches
  the record of the other producer and replaces its owner key.
\<close>

lemma update_other_owner:
  assumes "settled h" and "height h < ht" and "wf_state s" and T: "tableOf s a key = Some p"
    and "NodeOwnerKeys s key \<in> {None, Some key}" and "NodeOwnerKeys s (hexEncodeToString (info_OwnerPublicKey info)) = Some key"
    and "key \<noteq> hexEncodeToString (info_OwnerPublicKey info)"
  shows "\<exists>h1 h' t. updateProducer env info ht (h, s) = Inr (h1, s) \<and> History_Commit ht (h1, s) = Inr (h', t) \<and>
    tableOf t a key = Some p \<and> info_OwnerPublicKey (p_info (objects t p)) = info_OwnerPublicKey info \<and> \<not> wf_state t"
proof -
  let ?o = "p_info (objects s p)"
  let ?c = "InfoUpdated ?o info"
  let ?h1 = "h\<lparr>cachedChanges := Some \<lparr>hc_height = ht, hc_changes = [closures env ?c]\<rparr>\<rparr>"
  have wf: "well_filed s" using assms(3) by (simp add: wf_state_def)
  have "ownerOf s p = key"
    using filedD [of "tableOf s" "stateOf s" "ownerOf s" a key p] wf T unfolding well_filed_def by blast
  then have owner: "hexEncodeToString (info_OwnerPublicKey ?o) = key" by (simp add: ownerOf_def)
  have keys: "getProducerKey (info_OwnerPublicKey info) s = key" "getProducerKey (info_OwnerPublicKey ?o) s = key"
    using assms(5,6) owner by (auto simp: getProducerKey_def)
  have found: "getProducer (info_OwnerPublicKey info) s = Some p" "getProducer (info_OwnerPublicKey ?o) s = Some p"
    using getProducer_filed [OF wf] keys T by metis+
  have one: "updateProducer env info ht (h, s) = Inr (?h1, s)"
    using found(1) append_first [OF assms(1,2), of env ?c s] by (simp add: updateProducer_def)
  obtain t where t: "executeChange env ?c s = Inr t" "tableOf t = tableOf s" "p_info (objects t p) = info"
    using found(2) by (auto simp: updateProducerInfo_def Let_def table_all fun_eq_iff)
  have "logs_changes env ht (h, s) (?h1, s)"
    using assms(1) by (simp add: records_def settled_def quiet_def recorded_def exI [of _ "[?c]"])
  then obtain h' where "History_Commit ht (?h1, s) = Inr (h', t)"
    using commit_recorded [OF assms(1), of _ env ht s ?h1 s t] t(1) by (auto simp: recorded_def closures_def)
  moreover have "\<not> wf_state t"
    using filedD [of "tableOf t" "stateOf t" "ownerOf t" a key p] t(2,3) T assms(7)
    by (auto simp: wf_state_def well_filed_def ownerOf_def)
  ultimately show ?thesis using one t T by auto
qed

text \<open>
  C14. The conditions on cancellations and updates are needed; the handlers check neither. In a well-formed
  state, cancelling a producer that is inactive leaves its key in the maps of inactive and of canceled
  producers at once, and undoing the block files it among the active producers too. And when the owner
  key of a producer is the registered node key of another one, its update replaces the owner key of that
  other producer, which stays filed under its old owner key, so the maps are no longer well formed.
\<close>

theorem maps_conditions_needed:
  assumes "settled h" and "height h < ht" and "wf_state s" and "NodeOwnerKeys s key \<in> {None, Some key}"
  shows "(InactiveProducers s key = Some p \<and> key = hexEncodeToString (process_OwnerPublicKey payload) \<longrightarrow>
      (\<exists>h1 h' t h'' u. cancelProducer env payload ht (h, s) = Inr (h1, s) \<and> History_Commit ht (h1, s) = Inr (h', t) \<and>
        InactiveProducers t key = Some p \<and> CanceledProducers t key = Some p \<and>
        State_RollbackTo (height h) (h', t) = Inr (h'', u) \<and>
        InactiveProducers u key = Some p \<and> ActivityProducers u key = Some p)) \<and>
    (tableOf s a key = Some q \<and> NodeOwnerKeys s (hexEncodeToString (info_OwnerPublicKey info)) = Some key \<and>
        key \<noteq> hexEncodeToString (info_OwnerPublicKey info) \<longrightarrow>
      (\<exists>h1 h' t. updateProducer env info ht (h, s) = Inr (h1, s) \<and> History_Commit ht (h1, s) = Inr (h', t) \<and>
        tableOf t a key = Some q \<and> info_OwnerPublicKey (p_info (objects t q)) = info_OwnerPublicKey info \<and> \<not> wf_state t))"
  using cancel_inactive_two_maps [OF assms(1-3) _ _ assms(4)] update_other_owner [OF assms(1-3) _ assms(4)]
  by blast

definition inactiveState :: State where
  "inactiveState = (snd NewState)\<lparr>InactiveProducers := [hexEncodeToString [0] \<mapsto> 0],
     NodeOwnerKeys := [hexEncodeToString [1] \<mapsto> hexEncodeToString [0]],
     objects := (\<lambda>_. zeroProducer)(0 := sampleProducer\<lparr>p_state := Inactive\<rparr>), allocated := 1\<rparr>"

theorem maps_conditions_needed_witness:
  "(\<exists>h1 h' t. cancelProducer sampleEnv \<lparr>process_OwnerPublicKey = [0], process_Signature = []\<rparr> 9
      (NewHistory maxHistoryCapacity, inactiveState) = Inr (h1, inactiveState) \<and>
    History_Commit 9 (h1, inactiveState) = Inr (h', t) \<and>
    InactiveProducers t (hexEncodeToString [0]) = Some 0 \<and> CanceledProducers t (hexEncodeToString [0]) = Some 0) \<and>
   (\<exists>h1 h' t. updateProducer sampleEnv (p_info sampleProducer\<lparr>info_OwnerPublicKey := [1]\<rparr>) 9
      (NewHistory maxHistoryCapacity, inactiveState) = Inr (h1, inactiveState) \<and>
    History_Commit 9 (h1, inactiveState) = Inr (h', t) \<and> InactiveProducers t (hexEncodeToString [0]) = Some 0 \<and>
    info_OwnerPublicKey (p_info (objects t 0)) = [1] \<and> \<not> wf_state t)"
proof -
  have "tableOf inactiveState a k = (if a = InactiveT \<and> k = hexEncodeToString [0] then Some 0 else None)" for a k
    by (cases a) (simp_all add: inactiveState_def)
  then have "wf_state inactiveState"
    by (auto simp: wf_state_def well_filed_def held_def filed_def stateOf_def ownerOf_def inactiveState_def sampleProducer_def
        split: if_splits)
  note needed = maps_conditions_needed [OF settled_NewHistory _ this, of 9 "hexEncodeToString [0]" 0
      "\<lparr>process_OwnerPublicKey = [0], process_Signature = []\<rparr>" sampleEnv InactiveT 0
      "p_info sampleProducer\<lparr>info_OwnerPublicKey := [1]\<rparr>"]
  have "hexEncodeToString [0] \<noteq> hexEncodeToString [1]" by code_simp
  with needed show ?thesis
    by (auto simp: NewHistory_def inactiveState_def)
qed

subsection \<open>An empty block\<close>

text \<open>What an empty block records: the activations that are due, map by map.\<close>

fun activation :: "State \<Rightarrow> table \<Rightarrow> string \<Rightarrow> DposChange" where
  "activation s PendingT k = ActivatedFromPending k (the (PendingProducers s k))"
| "activation s InactiveT k = ActivatedFromInactive k (the (InactiveProducers s k))"
| "activation s a k = ActivatedFromIllegal k (the (IllegalProducers s k))"

definition due :: "u32 \<Rightarrow> State \<Rightarrow> table \<Rightarrow> string \<Rightarrow> bool" where
  "due ht s a k \<longleftrightarrow> (case tableOf s a k of
     None \<Rightarrow> False
   | Some p \<Rightarrow> if a = PendingT then ht - registerHeight (objects s p) + 1 \<ge> ActivateDuration
              else requestConfirmed ht (objects s p))"

definition activations :: "Env \<Rightarrow> u32 \<Rightarrow> State \<Rightarrow> table list \<Rightarrow> DposChange list" where
  "activations env ht s as =
     concat (map (\<lambda>a. map (activation s a) (filter (due ht s a) (ord env (dom (tableOf s a))))) as)"

text \<open>The history takes any change of a new block.\<close>

definition logs :: "Env \<Rightarrow> u32 \<Rightarrow> DposChange list \<Rightarrow> State History \<Rightarrow> State History \<Rightarrow> bool" where
  "logs env ht cs h h' \<longleftrightarrow> quiet ht h' \<and> height h' = height h \<and>
     recorded h' = recorded h @ map (closures env) cs"

lemma logs_trans: "logs env ht cs h h' \<Longrightarrow> logs env ht ds h' h'' \<Longrightarrow> logs env ht (cs @ ds) h h''"
  by (simp add: logs_def)

lemma append_logs:
  assumes "quiet ht h" and "height h < ht"
  shows "\<exists>h'. appendChange env ht c (h, s) = Inr (h', s) \<and> logs env ht [c] h h'"
proof (cases "cachedChanges h")
  case None
  then show ?thesis
    using assms by (auto simp: appendChange_def History_Append_def resetTemp_def quiet_def logs_def recorded_def
        HeightChanges_append_def)
next
  case (Some hc)
  then show ?thesis
    using assms by (auto simp: appendChange_def History_Append_def resetTemp_def quiet_def logs_def recorded_def
        HeightChanges_append_def)
qed

lemma range_logs:
  assumes "quiet ht h" and "height h < ht"
    and "\<And>h k p. m s k = Some p \<Longrightarrow>
      body k p (h, s) = (if P k then appendChange env ht (C k) (h, s) else Inr (h, s))"
    and "set keys \<subseteq> dom (m s)"
  shows "\<exists>h'. foldR (\<lambda>key hs. case m (snd hs) key of None \<Rightarrow> Inr hs | Some p \<Rightarrow> body key p hs) keys (h, s) =
      Inr (h', s) \<and> logs env ht (map C (filter P keys)) h h'"
  using assms(1,2,4)
proof (induction keys arbitrary: h)
  case Nil
  then show ?case by (simp add: logs_def)
next
  case (Cons k keys)
  obtain p where p: "m s k = Some p" using Cons.prems(3) by auto
  show ?case
  proof (cases "P k")
    case True
    obtain h1 where h1: "appendChange env ht (C k) (h, s) = Inr (h1, s)" "logs env ht [C k] h h1"
      using append_logs [OF Cons.prems(1,2)] by blast
    obtain h2 where "foldR (\<lambda>key hs. case m (snd hs) key of None \<Rightarrow> Inr hs | Some p \<Rightarrow> body key p hs) keys (h1, s) =
        Inr (h2, s)" "logs env ht (map C (filter P keys)) h1 h2"
      using Cons.IH [of h1] Cons.prems h1(2) by (auto simp: logs_def)
    with h1 p True show ?thesis
      using assms(3) [OF p] logs_trans [OF h1(2)] by fastforce
  next
    case False
    with Cons p show ?thesis using assms(3) [OF p] by simp
  qed
qed

lemma rangeMap_logs:
  assumes "quiet ht h" and "height h < ht" and "ranges (ord env)" and "finite (dom (m s))"
    and "\<And>h k p. m s k = Some p \<Longrightarrow>
      body k p (h, s) = (if P k then appendChange env ht (C k) (h, s) else Inr (h, s))"
  shows "\<exists>h'. rangeMap env m body (h, s) = Inr (h', s) \<and> logs env ht (map C (filter P (ord env (dom (m s))))) h h'"
  using range_logs [of ht h m s body P env C "ord env (dom (m s))"] assms rangesD [OF assms(3,4)]
  by (auto simp: rangeMap_def)

definition activated :: "Env \<Rightarrow> u32 \<Rightarrow> table list" where
  "activated env ht =
     [PendingT, InactiveT] @ (if ht \<ge> EnableActivateIllegalHeight (chainParams env) then [IllegalT] else [])"

lemma activate_bodies:
  "PendingProducers s k = Some p \<Longrightarrow> activatePending env ht k p (h, s) =
     (if due ht s PendingT k then appendChange env ht (activation s PendingT k) (h, s) else Inr (h, s))"
  "InactiveProducers s k = Some p \<Longrightarrow> activateInactive env ht k p (h, s) =
     (if due ht s InactiveT k then appendChange env ht (activation s InactiveT k) (h, s) else Inr (h, s))"
  "IllegalProducers s k = Some p \<Longrightarrow> activateIllegal env ht k p (h, s) =
     (if due ht s IllegalT k then appendChange env ht (activation s IllegalT k) (h, s) else Inr (h, s))"
  by (simp_all add: activatePending_def activateInactive_def activateIllegal_def due_def)

lemma empty_block_logs:
  assumes "quiet ht h" and "height h < ht" and ord: "ranges (ord env)" and fin: "\<And>a. finite (dom (tableOf s a))"
  shows "\<exists>h'. processTransactions env [] ht (h, s) = Inr (h', s) \<and>
    logs env ht (activations env ht s (activated env ht)) h h'"
proof -
  obtain h1 where h1: "rangeMap env PendingProducers (activatePending env ht) (h, s) = Inr (h1, s)"
      "logs env ht (activations env ht s [PendingT]) h h1"
    using rangeMap_logs [of ht h env PendingProducers s "activatePending env ht" "due ht s PendingT"
        "activation s PendingT"] assms(1,2) ord fin [of PendingT] activate_bodies(1)
    by (auto simp: activations_def simp del: activation.simps)
  then have q1: "quiet ht h1" "height h1 < ht" using assms(2) by (simp_all add: logs_def)
  obtain h2 where h2: "rangeMap env InactiveProducers (activateInactive env ht) (h1, s) = Inr (h2, s)"
      "logs env ht (activations env ht s [InactiveT]) h1 h2"
    using rangeMap_logs [of ht h1 env InactiveProducers s "activateInactive env ht" "due ht s InactiveT"
        "activation s InactiveT"] q1 ord fin [of InactiveT] activate_bodies(2)
    by (auto simp: activations_def simp del: activation.simps)
  then have q2: "quiet ht h2" "height h2 < ht" using q1 by (simp_all add: logs_def)
  obtain h3 where h3: "rangeMap env IllegalProducers (activateIllegal env ht) (h2, s) = Inr (h3, s)"
      "logs env ht (activations env ht s [IllegalT]) h2 h3"
    using rangeMap_logs [of ht h2 env IllegalProducers s "activateIllegal env ht" "due ht s IllegalT"
        "activation s IllegalT"] q2 ord fin [of IllegalT] activate_bodies(3)
    by (auto simp: activations_def simp del: activation.simps)
  have "activations env ht s [PendingT, InactiveT] = activations env ht s [PendingT] @ activations env ht s [InactiveT]"
    "activations env ht s [PendingT, InactiveT, IllegalT] =
       (activations env ht s [PendingT] @ activations env ht s [InactiveT]) @ activations env ht s [IllegalT]"
    by (simp_all add: activations_def)
  then show ?thesis
    using h1(1) h2(1) h3(1) logs_trans [OF h1(2) h2(2)] logs_trans [OF logs_trans [OF h1(2) h2(2)] h3(2)]
    by (simp add: processTransactions_def activated_def)
qed

lemma activations_set:
  assumes "ranges (ord env)" and "\<And>a. finite (dom (tableOf s a))"
  shows "set (activations env ht s as) = {activation s a k |a k. a \<in> set as \<and> due ht s a k}"
  using rangesD [OF assms(1) assms(2)] by (fastforce simp: activations_def due_def dom_def split: option.splits)

text \<open>In a well-formed state the activations can be undone, and are independent of each other.\<close>

lemma activation_ok:
  assumes wf: "wf_state s" and a: "a \<in> {PendingT, InactiveT, IllegalT}" and k: "tableOf s a k \<noteq> None"
  shows "change_ok env (activation s a k) s" and "placed s (activation s a k)"
proof -
  obtain p where p: "tableOf s a k = Some p" using k by auto
  have f: "filed (tableOf s) (stateOf s) (ownerOf s)" using wf by (simp add: wf_state_def well_filed_def)
  have "tableOf s ActivityT k = None" using filed_once [OF f p, of ActivityT] a by fastforce
  then show "change_ok env (activation s a k) s" "placed s (activation s a k)"
    using a p filedD [OF f p] by (auto simp: stateOf_def)
qed

lemma activation_independent:
  assumes wf: "wf_state s" and a: "a \<in> {PendingT, InactiveT, IllegalT}" "tableOf s a k \<noteq> None"
    and b: "b \<in> {PendingT, InactiveT, IllegalT}" "tableOf s b l \<noteq> None" and "(a, k) \<noteq> (b, l)"
  shows "independent (foot s (activation s a k)) (foot s (activation s b l))"
    and "unrelated s (activation s a k) (activation s b l)"
proof -
  obtain p q where p: "tableOf s a k = Some p" and q: "tableOf s b l = Some q" using a b by auto
  have f: "filed (tableOf s) (stateOf s) (ownerOf s)" using wf by (simp add: wf_state_def well_filed_def)
  have "k \<noteq> l" using filed_once [OF f, of a k p b q] p q assms(6) by auto
  moreover from this have "p \<noteq> q" using filedD [OF f p] filedD [OF f q] by auto
  ultimately show "independent (foot s (activation s a k)) (foot s (activation s b l))"
    "unrelated s (activation s a k) (activation s b l)"
    using a(1) b(1) p q by (auto simp: independent_def foot_def unrelated_def)
qed

lemma sorted_wrt_distinct:
  "distinct xs \<Longrightarrow> (\<And>x y. x \<in> set xs \<Longrightarrow> y \<in> set xs \<Longrightarrow> x \<noteq> y \<Longrightarrow> R x y) \<Longrightarrow> sorted_wrt R xs"
  by (induction xs) auto

lemma activations_pairwise:
  assumes R: "\<And>a k b l. a \<in> {PendingT, InactiveT, IllegalT} \<Longrightarrow> tableOf s a k \<noteq> None \<Longrightarrow>
      b \<in> {PendingT, InactiveT, IllegalT} \<Longrightarrow> tableOf s b l \<noteq> None \<Longrightarrow> (a, k) \<noteq> (b, l) \<Longrightarrow>
      R (activation s a k) (activation s b l)"
    and ord: "ranges (ord env)" and fin: "\<And>a. finite (dom (tableOf s a))"
  shows "sorted_wrt R (activations env ht s (activated env ht))"
proof -
  define due_keys where "due_keys a = filter (due ht s a) (ord env (dom (tableOf s a)))" for a
  define pairs where "pairs = concat (map (\<lambda>a. map (Pair a) (due_keys a)) (activated env ht))"
  have acts: "activations env ht s (activated env ht) = map (\<lambda>(a, k). activation s a k) pairs"
    by (simp add: activations_def pairs_def due_keys_def map_concat comp_def)
  have keys: "distinct (due_keys a)" "k \<in> set (due_keys a) \<Longrightarrow> tableOf s a k \<noteq> None" for a k
    using rangesD [OF ord fin [of a]] by (auto simp: due_keys_def)
  have "distinct pairs"
    using keys(1) by (auto simp: pairs_def activated_def distinct_map inj_on_def)
  moreover have "a \<in> {PendingT, InactiveT, IllegalT} \<and> tableOf s a k \<noteq> None" if "(a, k) \<in> set pairs" for a k
    using that keys(2) by (auto simp: pairs_def activated_def split: if_splits)
  ultimately show ?thesis
    unfolding acts sorted_wrt_map
    by (intro sorted_wrt_distinct) (auto intro!: R simp del: activation.simps tableOf.simps)
qed

lemma activated_effect:
  assumes wf: "wf_state s" and ok: "\<forall>c \<in> set cs. change_ok env c s" and ind: "independentIn s cs"
    and t: "foldR execute (map (closures env) cs) s = Inr t"
    and acts: "set cs = {activation s a k |a k. a \<in> A \<and> due ht s a k}"
    and A: "A \<subseteq> {PendingT, InactiveT, IllegalT}" and a: "a \<in> A" and q: "tableOf s a key = Some q"
  shows "if due ht s a key then ActivityProducers t key = Some q \<and> p_state (objects t q) = Active
    else tableOf t a key = Some q"
proof (cases "due ht s a key")
  case True
  have a': "a \<in> {PendingT, InactiveT, IllegalT}" using A a by blast
  have "activation s a key \<in> set cs" unfolding acts using a True by auto
  from dpos_block_effect [OF ok ind this t]
  obtain v where "executeChange env (activation s a key) v = Inr t" by (elim exE conjE)
  then show ?thesis using True a' q by (auto simp: Let_def)
next
  case False
  have a': "a \<in> {PendingT, InactiveT, IllegalT}" using A a by blast
  have f: "filed (tableOf s) (stateOf s) (ownerOf s)" using wf by (simp add: wf_state_def well_filed_def)
  have other: "k \<noteq> key" if "b \<in> A" "due ht s b k" for b k
    using that False filed_once [OF f q, of b] by (auto simp: due_def split: option.splits)
  define l where "l = (case a of PendingT \<Rightarrow> PendingAt key | InactiveT \<Rightarrow> InactiveAt key | _ \<Rightarrow> IllegalAt key)"
  have "l \<notin> writesTo (activation s b k) s" if "b \<in> A" "due ht s b k" for b k
    using other [OF that] a' subsetD [OF A that(1)] by (auto simp: l_def)
  then have "\<forall>c \<in> set cs. l \<notin> writesTo c s"
    unfolding acts by (intro ballI) (elim CollectE exE conjE, simp only: not_False_eq_True)
  then have "view l t = view l s" by (rule dpos_block_frame [OF ok ind t])
  then show ?thesis using False a' q by (auto simp: l_def)
qed


lemma sampleState_wf: "wf_state sampleState"
proof -
  have T: "tableOf sampleState a k = (if a = PendingT \<and> k = ''00'' then Some 0 else None)" for a k
    by (cases a) simp_all
  have "allocated sampleState = 1" by (simp add: sampleState_def)
  moreover have "stateOf sampleState 0 = Pending" "ownerOf sampleState 0 = ''00''"
    by (simp_all add: stateOf_def ownerOf_def sampleProducer_def zeroProducer_def hexDigit_def)
  ultimately show ?thesis
    by (auto simp: wf_state_def well_filed_def held_def filed_def T split: if_splits)
qed


end
