(* ===== verification/DposVotes.thy ===== *)
theory DposVotes
  imports DposInvariant
begin

section \<open>Counting votes\<close>

text \<open>
  What a vote output credits (\<open>ballots\<close>), that committing it adds exactly that to the producers, and that
  cancelling it in a later block restores the state.
\<close>

subsection \<open>The ballots of an output\<close>

definition ballot :: "Output \<Rightarrow> u8 \<Rightarrow> CandidateVotes \<Rightarrow> State \<Rightarrow> (nat \<times> Fixed64) list" where
  "ballot output version cv s = (case getProducer (cv_Candidate cv) s of
     None \<Rightarrow> []
   | Some p \<Rightarrow> [(p, if version = VoteProducerVersion then out_Value output else cv_Votes cv)])"

definition ballots :: "Output \<Rightarrow> VoteOutput \<Rightarrow> State \<Rightarrow> (nat \<times> Fixed64) list" where
  "ballots output vo s = concat (map (\<lambda>vote.
     if vc_VoteType vote = VoteType_Delegate
     then concat (map (\<lambda>cv. ballot output (vo_Version vo) cv s) (vc_CandidateVotes vote)) else [])
     (vo_Contents vo))"

lemma logs_refl: "quiet ht h \<Longrightarrow> logs env ht [] h h"
  by (simp add: logs_def)

text \<open>A loop whose body records the changes \<open>g x\<close> records those of all its elements.\<close>

lemma foldR_logs:
  assumes "quiet ht h" and "height h < ht"
    and "\<And>x h. x \<in> set xs \<Longrightarrow> quiet ht h \<Longrightarrow> height h < ht \<Longrightarrow>
      \<exists>h'. f x (h, s) = Inr (h', s) \<and> logs env ht (g x) h h'"
  shows "\<exists>h'. foldR f xs (h, s) = Inr (h', s) \<and> logs env ht (concat (map g xs)) h h'"
  using assms
proof (induction xs arbitrary: h)
  case Nil
  then show ?case by (simp add: logs_refl)
next
  case (Cons x xs)
  obtain h1 where h1: "f x (h, s) = Inr (h1, s)" "logs env ht (g x) h h1"
    using Cons.prems by (metis list.set_intros(1))
  then have "quiet ht h1" "height h1 < ht" using Cons.prems(2) by (simp_all add: logs_def)
  then obtain h2 where "foldR f xs (h1, s) = Inr (h2, s)" "logs env ht (concat (map g xs)) h1 h2"
    using Cons.IH [of h1] Cons.prems(3) by (metis list.set_intros(2))
  with h1 show ?case using logs_trans [OF h1(2)] by fastforce
qed

lemma candidate_logs:
  assumes "quiet ht h" and "height h < ht"
  shows "\<exists>h'. candidateChange env chg output version voteType ht cv (h, s) = Inr (h', s) \<and>
    logs env ht (if voteType = VoteType_Delegate then map (\<lambda>(p, v). chg p v) (ballot output version cv s) else []) h h'"
  using append_logs [OF assms, of env _ s] logs_refl [OF assms(1)]
  by (auto simp: candidateChange_def ballot_def split: option.splits)

lemma votes_logs:
  assumes "quiet ht h" and "height h < ht" and "out_Payload output = Some (OVoteOutput vo)"
  shows "\<exists>h'. voteChanges env chg output ht (h, s) = Inr (h', s) \<and>
    logs env ht (map (\<lambda>(p, v). chg p v) (ballots output vo s)) h h'"
proof -
  let ?g = "\<lambda>vote cv. if vc_VoteType vote = VoteType_Delegate
    then map (\<lambda>(p, v). chg p v) (ballot output (vo_Version vo) cv s) else []"
  let ?f = "\<lambda>vote. foldR (candidateChange env chg output (vo_Version vo) (vc_VoteType vote) ht) (vc_CandidateVotes vote)"
  let ?G = "\<lambda>vote. concat (map (?g vote) (vc_CandidateVotes vote))"
  have inner: "\<exists>h'. ?f vote (h, s) = Inr (h', s) \<and> logs env ht (concat (map (?g vote) (vc_CandidateVotes vote))) h h'"
    if "quiet ht h" "height h < ht" for vote h
    by (rule foldR_logs [OF that]) (rule candidate_logs)
  from foldR_logs [OF assms(1,2), of "vo_Contents vo" ?f s env ?G, OF inner]
  obtain h' where "voteChanges env chg output ht (h, s) = Inr (h', s)"
    "logs env ht (concat (map (\<lambda>vote. concat (map (?g vote) (vc_CandidateVotes vote))) (vo_Contents vo))) h h'"
    using assms(3) by (auto simp only: voteChanges_def option.case OutputPayload.case)
  moreover have "concat (map (\<lambda>vote. concat (map (?g vote) (vc_CandidateVotes vote))) (vo_Contents vo)) =
      map (\<lambda>(p, v). chg p v) (ballots output vo s)"
    by (auto simp: ballots_def map_concat comp_def intro!: arg_cong [of _ _ concat] map_cong)
  ultimately show ?thesis by auto
qed

subsection \<open>Crediting and debiting\<close>

definition amount :: "nat \<Rightarrow> (nat \<times> Fixed64) list \<Rightarrow> Fixed64" where
  "amount p bs = sum_list (map snd (filter (\<lambda>b. fst b = p) bs))"

definition credited :: "(Fixed64 \<Rightarrow> Fixed64 \<Rightarrow> Fixed64) \<Rightarrow> (nat \<times> Fixed64) list \<Rightarrow> State \<Rightarrow> State" where
  "credited f bs s = s\<lparr>objects := \<lambda>p. (objects s p)\<lparr>votes := f (votes (objects s p)) (amount p bs)\<rparr>\<rparr>"

lemma amount_simps [simp]:
  "amount p [] = 0" "amount p ((q, v) # bs) = (if q = p then v + amount p bs else amount p bs)"
  by (simp_all add: amount_def)

lemma executes_credit:
  "foldR execute (map (closures env) (map (\<lambda>(p, v). VotesAdded p v) bs)) s = Inr (credited (+) bs s)"
proof (induction bs arbitrary: s)
  case Nil
  then show ?case by (simp add: credited_def)
next
  case (Cons b bs)
  obtain p v where b: "b = (p, v)" by (cases b)
  have "credited (+) bs (modifyProducer p (\<lambda>x. x\<lparr>votes := votes x + v\<rparr>) s) = credited (+) (b # bs) s"
    by (simp add: credited_def modifyProducer_def b fun_eq_iff add_ac)
  with Cons.IH show ?case by (simp add: b closures_def)
qed

lemma executes_debit:
  "foldR execute (map (closures env) (map (\<lambda>(p, v). VotesSubtracted p v) bs)) s = Inr (credited (-) bs s)"
proof (induction bs arbitrary: s)
  case Nil
  then show ?case by (simp add: credited_def)
next
  case (Cons b bs)
  obtain p v where b: "b = (p, v)" by (cases b)
  have "credited (-) bs (modifyProducer p (\<lambda>x. x\<lparr>votes := votes x - v\<rparr>) s) = credited (-) (b # bs) s"
    by (simp add: credited_def modifyProducer_def b fun_eq_iff)
  with Cons.IH show ?case by (simp add: b closures_def)
qed

lemma debit_credit: "credited (-) bs (credited (+) bs s) = s"
  by (simp add: credited_def)

lemma ballots_credited: "ballots output vo (credited f bs s) = ballots output vo s"
  by (simp add: ballots_def ballot_def credited_def getProducer_def getProducerKey_def
      getProducerByOwnerPublicKey_def cong: option.case_cong if_cong)

lemma commit_logged:
  assumes "settled h" and "height h < ht" and "recording (\<lambda>_. True) (\<lambda>_ _. True) env ht f" and "f (h, s) = Inr (h1, s)"
    and "logs env ht cs h h1" and "foldR execute (map (closures env) cs) s = Inr t"
  shows "\<exists>h'. History_Commit ht (h1, s) = Inr (h', t) \<and> settled h' \<and> height h' = ht"
proof -
  have r: "logs_changes env ht (h, s) (h1, s)"
    using plain.recordingD [OF assms(3,4)] settled_quiet [OF assms(1)] by simp
  have "foldR execute (recorded h1) s = Inr t"
    using assms(1,5,6) by (simp add: logs_def recorded_def settled_def)
  from commit_recorded [OF assms(1) r this] show ?thesis
    using settled_commit [OF assms(1,2)] by auto
qed

text \<open>
  C16. Votes are counted and cancelled: committing a vote output adds to every producer exactly what the
  output votes for it, modulo \<open>2 ^ 64\<close>, and changes nothing else; committing its cancellation in
  a later block restores the state.
\<close>

theorem votes_counted_and_cancelled:
  assumes "settled h" and "height h < ht" and "ht < ht'" and "out_Payload output = Some (OVoteOutput vo)"
  shows "\<exists>h1 h2. bindR (processVoteOutput env output ht (h, s)) (History_Commit ht) =
      Inr (h1, credited (+) (ballots output vo s) s) \<and>
    bindR (processVoteCancel env output ht' (h1, credited (+) (ballots output vo s) s)) (History_Commit ht') = Inr (h2, s)"
proof -
  let ?bs = "ballots output vo s" and ?t = "credited (+) (ballots output vo s) s"
  have ht: "ht \<noteq> 0" "ht' \<noteq> 0" using assms(2,3) by (metis word_not_simps(1))+
  obtain h0 where h0: "voteChanges env VotesAdded output ht (h, s) = Inr (h0, s)"
      "logs env ht (map (\<lambda>(p, v). VotesAdded p v) ?bs) h h0"
    using votes_logs [OF settled_quiet [OF assms(1)] assms(2,4)] by blast
  obtain h1 where h1: "History_Commit ht (h0, s) = Inr (h1, ?t)" "settled h1" "height h1 = ht"
    using commit_logged [OF assms(1,2) plain.recording_votes [OF ht(1) neutrals(3)] h0 executes_credit] by blast
  obtain h2 where h2: "voteChanges env VotesSubtracted output ht' (h1, ?t) = Inr (h2, ?t)"
      "logs env ht' (map (\<lambda>(p, v). VotesSubtracted p v) (ballots output vo ?t)) h1 h2"
    using votes_logs [OF settled_quiet [OF h1(2)] _ assms(4)] h1(3) assms(3) by blast
  obtain h3 where "History_Commit ht' (h2, ?t) = Inr (h3, credited (-) (ballots output vo ?t) ?t)"
    using commit_logged [OF h1(2) _ plain.recording_votes [OF ht(2) neutrals(4)] h2 executes_debit] h1(3) assms(3) by blast
  then show ?thesis
    using h0(1) h1(1) h2(1) by (simp add: processVoteOutput_def processVoteCancel_def ballots_credited debit_credit)
qed

text \<open>A vote of 100 for the producer of \<open>sampleState\<close>.\<close>

definition sampleBallot :: VoteOutput where
  "sampleBallot = \<lparr>vo_Version = VoteProducerVersion, vo_Contents = [\<lparr>vc_VoteType = VoteType_Delegate,
     vc_CandidateVotes = [\<lparr>cv_Candidate = [0], cv_Votes = 0\<rparr>]\<rparr>]\<rparr>"

definition sampleVote :: Output where
  "sampleVote = \<lparr>out_AssetID = replicate 32 3, out_Value = 100, out_OutputLock = 0,
     out_ProgramHash = PrefixStandard # replicate 20 7, out_Type = OTVote, out_Payload = Some (OVoteOutput sampleBallot)\<rparr>"

theorem votes_counted_and_cancelled_witness:
  "\<exists>h1 s1 h2. bindR (processVoteOutput sampleEnv sampleVote 7 (NewHistory maxHistoryCapacity, sampleState))
      (History_Commit 7) = Inr (h1, s1) \<and> votes (objects s1 0) = 100 \<and>
    bindR (processVoteCancel sampleEnv sampleVote 9 (h1, s1)) (History_Commit 9) = Inr (h2, sampleState)"
proof -
  have "getProducer [0] sampleState = Some 0"
    by (simp add: getProducer_def getProducerKey_def getProducerByOwnerPublicKey_def hexDigit_def sampleState_def
        NewState_def NewStateKeyFrame_def StateKeyFrame.extend_def)
  then have "ballots sampleVote sampleBallot sampleState = [(0, 100)]"
    by (simp add: ballots_def ballot_def sampleVote_def sampleBallot_def)
  then have "votes (objects (credited (+) (ballots sampleVote sampleBallot sampleState) sampleState) 0) = 100"
    by (simp add: credited_def sampleProducer_def zeroProducer_def)
  then show ?thesis
    using votes_counted_and_cancelled [OF settled_NewHistory, of 7 9 sampleVote sampleBallot sampleEnv sampleState]
    by (auto simp: NewHistory_def sampleVote_def)
qed

end
