(* ===== verification/Treap.thy ===== *)
theory Treap
  imports Prelude "HOL-Library.List_Lexorder"
begin

section \<open>Treaps\<close>

text \<open>
  The ordered maps behind the database cache (\<^verbatim>\<open>database/internal/treap\<close>): the parent stack, the mutable
  and the immutable treap, and that both are ordered maps whose count and size are exact.

  A pointer to a node is the subtree below it. The parents an operation pushes on its stack are the
  \<open>frame\<close>s of a path: the fields of the parent, the side the path takes, and the other child. A
  relinked parent is a frame that is plugged back. The priority \<^verbatim>\<open>rand.Int()\<close> gives a new node is a
  parameter. Keys are compared as byte strings, by \<open><\<close> on lists.
\<close>

subsection \<open>The parent stack\<close>

abbreviation staticDepth :: nat where "staticDepth \<equiv> 128"

record 'a parentStack =
  index :: nat
  items :: "'a option list"
  overflow :: "'a option list"

definition emptyStack :: "'a parentStack" where
  "emptyStack = \<lparr>index = 0, items = replicate staticDepth None, overflow = []\<rparr>"

definition parentStack_At :: "nat \<Rightarrow> 'a parentStack \<Rightarrow> 'a option" where
  "parentStack_At n s =
     (if index s < n + 1 then None
      else let i = index s - n - 1 in
           if i < staticDepth then items s ! i else overflow s ! (i - staticDepth))"

definition parentStack_Pop :: "'a parentStack \<Rightarrow> 'a option \<times> 'a parentStack" where
  "parentStack_Pop s =
     (if index s = 0 then (None, s)
      else let i = index s - 1 in
           if i < staticDepth then (items s ! i, s\<lparr>index := i, items := (items s)[i := None]\<rparr>)
           else (overflow s ! (i - staticDepth),
                 s\<lparr>index := i, overflow := (overflow s)[i - staticDepth := None]\<rparr>))"

definition parentStack_Push :: "'a \<Rightarrow> 'a parentStack \<Rightarrow> 'a parentStack" where
  "parentStack_Push node s =
     (if index s < staticDepth then s\<lparr>items := (items s)[index s := Some node], index := index s + 1\<rparr>
      else let i = index s - staticDepth;
               grown = (if i + 1 > length (overflow s)
                        then overflow s @ replicate (i + 1 - length (overflow s)) None else overflow s)
           in s\<lparr>overflow := grown[i := Some node], index := index s + 1\<rparr>)"

text \<open>What the stack holds, the top first, and what keeps it a stack.\<close>

definition slots :: "'a parentStack \<Rightarrow> 'a option list" where
  "slots s = items s @ overflow s"

definition stack_of :: "'a parentStack \<Rightarrow> 'a list" where
  "stack_of s = rev (map the (take (index s) (slots s)))"

definition stack_ok :: "'a parentStack \<Rightarrow> bool" where
  "stack_ok s \<longleftrightarrow> length (items s) = staticDepth \<and> index s \<le> length (slots s) \<and>
     None \<notin> set (take (index s) (slots s))"

lemma emptyStack_ok: "stack_ok emptyStack" "stack_of emptyStack = []"
  by (simp_all add: emptyStack_def stack_ok_def stack_of_def slots_def)

lemma length_stack_of: "stack_ok s \<Longrightarrow> length (stack_of s) = index s"
  by (simp add: stack_ok_def stack_of_def)

lemma slot:
  assumes "stack_ok s"
  shows "(if i < staticDepth then items s ! i else overflow s ! (i - staticDepth)) = slots s ! i"
  using assms by (simp add: stack_ok_def slots_def nth_append)

lemma slot_filled:
  assumes "stack_ok s" and "i < index s"
  shows "slots s ! i = Some (the (slots s ! i))"
proof -
  have "slots s ! i \<in> set (take (index s) (slots s))"
    using assms by (auto simp: stack_ok_def in_set_conv_nth)
  then have "slots s ! i \<noteq> None" using assms(1) unfolding stack_ok_def by metis
  then show ?thesis by simp
qed

lemma stack_At:
  assumes "stack_ok s"
  shows "parentStack_At n s = (if n < length (stack_of s) then Some (stack_of s ! n) else None)"
proof (cases "n < index s")
  case True
  then have "stack_of s ! n = the (slots s ! (index s - n - 1))"
    using assms by (simp add: stack_of_def rev_nth stack_ok_def)
  with True show ?thesis
    using slot [OF assms] slot_filled [OF assms, of "index s - n - 1"] length_stack_of [OF assms]
    by (simp add: parentStack_At_def Let_def)
next
  case False
  then show ?thesis using length_stack_of [OF assms] by (simp add: parentStack_At_def)
qed

lemma stack_Pop:
  assumes "stack_ok s"
  shows "stack_ok (snd (parentStack_Pop s))"
    and "fst (parentStack_Pop s) = (case stack_of s of [] \<Rightarrow> None | x # _ \<Rightarrow> Some x)"
    and "stack_of (snd (parentStack_Pop s)) = tl (stack_of s)"
proof -
  have "stack_ok (snd (parentStack_Pop s)) \<and>
    fst (parentStack_Pop s) = (case stack_of s of [] \<Rightarrow> None | x # _ \<Rightarrow> Some x) \<and>
    stack_of (snd (parentStack_Pop s)) = tl (stack_of s)"
  proof (cases "index s")
    case 0
    then show ?thesis using assms by (simp add: parentStack_Pop_def stack_of_def)
  next
    case (Suc i)
    let ?t = "snd (parentStack_Pop s)"
    have t: "index ?t = i" "slots ?t = (slots s)[i := None]" "length (items ?t) = length (items s)"
      "fst (parentStack_Pop s) = slots s ! i"
      using Suc assms slot [OF assms, of i]
      by (auto simp: parentStack_Pop_def slots_def stack_ok_def list_update_append)
    have tk: "take (Suc i) (slots s) = take i (slots s) @ [slots s ! i]"
      using assms Suc by (simp add: stack_ok_def take_Suc_conv_app_nth)
    have "slots s ! i = Some (the (slots s ! i))" using slot_filled [OF assms] Suc by simp
    then show ?thesis
      using t assms Suc by (auto simp: stack_ok_def stack_of_def tk)
  qed
  then show "stack_ok (snd (parentStack_Pop s))"
    and "fst (parentStack_Pop s) = (case stack_of s of [] \<Rightarrow> None | x # _ \<Rightarrow> Some x)"
    and "stack_of (snd (parentStack_Pop s)) = tl (stack_of s)" by blast+
qed

lemma stack_Push:
  assumes "stack_ok s"
  shows "stack_ok (parentStack_Push node s)" and "stack_of (parentStack_Push node s) = node # stack_of s"
proof -
  let ?t = "parentStack_Push node s"
  obtain grown where t: "index ?t = Suc (index s)" "slots ?t = grown[index s := Some node]"
      "length (items ?t) = length (items s)" "index s < length grown" "take (index s) grown = take (index s) (slots s)"
  proof (cases "index s < staticDepth")
    case True
    then show ?thesis
      using assms by (intro that [of "slots s"]) (auto simp: parentStack_Push_def slots_def stack_ok_def list_update_append)
  next
    case False
    let ?i = "index s - staticDepth"
    let ?g = "if ?i + 1 > length (overflow s) then overflow s @ replicate (?i + 1 - length (overflow s)) None else overflow s"
    show ?thesis
      using assms False
      by (intro that [of "items s @ ?g"])
        (auto simp: parentStack_Push_def slots_def stack_ok_def list_update_append Let_def)
  qed
  then have tk: "take (Suc (index s)) (slots ?t) = take (index s) (slots s) @ [Some node]"
    by (simp add: take_Suc_conv_app_nth)
  show "stack_ok ?t" "stack_of ?t = node # stack_of s"
    using assms t tk by (auto simp: stack_ok_def stack_of_def)
qed

subsection \<open>Nodes\<close>

datatype treapNode =
    Nil
  | Node (node_left: treapNode) (node_key: bytes) (node_value: bytes) (node_priority: int) (node_right: treapNode)

abbreviation nodeFieldsSize :: u64 where "nodeFieldsSize \<equiv> 72"

definition nodeSize :: "bytes \<Rightarrow> bytes \<Rightarrow> u64" where
  "nodeSize key val = nodeFieldsSize + word_of_nat (length key + length val)"

definition newTreapNode :: "bytes \<Rightarrow> bytes \<Rightarrow> int \<Rightarrow> treapNode" where
  "newTreapNode key val priority = Node Nil key val priority Nil"

datatype side = Left | Right

text \<open>A parent on the stack: the side the path takes, its key, value and priority, its other child.\<close>

type_synonym frame = "side \<times> bytes \<times> bytes \<times> int \<times> treapNode"

fun link :: "treapNode \<Rightarrow> frame \<Rightarrow> treapNode" where
  "link t (Left, k, v, p, other) = Node t k v p other"
| "link t (Right, k, v, p, other) = Node other k v p t"

fun plug :: "treapNode \<Rightarrow> frame list \<Rightarrow> treapNode" where
  "plug t [] = t"
| "plug t (f # fs) = plug (link t f) fs"

text \<open>The search loop: the subtree it stops at, and the parents it has pushed.\<close>

fun descend :: "bytes \<Rightarrow> treapNode \<Rightarrow> frame list \<Rightarrow> treapNode \<times> frame list" where
  "descend key Nil parents = (Nil, parents)"
| "descend key (Node l k v p r) parents =
     (if key < k then descend key l ((Left, k, v, p, r) # parents)
      else if key > k then descend key r ((Right, k, v, p, l) # parents)
      else (Node l k v p r, parents))"

text \<open>
  The rotations of an insertion: the new node, with the children it has collected, moves up past the
  parents of greater priority.
\<close>

fun rotateUp :: "treapNode \<Rightarrow> frame list \<Rightarrow> treapNode" where
  "rotateUp node [] = node"
| "rotateUp Nil parents = plug Nil parents"
| "rotateUp (Node l k v p r) ((Left, k', v', p', other) # parents) =
     (if p \<ge> p' then plug (Node l k v p r) ((Left, k', v', p', other) # parents)
      else rotateUp (Node l k v p (Node r k' v' p' other)) parents)"
| "rotateUp (Node l k v p r) ((Right, k', v', p', other) # parents) =
     (if p \<ge> p' then plug (Node l k v p r) ((Right, k', v', p', other) # parents)
      else rotateUp (Node (Node other k' v' p' l) k v p r) parents)"

text \<open>
  The rotations of a deletion: a node with the children \<open>l\<close> and \<open>r\<close> moves down to a leaf, below the child
  of higher priority, and is cut off there.
\<close>

function rotateDown :: "treapNode \<Rightarrow> treapNode \<Rightarrow> treapNode" where
  "rotateDown l r =
     (case l of
        Nil \<Rightarrow> (case r of Nil \<Rightarrow> Nil | Node rl k v p rr \<Rightarrow> Node (rotateDown Nil rl) k v p rr)
      | Node ll k v p lr \<Rightarrow>
          (case r of
             Nil \<Rightarrow> Node ll k v p (rotateDown lr Nil)
           | Node rl k' v' p' rr \<Rightarrow>
               (if p \<ge> p' then Node ll k v p (rotateDown lr r) else Node (rotateDown l rl) k' v' p' rr)))"
  by auto
termination by (relation "measure (\<lambda>(l, r). size l + size r)") auto

declare rotateDown.simps [simp del]

lemma rotateDown_Nil [simp]: "rotateDown Nil Nil = Nil"
  by (subst rotateDown.simps) simp

subsection \<open>The mutable treap\<close>

record Mutable =
  root :: treapNode
  count :: int
  totalSize :: u64

definition NewMutable :: Mutable where
  "NewMutable = \<lparr>root = Nil, count = 0, totalSize = 0\<rparr>"

definition Mutable_Reset :: "Mutable \<Rightarrow> Mutable" where
  "Mutable_Reset t = t\<lparr>count := 0, totalSize := 0, root := Nil\<rparr>"

definition Mutable_get :: "bytes \<Rightarrow> Mutable \<Rightarrow> treapNode \<times> frame list" where
  "Mutable_get key t = descend key (root t) []"

definition Mutable_Has :: "bytes \<Rightarrow> Mutable \<Rightarrow> bool" where
  "Mutable_Has key t \<longleftrightarrow> fst (Mutable_get key t) \<noteq> Nil"

definition Mutable_Get :: "bytes \<Rightarrow> Mutable \<Rightarrow> bytes option" where
  "Mutable_Get key t = (case fst (Mutable_get key t) of Nil \<Rightarrow> None | Node l k v p r \<Rightarrow> Some v)"

text \<open>\<open>None\<close> is the nil slice, for which the empty one is stored.\<close>

definition emptied :: "bytes option \<Rightarrow> bytes" where
  "emptied value' = (case value' of None \<Rightarrow> [] | Some v \<Rightarrow> v)"

definition Mutable_Put :: "int \<Rightarrow> bytes \<Rightarrow> bytes option \<Rightarrow> Mutable \<Rightarrow> Mutable" where
  "Mutable_Put priority key value' t =
     (let val = emptied value' in
      if root t = Nil
      then t\<lparr>count := 1, totalSize := nodeSize key val, root := newTreapNode key val priority\<rparr>
      else case descend key (root t) [] of
             (Node l k v p r, parents) \<Rightarrow>
               t\<lparr>totalSize := totalSize t - word_of_nat (length v) + word_of_nat (length val),
                 root := plug (Node l k val p r) parents\<rparr>
           | (Nil, parents) \<Rightarrow>
               t\<lparr>count := count t + 1, totalSize := totalSize t + nodeSize key val,
                 root := rotateUp (newTreapNode key val priority) parents\<rparr>)"

definition Mutable_Delete :: "bytes \<Rightarrow> Mutable \<Rightarrow> Mutable" where
  "Mutable_Delete key t =
     (case Mutable_get key t of
        (Nil, parents) \<Rightarrow> t
      | (Node l k v p r, parents) \<Rightarrow>
          (if parents = [] \<and> l = Nil \<and> r = Nil then t\<lparr>root := Nil, count := 0, totalSize := 0\<rparr>
           else t\<lparr>root := plug (rotateDown l r) parents, count := count t - 1,
                  totalSize := totalSize t - nodeSize k v\<rparr>))"

text \<open>\<^verbatim>\<open>ForEach\<close>: the nodes left to visit are on the stack; the callback says whether to go on.\<close>

fun entries :: "treapNode \<Rightarrow> (bytes \<times> bytes) list" where
  "entries Nil = []"
| "entries (Node l k v p r) = entries l @ (k, v) # entries r"

fun pushLeft :: "treapNode \<Rightarrow> treapNode list \<Rightarrow> treapNode list" where
  "pushLeft Nil parents = parents"
| "pushLeft (Node l k v p r) parents = pushLeft l (Node l k v p r # parents)"

fun pending :: "treapNode list \<Rightarrow> (bytes \<times> bytes) list" where
  "pending [] = []"
| "pending (Nil # parents) = pending parents"
| "pending (Node l k v p r # parents) = (k, v) # entries r @ pending parents"

lemma pending_pushLeft: "pending (pushLeft t parents) = entries t @ pending parents"
  by (induction t arbitrary: parents) simp_all

lemma Nil_pushLeft: "Nil \<in> set (pushLeft t parents) \<longleftrightarrow> Nil \<in> set parents"
  by (induction t arbitrary: parents) simp_all

function forEachLoop :: "(bytes \<Rightarrow> bytes \<Rightarrow> 's \<Rightarrow> bool \<times> 's) \<Rightarrow> treapNode list \<Rightarrow> 's \<Rightarrow> 's res" where
  "forEachLoop fn [] s = Inr s"
| "forEachLoop fn (Nil # parents) s = Inl NilDereference"
| "forEachLoop fn (Node l k v p r # parents) s =
     (case fn k v s of (goOn, s') \<Rightarrow> if \<not> goOn then Inr s' else forEachLoop fn (pushLeft r parents) s')"
  by pat_completeness auto
termination
  by (relation "measure (\<lambda>(fn, parents, s). length (pending parents))") (auto simp: pending_pushLeft)

definition Mutable_ForEach :: "(bytes \<Rightarrow> bytes \<Rightarrow> 's \<Rightarrow> bool \<times> 's) \<Rightarrow> Mutable \<Rightarrow> 's \<Rightarrow> 's res" where
  "Mutable_ForEach fn t s = forEachLoop fn (pushLeft (root t) []) s"

subsection \<open>The immutable treap\<close>

record Immutable =
  im_root :: treapNode
  im_count :: int
  im_totalSize :: u64

definition newImmutable :: "treapNode \<Rightarrow> int \<Rightarrow> u64 \<Rightarrow> Immutable" where
  "newImmutable rt cnt sz = \<lparr>im_root = rt, im_count = cnt, im_totalSize = sz\<rparr>"

definition NewImmutable :: Immutable where
  "NewImmutable = newImmutable Nil 0 0"

fun search :: "bytes \<Rightarrow> treapNode \<Rightarrow> treapNode" where
  "search key Nil = Nil"
| "search key (Node l k v p r) =
     (if key < k then search key l else if key > k then search key r else Node l k v p r)"

definition Immutable_get :: "bytes \<Rightarrow> Immutable \<Rightarrow> treapNode" where
  "Immutable_get key t = search key (im_root t)"

definition Immutable_Has :: "bytes \<Rightarrow> Immutable \<Rightarrow> bool" where
  "Immutable_Has key t \<longleftrightarrow> Immutable_get key t \<noteq> Nil"

definition Immutable_Get :: "bytes \<Rightarrow> Immutable \<Rightarrow> bytes option" where
  "Immutable_Get key t = (case Immutable_get key t of Nil \<Rightarrow> None | Node l k v p r \<Rightarrow> Some v)"

definition Immutable_Put :: "int \<Rightarrow> bytes \<Rightarrow> bytes option \<Rightarrow> Immutable \<Rightarrow> Immutable" where
  "Immutable_Put priority key value' t =
     (let val = emptied value' in
      if im_root t = Nil then newImmutable (newTreapNode key val priority) 1 (nodeSize key val)
      else case descend key (im_root t) [] of
             (Node l k v p r, parents) \<Rightarrow>
               newImmutable (plug (Node l k val p r) parents) (im_count t)
                 (im_totalSize t - word_of_nat (length v) + word_of_nat (length val))
           | (Nil, parents) \<Rightarrow>
               newImmutable (rotateUp (newTreapNode key val priority) parents) (im_count t + 1)
                 (im_totalSize t + nodeSize key val))"

definition Immutable_Delete :: "bytes \<Rightarrow> Immutable \<Rightarrow> Immutable" where
  "Immutable_Delete key t =
     (case descend key (im_root t) [] of
        (Nil, parents) \<Rightarrow> t
      | (Node l k v p r, parents) \<Rightarrow>
          (if parents = [] \<and> l = Nil \<and> r = Nil then newImmutable Nil 0 0
           else newImmutable (plug (rotateDown l r) parents) (im_count t - 1) (im_totalSize t - nodeSize k v)))"

definition Immutable_ForEach :: "(bytes \<Rightarrow> bytes \<Rightarrow> 's \<Rightarrow> bool \<times> 's) \<Rightarrow> Immutable \<Rightarrow> 's \<Rightarrow> 's res" where
  "Immutable_ForEach fn t s = forEachLoop fn (pushLeft (im_root t) []) s"

subsection \<open>The order of the entries\<close>

fun before :: "frame list \<Rightarrow> (bytes \<times> bytes) list" where
  "before [] = []"
| "before ((Left, k, v, p, other) # fs) = before fs"
| "before ((Right, k, v, p, other) # fs) = before fs @ entries other @ [(k, v)]"

fun behind :: "frame list \<Rightarrow> (bytes \<times> bytes) list" where
  "behind [] = []"
| "behind ((Left, k, v, p, other) # fs) = (k, v) # entries other @ behind fs"
| "behind ((Right, k, v, p, other) # fs) = behind fs"

lemma frame_cases [case_names Left Right]:
  obtains k v p other where "f = (Left, k, v, p, other)" | k v p other where "f = (Right, k, v, p, other)"
  by (cases f) (metis side.exhaust)

lemma entries_plug: "entries (plug t fs) = before fs @ entries t @ behind fs"
proof (induction fs arbitrary: t)
  case (Cons f fs)
  then show ?case by (cases f rule: frame_cases) simp_all
qed simp

lemma entries_rotateUp: "entries (rotateUp node fs) = before fs @ entries node @ behind fs"
proof (induction node fs rule: rotateUp.induct)
  case (2 f fs)
  then show ?case using entries_plug [of Nil "f # fs"] by simp
qed (simp_all add: entries_plug)

lemma entries_rotateDown: "entries (rotateDown l r) = entries l @ entries r"
proof (induction l r rule: rotateDown.induct)
  case (1 l r)
  then show ?case
    by (subst rotateDown.simps) (auto split: treapNode.splits)
qed

definition ordered :: "(bytes \<times> bytes) list \<Rightarrow> bool" where
  "ordered es \<longleftrightarrow> sorted_wrt (<) (map fst es)"

lemma ordered_append:
  "ordered (xs @ ys) \<longleftrightarrow> ordered xs \<and> ordered ys \<and> (\<forall>x \<in> fst ` set xs. \<forall>y \<in> fst ` set ys. x < y)"
  by (auto simp: ordered_def sorted_wrt_append)

lemma ordered_Cons: "ordered ((k, v) # es) \<longleftrightarrow> ordered es \<and> (\<forall>y \<in> fst ` set es. k < y)"
  by (auto simp: ordered_def)

lemma ordered_distinct: "ordered es \<Longrightarrow> distinct (map fst es)"
  by (auto simp: ordered_def strict_sorted_iff)

text \<open>Where the search of a key ends: the entries before it are smaller, those behind it greater.\<close>

lemma descend_plug: "descend key t fs = (u, gs) \<Longrightarrow> plug u gs = plug t fs"
  by (induction key t fs rule: descend.induct) (auto split: if_splits)

lemma descend_between:
  assumes "descend key t fs = (u, gs)" and "ordered (entries (plug t fs))"
    and "\<forall>e \<in> set (before fs). fst e < key" and "\<forall>e \<in> set (behind fs). key < fst e"
  shows "(\<forall>e \<in> set (before gs). fst e < key) \<and> (\<forall>e \<in> set (behind gs). key < fst e)"
  using assms
proof (induction key t fs rule: descend.induct)
  case (2 key l k v p r parents)
  have "ordered (entries l @ (k, v) # entries r)"
    using 2(4) by (simp add: entries_plug ordered_append ordered_Cons)
  then have lr: "\<forall>e \<in> set (entries l). fst e < k" "\<forall>e \<in> set (entries r). k < fst e"
    by (auto simp: ordered_append ordered_Cons)
  consider "key < k" | "k < key" | "key = k" by (metis linorder_less_linear)
  then show ?case
  proof cases
    case 1
    then have "\<forall>e \<in> set (behind ((Left, k, v, p, r) # parents)). key < fst e"
      using lr(2) 2(6) by (auto intro: less_trans)
    then show ?thesis using 2 1 by simp
  next
    case 2
    then have "\<forall>e \<in> set (before ((Right, k, v, p, l) # parents)). fst e < key"
      using lr(1) "2.prems"(3) by (auto intro: less_trans)
    moreover have "\<not> key < k" using 2 by (rule less_not_sym)
    ultimately show ?thesis using "2.IH"(2) "2.prems" 2 by simp
  next
    case 3
    then show ?thesis using "2.prems" by auto
  qed
qed simp

lemma descend_key: "descend key t fs = (Node l k v p r, gs) \<Longrightarrow> k = key"
  by (induction key t fs rule: descend.induct) (auto split: if_splits)

lemma fst_descend: "fst (descend key t fs) = search key t"
  by (induction key t fs rule: descend.induct) simp_all

text \<open>The search splits the entries of an ordered tree around its key.\<close>

lemma descend_split:
  assumes "descend key t [] = (u, gs)" and "ordered (entries t)"
  shows "entries t = before gs @ entries u @ behind gs"
    and "\<forall>e \<in> set (before gs). fst e < key" and "\<forall>e \<in> set (behind gs). key < fst e"
  using descend_plug [OF assms(1)] descend_between [OF assms(1)] assms(2) entries_plug [of u gs] by auto

lemma map_of_smaller: "\<forall>e \<in> set es. fst e < (key :: bytes) \<Longrightarrow> map_of es key = None"
  by (induction es) auto

lemma map_of_greater: "\<forall>e \<in> set es. (key :: bytes) < fst e \<Longrightarrow> map_of es key = None"
  by (induction es) auto

lemma search_Node_key: "search key t = Node l k v p r \<Longrightarrow> k = key"
  by (induction key t rule: search.induct) (auto split: if_splits)

lemma search_map_of:
  assumes "ordered (entries t)"
  shows "map_of (entries t) key = (case search key t of Nil \<Rightarrow> None | Node l k v p r \<Rightarrow> Some v)"
proof -
  obtain u gs where d: "descend key t [] = (u, gs)" by fastforce
  then have u: "search key t = u" using fst_descend [of key t "[]"] by simp
  note sp = descend_split [OF d assms]
  have "map_of (entries t) key = map_of (entries u) key"
    using sp map_of_smaller [OF sp(2)] map_of_greater [OF sp(3)] by (simp add: map_add_def split: option.splits)
  moreover have "map_of (entries u) key = (case u of Nil \<Rightarrow> None | Node l k v p r \<Rightarrow> Some v)"
  proof (cases u)
    case (Node l k v p r)
    have k: "k = key" using search_Node_key u Node by blast
    have "ordered (entries l @ (k, v) # entries r)"
      using assms sp(1) Node by (simp add: ordered_append ordered_Cons)
    then have "map_of (entries l) key = None"
      using k by (intro map_of_smaller) (auto simp: ordered_append)
    then show ?thesis using Node k by (simp add: map_add_def)
  qed simp
  ultimately show ?thesis by (simp add: u)
qed

subsection \<open>Insertion and deletion\<close>

lemma ordered_between:
  assumes "ordered xs" and "ordered ys" and "\<forall>e \<in> set xs. fst e < key" and "\<forall>e \<in> set ys. key < fst e"
  shows "ordered (xs @ (key, v) # ys)" and "ordered (xs @ ys)"
  using assms by (auto simp: ordered_append ordered_Cons intro: less_trans)

lemma map_of_between:
  assumes "\<forall>e \<in> set xs. fst e < (key :: bytes)" and "\<forall>e \<in> set ys. key < fst e"
  shows "map_of (xs @ (key, v) # ys) = (map_of (xs @ ys))(key \<mapsto> v)"
    and "(map_of (xs @ (key, v) # ys))(key := None) = map_of (xs @ ys)"
  using map_of_smaller [OF assms(1)] map_of_greater [OF assms(2)]
  by (auto simp: fun_eq_iff map_add_def split: option.splits)

text \<open>What an insertion and a deletion do to the entries.\<close>

definition inserted :: "int \<Rightarrow> bytes \<Rightarrow> bytes \<Rightarrow> treapNode \<Rightarrow> treapNode" where
  "inserted priority key val t =
     (case descend key t [] of
        (Node l k v p r, parents) \<Rightarrow> plug (Node l k val p r) parents
      | (Nil, parents) \<Rightarrow> rotateUp (newTreapNode key val priority) parents)"

definition deleted :: "bytes \<Rightarrow> treapNode \<Rightarrow> treapNode" where
  "deleted key t =
     (case descend key t [] of
        (Nil, parents) \<Rightarrow> t
      | (Node l k v p r, parents) \<Rightarrow> plug (rotateDown l r) parents)"

text \<open>The entries around a key: what is in the tree, with the key's own entry taken out.\<close>

lemma around:
  assumes "ordered (entries t)"
  obtains xs ys where "ordered xs" "ordered ys" "\<forall>e \<in> set xs. fst e < key" "\<forall>e \<in> set ys. key < fst e"
    "entries t = xs @ (case search key t of Nil \<Rightarrow> [] | Node l k v p r \<Rightarrow> [(key, v)]) @ ys"
    "\<forall>priority val. entries (inserted priority key val t) = xs @ (key, val) # ys"
    "entries (deleted key t) = xs @ ys"
proof -
  obtain u gs where d: "descend key t [] = (u, gs)" by fastforce
  then have u: "search key t = u" using fst_descend [of key t "[]"] by simp
  note sp = descend_split [OF d assms]
  show ?thesis
  proof (cases u)
    case Nil
    then show ?thesis
      using sp assms d u
      by (intro that [of "before gs" "behind gs"])
        (auto simp: ordered_append inserted_def deleted_def entries_rotateUp newTreapNode_def)
  next
    case (Node l k v p r)
    have k: "k = key" using search_Node_key u Node by blast
    have "ordered (before gs @ entries l @ (key, v) # entries r @ behind gs)"
      using assms sp(1) Node k by simp
    then show ?thesis
      using sp d u Node k
      by (intro that [of "before gs @ entries l" "entries r @ behind gs"])
        (auto simp: ordered_append ordered_Cons inserted_def deleted_def entries_plug entries_rotateDown)
  qed
qed

lemma inserted_map:
  assumes "ordered (entries t)"
  shows "ordered (entries (inserted priority key val t))"
    and "map_of (entries (inserted priority key val t)) = (map_of (entries t))(key \<mapsto> val)"
proof -
  obtain xs ys where xy: "ordered xs" "ordered ys" "\<forall>e \<in> set xs. fst e < key" "\<forall>e \<in> set ys. key < fst e"
    "entries t = xs @ (case search key t of Nil \<Rightarrow> [] | Node l k v p r \<Rightarrow> [(key, v)]) @ ys"
    "\<forall>priority val. entries (inserted priority key val t) = xs @ (key, val) # ys"
    "entries (deleted key t) = xs @ ys"
    using around [OF assms, of key] by blast
  show "ordered (entries (inserted priority key val t))"
    using xy ordered_between by simp
  have "(map_of (entries t))(key \<mapsto> val) = (map_of (xs @ ys))(key \<mapsto> val)"
    using xy(5) map_of_between [OF xy(3,4)] by (cases "search key t") simp_all
  then show "map_of (entries (inserted priority key val t)) = (map_of (entries t))(key \<mapsto> val)"
    using xy map_of_between(1) [OF xy(3,4)] by simp
qed

lemma deleted_map:
  assumes "ordered (entries t)"
  shows "ordered (entries (deleted key t))" and "map_of (entries (deleted key t)) = (map_of (entries t))(key := None)"
proof -
  obtain xs ys where xy: "ordered xs" "ordered ys" "\<forall>e \<in> set xs. fst e < key" "\<forall>e \<in> set ys. key < fst e"
    "entries t = xs @ (case search key t of Nil \<Rightarrow> [] | Node l k v p r \<Rightarrow> [(key, v)]) @ ys"
    "\<forall>priority val. entries (inserted priority key val t) = xs @ (key, val) # ys"
    "entries (deleted key t) = xs @ ys"
    using around [OF assms, of key] by blast
  show "ordered (entries (deleted key t))" using xy ordered_between by simp
  show "map_of (entries (deleted key t)) = (map_of (entries t))(key := None)"
    using xy(5,7) map_of_between(2) [OF xy(3,4)] map_of_smaller [OF xy(3)] map_of_greater [OF xy(4)]
    by (cases "search key t") (auto simp: fun_eq_iff map_add_def)
qed

subsection \<open>The contract of an ordered map\<close>

text \<open>
  What the database cache relies on: a lookup returns what the last insertion stored, the entries are in
  the order of their keys, and the count and the size are those of the entries.
\<close>

definition weight :: "(bytes \<times> bytes) list \<Rightarrow> u64" where
  "weight es = sum_list (map (\<lambda>(k, v). nodeSize k v) es)"

datatype operation = PutOp int bytes "bytes option" | DeleteOp bytes

fun on_map :: "operation \<Rightarrow> (bytes \<rightharpoonup> bytes) \<Rightarrow> (bytes \<rightharpoonup> bytes)" where
  "on_map (PutOp priority key val) m = m(key \<mapsto> emptied val)"
| "on_map (DeleteOp key) m = m(key := None)"

fun apply_op ::
    "(int \<Rightarrow> bytes \<Rightarrow> bytes option \<Rightarrow> 't \<Rightarrow> 't) \<Rightarrow> (bytes \<Rightarrow> 't \<Rightarrow> 't) \<Rightarrow> operation \<Rightarrow> 't \<Rightarrow> 't" where
  "apply_op put delete (PutOp priority key val) t = put priority key val t"
| "apply_op put delete (DeleteOp key) t = delete key t"

locale ordered_map =
  fixes lookup :: "bytes \<Rightarrow> 't \<Rightarrow> bytes option"
    and put :: "int \<Rightarrow> bytes \<Rightarrow> bytes option \<Rightarrow> 't \<Rightarrow> 't"
    and delete :: "bytes \<Rightarrow> 't \<Rightarrow> 't"
    and new :: 't
    and content :: "'t \<Rightarrow> (bytes \<times> bytes) list"
    and len :: "'t \<Rightarrow> int"
    and bytesize :: "'t \<Rightarrow> u64"
  assumes new: "content new = []" "len new = 0" "bytesize new = 0"
    and lookup: "ordered (content t) \<Longrightarrow> lookup key t = map_of (content t) key"
    and put: "ordered (content t) \<Longrightarrow> ordered (content (put priority key val t))"
      "ordered (content t) \<Longrightarrow> map_of (content (put priority key val t)) = (map_of (content t))(key \<mapsto> emptied val)"
    and delete: "ordered (content t) \<Longrightarrow> ordered (content (delete key t))"
      "ordered (content t) \<Longrightarrow> map_of (content (delete key t)) = (map_of (content t))(key := None)"
    and exact_put: "ordered (content t) \<Longrightarrow> len t = int (length (content t)) \<Longrightarrow> bytesize t = weight (content t) \<Longrightarrow>
        len (put priority key val t) = int (length (content (put priority key val t))) \<and>
        bytesize (put priority key val t) = weight (content (put priority key val t))"
    and exact_delete: "ordered (content t) \<Longrightarrow> len t = int (length (content t)) \<Longrightarrow> bytesize t = weight (content t) \<Longrightarrow>
        len (delete key t) = int (length (content (delete key t))) \<and>
        bytesize (delete key t) = weight (content (delete key t))"
begin

abbreviation run :: "operation list \<Rightarrow> 't \<Rightarrow> 't" where
  "run ops t \<equiv> fold (apply_op put delete) ops t"

lemma step_map:
  assumes "ordered (content t)"
  shows "ordered (content (apply_op put delete o' t))"
    and "map_of (content (apply_op put delete o' t)) = on_map o' (map_of (content t))"
  using assms put delete by (cases o'; simp only: apply_op.simps on_map.simps)+

lemma run_map:
  assumes "ordered (content t)"
  shows "ordered (content (run ops t)) \<and>
    map_of (content (run ops t)) = fold on_map ops (map_of (content t))"
  using assms
proof (induction ops arbitrary: t)
  case (Cons o' ops)
  then show ?case using Cons.IH [OF step_map(1)] step_map(2) [of t o'] by simp
qed simp

lemma run_exact:
  assumes "ordered (content t)" and "len t = int (length (content t))" and "bytesize t = weight (content t)"
  shows "len (run ops t) = int (length (content (run ops t))) \<and>
    bytesize (run ops t) = weight (content (run ops t))"
  using assms
proof (induction ops arbitrary: t)
  case (Cons o' ops)
  then show ?case
    using Cons.IH [OF step_map(1) [OF Cons.prems(1), of o']] exact_put exact_delete by (cases o') simp_all
qed simp

lemma run_lookup: "lookup key (run ops new) = fold on_map ops Map.empty key"
  using run_map [of new ops] lookup new by (simp add: ordered_def)

lemma run_count: "len (run ops new) = int (card (dom (fold on_map ops Map.empty)))"
proof -
  let ?t = "run ops new"
  have o: "ordered (content ?t)" and m: "map_of (content ?t) = fold on_map ops Map.empty"
    using run_map [of new ops] new by (simp_all add: ordered_def)
  have "dom (map_of (content ?t)) = set (map fst (content ?t))"
    by (simp add: dom_map_of_conv_image_fst)
  then have "card (dom (map_of (content ?t))) = length (content ?t)"
    using distinct_card [OF ordered_distinct [OF o]] by simp
  then show ?thesis
    using run_exact [of new ops] new m by (simp add: ordered_def weight_def)
qed

lemma run_content:
  "sorted_wrt (<) (map fst (content (run ops new))) \<and>
   bytesize (run ops new) = weight (content (run ops new))"
  using run_map [of new ops] run_exact [of new ops] new by (simp add: ordered_def weight_def)

end

subsection \<open>Both treaps are ordered maps\<close>

lemma Mutable_Put_root: "root (Mutable_Put priority key val t) = inserted priority key (emptied val) (root t)"
  by (auto simp: Mutable_Put_def inserted_def Let_def split: treapNode.splits prod.splits)

lemma Mutable_Delete_root: "root (Mutable_Delete key t) = deleted key (root t)"
  by (auto simp: Mutable_Delete_def Mutable_get_def deleted_def split: treapNode.splits prod.splits)

lemma weight_simps [simp]:
  "weight [] = 0" "weight ((k, v) # es) = nodeSize k v + weight es" "weight (xs @ ys) = weight xs + weight ys"
  by (simp_all add: weight_def)

text \<open>The count and the size, as an insertion and a deletion change them.\<close>

lemma inserted_exact:
  assumes "ordered (entries t)"
  shows "length (entries (inserted priority key val t)) =
      (case search key t of Nil \<Rightarrow> length (entries t) + 1 | Node l k v p r \<Rightarrow> length (entries t))"
    and "weight (entries (inserted priority key val t)) =
      (case search key t of Nil \<Rightarrow> weight (entries t) + nodeSize key val
       | Node l k v p r \<Rightarrow> weight (entries t) - word_of_nat (length v) + word_of_nat (length val))"
proof -
  obtain xs ys where xy: "ordered xs" "ordered ys" "\<forall>e \<in> set xs. fst e < key" "\<forall>e \<in> set ys. key < fst e"
    "entries t = xs @ (case search key t of Nil \<Rightarrow> [] | Node l k v p r \<Rightarrow> [(key, v)]) @ ys"
    "\<forall>priority val. entries (inserted priority key val t) = xs @ (key, val) # ys"
    "entries (deleted key t) = xs @ ys"
    using around [OF assms, of key] by blast
  from xy(5,6) show "length (entries (inserted priority key val t)) =
      (case search key t of Nil \<Rightarrow> length (entries t) + 1 | Node l k v p r \<Rightarrow> length (entries t))"
    and "weight (entries (inserted priority key val t)) =
      (case search key t of Nil \<Rightarrow> weight (entries t) + nodeSize key val
       | Node l k v p r \<Rightarrow> weight (entries t) - word_of_nat (length v) + word_of_nat (length val))"
    by (simp_all add: nodeSize_def split: treapNode.split)
qed

lemma deleted_exact:
  assumes "ordered (entries t)"
  shows "int (length (entries (deleted key t))) =
      (case search key t of Nil \<Rightarrow> int (length (entries t)) | Node l k v p r \<Rightarrow> int (length (entries t)) - 1)"
    and "weight (entries (deleted key t)) =
      (case search key t of Nil \<Rightarrow> weight (entries t) | Node l k v p r \<Rightarrow> weight (entries t) - nodeSize k v)"
proof -
  obtain xs ys where xy: "ordered xs" "ordered ys" "\<forall>e \<in> set xs. fst e < key" "\<forall>e \<in> set ys. key < fst e"
    "entries t = xs @ (case search key t of Nil \<Rightarrow> [] | Node l k v p r \<Rightarrow> [(key, v)]) @ ys"
    "\<forall>priority val. entries (inserted priority key val t) = xs @ (key, val) # ys"
    "entries (deleted key t) = xs @ ys"
    using around [OF assms, of key] by blast
  have "k = key" if "search key t = Node l k v p r" for l k v p r
    using search_Node_key that by blast
  with xy(5,7) show "int (length (entries (deleted key t))) =
      (case search key t of Nil \<Rightarrow> int (length (entries t)) | Node l k v p r \<Rightarrow> int (length (entries t)) - 1)"
    and "weight (entries (deleted key t)) =
      (case search key t of Nil \<Rightarrow> weight (entries t) | Node l k v p r \<Rightarrow> weight (entries t) - nodeSize k v)"
    by (auto split: treapNode.split)
qed

lemma search_Nil_root: "search key Nil = Nil" by simp

lemma Mutable_Put_exact:
  "count (Mutable_Put priority key val t) = (if root t = Nil then 1 else
     case search key (root t) of Nil \<Rightarrow> count t + 1 | Node l k v p r \<Rightarrow> count t)"
  "totalSize (Mutable_Put priority key val t) = (if root t = Nil then nodeSize key (emptied val) else
     case search key (root t) of Nil \<Rightarrow> totalSize t + nodeSize key (emptied val)
     | Node l k v p r \<Rightarrow> totalSize t - word_of_nat (length v) + word_of_nat (length (emptied val)))"
  using fst_descend [of key "root t" "[]"]
  by (auto simp: Mutable_Put_def Let_def split: treapNode.splits prod.splits)

lemma Mutable_Delete_exact:
  assumes "ordered (entries (root t))" and "count t = int (length (entries (root t)))"
    and "totalSize t = weight (entries (root t))"
  shows "count (Mutable_Delete key t) =
      (case search key (root t) of Nil \<Rightarrow> count t | Node l k v p r \<Rightarrow> count t - 1)"
    and "totalSize (Mutable_Delete key t) =
      (case search key (root t) of Nil \<Rightarrow> totalSize t | Node l k v p r \<Rightarrow> totalSize t - nodeSize k v)"
proof -
  obtain u parents where d: "descend key (root t) [] = (u, parents)" by fastforce
  then have u: "search key (root t) = u" using fst_descend [of key "root t" "[]"] by simp
  have "root t = u" if "parents = []" using descend_plug [OF d] that by simp
  then show "count (Mutable_Delete key t) =
      (case search key (root t) of Nil \<Rightarrow> count t | Node l k v p r \<Rightarrow> count t - 1)"
    and "totalSize (Mutable_Delete key t) =
      (case search key (root t) of Nil \<Rightarrow> totalSize t | Node l k v p r \<Rightarrow> totalSize t - nodeSize k v)"
    using assms d u by (auto simp: Mutable_Delete_def Mutable_get_def split: treapNode.splits)
qed

interpretation mut: ordered_map Mutable_Get Mutable_Put Mutable_Delete NewMutable "\<lambda>t. entries (root t)" count totalSize
proof unfold_locales
  show "entries (root NewMutable) = []" "count NewMutable = 0" "totalSize NewMutable = 0"
    by (simp_all add: NewMutable_def)
next
  fix t :: Mutable and key :: bytes and priority :: int and val :: "bytes option"
  assume o: "ordered (entries (root t))"
  show "Mutable_Get key t = map_of (entries (root t)) key"
    by (simp add: Mutable_Get_def Mutable_get_def fst_descend search_map_of [OF o])
  show "ordered (entries (root (Mutable_Put priority key val t)))"
    "map_of (entries (root (Mutable_Put priority key val t))) = (map_of (entries (root t)))(key \<mapsto> emptied val)"
    by (simp_all only: Mutable_Put_root inserted_map [OF o])
  show "ordered (entries (root (Mutable_Delete key t)))"
    "map_of (entries (root (Mutable_Delete key t))) = (map_of (entries (root t)))(key := None)"
    by (simp_all only: Mutable_Delete_root deleted_map [OF o])
  assume e: "count t = int (length (entries (root t)))" "totalSize t = weight (entries (root t))"
  show "count (Mutable_Put priority key val t) = int (length (entries (root (Mutable_Put priority key val t)))) \<and>
      totalSize (Mutable_Put priority key val t) = weight (entries (root (Mutable_Put priority key val t)))"
    using e inserted_exact [OF o, of priority key "emptied val"] unfolding Mutable_Put_root
    by (auto simp: Mutable_Put_exact split: treapNode.splits)
  show "count (Mutable_Delete key t) = int (length (entries (root (Mutable_Delete key t)))) \<and>
      totalSize (Mutable_Delete key t) = weight (entries (root (Mutable_Delete key t)))"
    using e deleted_exact [OF o, of key] unfolding Mutable_Delete_root
    by (auto simp: Mutable_Delete_exact [OF o e] split: treapNode.splits)
qed

text \<open>An immutable treap is the mutable one with the same fields.\<close>

definition thawed :: "Immutable \<Rightarrow> Mutable" where
  "thawed t = \<lparr>root = im_root t, count = im_count t, totalSize = im_totalSize t\<rparr>"

lemma thawed_sels [simp]:
  "root (thawed t) = im_root t" "count (thawed t) = im_count t" "totalSize (thawed t) = im_totalSize t"
  by (simp_all add: thawed_def)

lemma thawed_ops:
  "thawed NewImmutable = NewMutable"
  "Immutable_Get key t = Mutable_Get key (thawed t)"
  "thawed (Immutable_Put priority key val t) = Mutable_Put priority key val (thawed t)"
  "thawed (Immutable_Delete key t) = Mutable_Delete key (thawed t)"
  by (auto simp: thawed_def NewImmutable_def NewMutable_def newImmutable_def Immutable_Get_def Immutable_get_def
      Mutable_Get_def Mutable_get_def fst_descend Immutable_Put_def Mutable_Put_def Immutable_Delete_def
      Mutable_Delete_def Let_def split: treapNode.splits prod.splits)

interpretation imm: ordered_map Immutable_Get Immutable_Put Immutable_Delete NewImmutable
  "\<lambda>t. entries (im_root t)" im_count im_totalSize
proof unfold_locales
  show "entries (im_root NewImmutable) = []" "im_count NewImmutable = 0" "im_totalSize NewImmutable = 0"
    by (simp_all add: NewImmutable_def newImmutable_def)
next
  fix t :: Immutable and key :: bytes and priority :: int and val :: "bytes option"
  note put = thawed_ops(3) [of priority key val t, THEN arg_cong [of _ _ root], simplified]
    thawed_ops(3) [of priority key val t, THEN arg_cong [of _ _ count], simplified]
    thawed_ops(3) [of priority key val t, THEN arg_cong [of _ _ totalSize], simplified]
    and del = thawed_ops(4) [of key t, THEN arg_cong [of _ _ root], simplified]
    thawed_ops(4) [of key t, THEN arg_cong [of _ _ count], simplified]
    thawed_ops(4) [of key t, THEN arg_cong [of _ _ totalSize], simplified]
  assume o: "ordered (entries (im_root t))"
  then have o': "ordered (entries (root (thawed t)))" by simp
  show "Immutable_Get key t = map_of (entries (im_root t)) key"
    using mut.lookup [OF o'] by (simp add: thawed_ops(2))
  show "ordered (entries (im_root (Immutable_Put priority key val t)))"
    "map_of (entries (im_root (Immutable_Put priority key val t))) = (map_of (entries (im_root t)))(key \<mapsto> emptied val)"
    using mut.put [OF o', of priority key val] by (simp_all only: put thawed_sels)
  show "ordered (entries (im_root (Immutable_Delete key t)))"
    "map_of (entries (im_root (Immutable_Delete key t))) = (map_of (entries (im_root t)))(key := None)"
    using mut.delete [OF o', of key] by (simp_all only: del thawed_sels)
  assume "im_count t = int (length (entries (im_root t)))" "im_totalSize t = weight (entries (im_root t))"
  then have e: "count (thawed t) = int (length (entries (root (thawed t))))"
    "totalSize (thawed t) = weight (entries (root (thawed t)))" by simp_all
  show "im_count (Immutable_Put priority key val t) = int (length (entries (im_root (Immutable_Put priority key val t)))) \<and>
      im_totalSize (Immutable_Put priority key val t) = weight (entries (im_root (Immutable_Put priority key val t)))"
    using mut.exact_put [OF o' e] by (simp only: put)
  show "im_count (Immutable_Delete key t) = int (length (entries (im_root (Immutable_Delete key t)))) \<and>
      im_totalSize (Immutable_Delete key t) = weight (entries (im_root (Immutable_Delete key t)))"
    using mut.exact_delete [OF o' e] by (simp only: del)
qed

lemma thawed_run:
  "thawed (fold (apply_op Immutable_Put Immutable_Delete) ops t) = fold (apply_op Mutable_Put Mutable_Delete) ops (thawed t)"
proof (induction ops arbitrary: t)
  case (Cons o' ops)
  then show ?case by (cases o') (simp_all add: thawed_ops)
qed simp

text \<open>
  C37. A treap is a map: whatever sequence of insertions and deletions builds it, with whatever random
  priorities, both treaps return for every key what a map would, their keys are in ascending order, and
  the count and the size each of them keeps are exact: the number of keys of the map, and the sum of the
  sizes of the entries.
\<close>

theorem treap_refines_map:
  "Mutable_Get key (fold (apply_op Mutable_Put Mutable_Delete) ops NewMutable) = fold on_map ops Map.empty key \<and>
   Immutable_Get key (fold (apply_op Immutable_Put Immutable_Delete) ops NewImmutable) = fold on_map ops Map.empty key \<and>
   sorted_wrt (<) (map fst (entries (root (fold (apply_op Mutable_Put Mutable_Delete) ops NewMutable)))) \<and>
   im_root (fold (apply_op Immutable_Put Immutable_Delete) ops NewImmutable) =
     root (fold (apply_op Mutable_Put Mutable_Delete) ops NewMutable) \<and>
   count (fold (apply_op Mutable_Put Mutable_Delete) ops NewMutable) = int (card (dom (fold on_map ops Map.empty))) \<and>
   totalSize (fold (apply_op Mutable_Put Mutable_Delete) ops NewMutable) =
     weight (entries (root (fold (apply_op Mutable_Put Mutable_Delete) ops NewMutable))) \<and>
   im_count (fold (apply_op Immutable_Put Immutable_Delete) ops NewImmutable) = int (card (dom (fold on_map ops Map.empty))) \<and>
   im_totalSize (fold (apply_op Immutable_Put Immutable_Delete) ops NewImmutable) =
     weight (entries (im_root (fold (apply_op Immutable_Put Immutable_Delete) ops NewImmutable)))"
proof -
  have "im_root (fold (apply_op Immutable_Put Immutable_Delete) ops NewImmutable) =
      root (fold (apply_op Mutable_Put Mutable_Delete) ops NewMutable)"
    using thawed_run [of ops NewImmutable] by (metis thawed_ops(1) thawed_sels(1))
  then show ?thesis
    using mut.run_lookup imm.run_lookup mut.run_content [of ops] imm.run_content [of ops] mut.run_count imm.run_count
    by simp
qed

subsection \<open>Visiting the entries\<close>

fun visit :: "(bytes \<Rightarrow> bytes \<Rightarrow> 's \<Rightarrow> bool \<times> 's) \<Rightarrow> (bytes \<times> bytes) list \<Rightarrow> 's \<Rightarrow> 's" where
  "visit fn [] s = s"
| "visit fn ((k, v) # es) s = (case fn k v s of (goOn, s') \<Rightarrow> if goOn then visit fn es s' else s')"

lemma forEachLoop_visit: "Nil \<notin> set parents \<Longrightarrow> forEachLoop fn parents s = Inr (visit fn (pending parents) s)"
  by (induction fn parents s rule: forEachLoop.induct)
    (auto simp: pending_pushLeft Nil_pushLeft split: prod.splits)

text \<open>
  C38. Visiting a treap: ForEach ends without a panic, and calls the function with the entries in ascending
  order, up to the first one it returns false for.
\<close>

theorem treap_foreach_in_order:
  "Mutable_ForEach fn t s = Inr (visit fn (entries (root t)) s) \<and>
   Immutable_ForEach fn u s = Inr (visit fn (entries (im_root u)) s)"
  by (simp add: Mutable_ForEach_def Immutable_ForEach_def forEachLoop_visit Nil_pushLeft pending_pushLeft)

subsection \<open>The heap order of the priorities\<close>

fun atLeast :: "int \<Rightarrow> treapNode \<Rightarrow> bool" where
  "atLeast q Nil \<longleftrightarrow> True"
| "atLeast q (Node l k v p r) \<longleftrightarrow> q \<le> p"

fun heap_ordered :: "treapNode \<Rightarrow> bool" where
  "heap_ordered Nil \<longleftrightarrow> True"
| "heap_ordered (Node l k v p r) \<longleftrightarrow> heap_ordered l \<and> heap_ordered r \<and> atLeast p l \<and> atLeast p r"

text \<open>The parents on the path are ordered, from the bottom with priority \<open>q\<close> up.\<close>

fun heap_path :: "int \<Rightarrow> frame list \<Rightarrow> bool" where
  "heap_path q [] \<longleftrightarrow> True"
| "heap_path q ((d, k, v, p, other) # fs) \<longleftrightarrow> p \<le> q \<and> heap_ordered other \<and> atLeast p other \<and> heap_path p fs"

lemma atLeast_trans: "p \<le> q \<Longrightarrow> atLeast q t \<Longrightarrow> atLeast p t"
  by (cases t) auto

lemma heap_path_mono: "heap_path q fs \<Longrightarrow> q \<le> q' \<Longrightarrow> heap_path q' fs"
  by (cases fs) auto

lemma heap_plug:
  assumes "heap_ordered t" and "heap_path q fs" and "atLeast (case fs of [] \<Rightarrow> q | (d, k, v, p, other) # _ \<Rightarrow> p) t"
  shows "heap_ordered (plug t fs)"
  using assms
proof (induction fs arbitrary: t q)
  case (Cons f fs)
  obtain d k v p other where f: "f = (d, k, v, p, other)" by (cases f)
  have "heap_ordered (link t f)" using Cons.prems f by (cases d) simp_all
  moreover have "atLeast p' (link t f)" if "p' \<le> p" for p' using that f by (cases d) simp_all
  moreover have "(case fs of [] \<Rightarrow> p | (d, k, v, p', other) # _ \<Rightarrow> p') \<le> p"
    using Cons.prems(2) f by (cases fs) auto
  ultimately show ?case
    using Cons.IH [of "link t f" p] Cons.prems f by simp
qed simp

text \<open>An insertion keeps the heap order: the rotations bring the new node to where it belongs.\<close>

lemma heap_rotateUp:
  assumes "heap_ordered (Node l k v p r)" and "heap_path q fs"
    and "\<forall>d k' v' p' other gs. fs = (d, k', v', p', other) # gs \<longrightarrow> atLeast p' l \<and> atLeast p' r"
  shows "heap_ordered (rotateUp (Node l k v p r) fs)"
  using assms
proof (induction fs arbitrary: l r q)
  case (Cons f fs)
  obtain d k' v' p' other where f: "f = (d, k', v', p', other)" by (cases f)
  have lr: "atLeast p' l" "atLeast p' r" using Cons.prems(3) f by blast+
  have up: "heap_path p' fs" "heap_ordered other" "atLeast p' other" using Cons.prems(2) f by simp_all
  show ?case
  proof (cases "p \<ge> p'")
    case True
    then have "heap_ordered (plug (Node l k v p r) (f # fs))"
      using Cons.prems(1) up f by (intro heap_plug [of _ p']) simp_all
    then show ?thesis using True f by (cases d) simp_all
  next
    case False
    have low: "atLeast p'' l \<and> atLeast p'' r \<and> p'' \<le> p'" if "fs = (d'', k'', v'', p'', other'') # gs" for d'' k'' v'' p'' other'' gs
      using up(1) lr that atLeast_trans by auto
    show ?thesis
    proof (cases d)
      case Left
      have "heap_ordered (rotateUp (Node l k v p (Node r k' v' p' other)) fs)"
        using Cons.prems(1) lr up False low by (intro Cons.IH [of _ _ p']) auto
      then show ?thesis using False f Left by simp
    next
      case Right
      have "heap_ordered (rotateUp (Node (Node other k' v' p' l) k v p r) fs)"
        using Cons.prems(1) lr up False low by (intro Cons.IH [of _ _ p']) auto
      then show ?thesis using False f Right by simp
    qed
  qed
qed simp

lemma heap_descend:
  assumes "descend key t fs = (u, gs)" and "heap_ordered t" and "heap_path q fs" and "q \<le> q'" and "atLeast q' t"
    and "\<forall>d k v p other hs. fs = (d, k, v, p, other) # hs \<longrightarrow> atLeast p t"
  shows "heap_ordered u \<and> (\<exists>q. heap_path q gs) \<and>
    (\<forall>d k v p other hs. gs = (d, k, v, p, other) # hs \<longrightarrow> atLeast p u)"
  using assms
proof (induction key t fs arbitrary: q q' rule: descend.induct)
  case (2 key l k v p r parents)
  have path: "heap_path p ((d, k, v, p, other) # parents)" if "other \<in> {l, r}" for d other
    using 2(4,5,6,8) that heap_path_mono [OF 2(5)] by (cases parents) auto
  show ?case
    using "2.prems" "2.IH"(1) [OF _ _ _ path [of r Left], of p] "2.IH"(2) [OF _ _ _ _ path [of l Right], of p]
    by (auto split: if_splits)
qed auto

lemma heap_inserted:
  assumes "heap_ordered t"
  shows "heap_ordered (inserted priority key val t)"
proof -
  obtain u gs where d: "descend key t [] = (u, gs)" by fastforce
  obtain q0 where q0: "atLeast q0 t" by (cases t) auto
  have "heap_ordered u \<and> (\<exists>q. heap_path q gs) \<and>
      (\<forall>d k v p other hs. gs = (d, k, v, p, other) # hs \<longrightarrow> atLeast p u)"
    by (rule heap_descend [OF d assms _ order.refl q0]) simp_all
  then obtain q where q: "heap_ordered u" "heap_path q gs"
    "\<forall>d k v p other hs. gs = (d, k, v, p, other) # hs \<longrightarrow> atLeast p u" by blast
  show ?thesis
  proof (cases u)
    case Nil
    then show ?thesis
      using d q(2) heap_rotateUp [of Nil key val priority Nil q gs] by (simp add: inserted_def newTreapNode_def)
  next
    case (Node l k v p r)
    have "heap_ordered (plug (Node l k val p r) gs)"
    proof (cases gs)
      case Nil
      then show ?thesis using q(1) Node by simp
    next
      case (Cons f hs)
      obtain d' k' v' p' other where f: "f = (d', k', v', p', other)" by (cases f)
      show ?thesis using q Node Cons f by (intro heap_plug [of _ q]) auto
    qed
    then show ?thesis using d Node by (simp add: inserted_def)
  qed
qed

lemma heap_puts: "heap_ordered (root (fold (\<lambda>(priority, key, val). Mutable_Put priority key val) ps NewMutable))"
proof -
  have "heap_ordered (root (fold (\<lambda>(priority, key, val). Mutable_Put priority key val) ps t))" if "heap_ordered (root t)" for t
    using that
  proof (induction ps arbitrary: t)
    case (Cons x ps)
    obtain priority key val where "x = (priority, key, val)" by (cases x)
    then show ?case using Cons heap_inserted by (simp add: Mutable_Put_root)
  qed simp
  then show ?thesis by (simp add: NewMutable_def)
qed

text \<open>
  C39. Insertions keep the priorities in min-heap order, whatever they are; a deletion does not: it
  rotates the child of the greater priority up, where the smaller one belongs.
\<close>

theorem treap_delete_breaks_heap:
  "heap_ordered (root (fold (\<lambda>(priority, key, val). Mutable_Put priority key val) ps NewMutable)) \<and>
   (\<exists>qs key. \<not> heap_ordered (root (Mutable_Delete key
      (fold (\<lambda>(priority, key, val). Mutable_Put priority key val) qs NewMutable))))"
proof -
  let ?qs = "[(1, [2], None), (2, [1], None), (3, [3], None)] :: (int \<times> bytes \<times> bytes option) list"
  have "root (Mutable_Delete [2] (fold (\<lambda>(priority, key, val). Mutable_Put priority key val) ?qs NewMutable)) =
      Node (Node Nil [1] [] 2 Nil) [3] [] 3 Nil"
    by (simp add: Mutable_Put_def NewMutable_def newTreapNode_def emptied_def Mutable_Delete_def Mutable_get_def Let_def
        rotateDown.simps [of "Node _ _ _ _ _"] rotateDown.simps [of Nil])
  then have "\<not> heap_ordered (root (Mutable_Delete [2] (fold (\<lambda>(priority, key, val). Mutable_Put priority key val) ?qs NewMutable)))"
    by simp
  with heap_puts show ?thesis by blast
qed

end
