(* ===== verification/TreapIter.thy ===== *)
theory TreapIter
  imports Treap
begin

section \<open>Iterating over a treap\<close>

text \<open>
  The iterator of both treaps (\<^verbatim>\<open>database/internal/treap/treapiter.go\<close>) and that it visits the entries of
  its range in order. A position is the subtree at the node with the stack of its parents, the bottom
  one first; a child is compared with the node by its value, which in a treap, whose keys are distinct,
  is the comparison of the pointers.
\<close>

subsection \<open>Operations\<close>

record Iterator =
  it_mutable :: bool
  it_root :: treapNode
  it_node :: treapNode
  it_parents :: "treapNode list"
  it_isNew :: bool
  it_seekKey :: "bytes option"
  it_startKey :: "bytes option"
  it_limitKey :: "bytes option"

definition limitIterator :: "Iterator \<Rightarrow> bool \<times> Iterator" where
  "limitIterator it =
     (if it_node it = Nil then (False, it)
      else if (case it_startKey it of None \<Rightarrow> False | Some k \<Rightarrow> node_key (it_node it) < k)
      then (False, it\<lparr>it_node := Nil\<rparr>)
      else if (case it_limitKey it of None \<Rightarrow> False | Some k \<Rightarrow> node_key (it_node it) \<ge> k)
      then (False, it\<lparr>it_node := Nil\<rparr>)
      else (True, it))"

text \<open>
  The search of \<^verbatim>\<open>seek\<close>: the selected node with its depth, and the parents. An exact match ends it
  (\<open>Inl\<close>) with the parents of the matching node.
\<close>

fun seekLoop ::
    "bytes \<Rightarrow> bool \<Rightarrow> bool \<Rightarrow> treapNode \<Rightarrow> treapNode list \<Rightarrow> treapNode \<times> nat \<Rightarrow>
     (treapNode \<times> treapNode list) + ((treapNode \<times> nat) \<times> treapNode list)" where
  "seekLoop key exactMatch up Nil parents sel = Inr (sel, parents)"
| "seekLoop key exactMatch up (Node l k v p r) parents sel =
     (let node = Node l k v p r; parents' = node # parents in
      if key < k then seekLoop key exactMatch up l parents' (if up then (node, length parents' - 1) else sel)
      else if key > k then
        seekLoop key exactMatch up r parents' (if \<not> up then (node, length parents' - 1) else sel)
      else if exactMatch then Inl (node, parents)
      else if up then seekLoop key exactMatch up r parents' sel
      else seekLoop key exactMatch up l parents' sel)"

definition Iterator_seek :: "bytes \<Rightarrow> bool \<Rightarrow> bool \<Rightarrow> Iterator \<Rightarrow> bool \<times> Iterator" where
  "Iterator_seek key exactMatch up it =
     (case seekLoop key exactMatch up (it_root it) [] (Nil, 0) of
        Inl (node, parents) \<Rightarrow> limitIterator (it\<lparr>it_node := node, it_parents := parents\<rparr>)
      | Inr ((node, depth), parents) \<Rightarrow>
          limitIterator (it\<lparr>it_node := node, it_parents := drop (length parents - depth) parents\<rparr>))"

fun leftmost :: "treapNode \<Rightarrow> treapNode list \<Rightarrow> treapNode \<times> treapNode list" where
  "leftmost Nil parents = (Nil, parents)"
| "leftmost (Node l k v p r) parents =
     (if l = Nil then (Node l k v p r, parents) else leftmost l (Node l k v p r # parents))"

fun rightmost :: "treapNode \<Rightarrow> treapNode list \<Rightarrow> treapNode \<times> treapNode list" where
  "rightmost Nil parents = (Nil, parents)"
| "rightmost (Node l k v p r) parents =
     (if r = Nil then (Node l k v p r, parents) else rightmost r (Node l k v p r # parents))"

definition Iterator_First :: "Iterator \<Rightarrow> bool \<times> Iterator" where
  "Iterator_First it =
     (let it = it\<lparr>it_isNew := False\<rparr> in
      case it_startKey it of
        Some k \<Rightarrow> Iterator_seek k True True it
      | None \<Rightarrow>
          (case leftmost (it_root it) [] of
             (Nil, parents) \<Rightarrow> (False, it\<lparr>it_parents := parents\<rparr>)
           | (node, parents) \<Rightarrow> (True, it\<lparr>it_node := node, it_parents := parents\<rparr>)))"

definition Iterator_Last :: "Iterator \<Rightarrow> bool \<times> Iterator" where
  "Iterator_Last it =
     (let it = it\<lparr>it_isNew := False\<rparr> in
      case it_limitKey it of
        Some k \<Rightarrow> Iterator_seek k False False it
      | None \<Rightarrow>
          (case rightmost (it_root it) [] of
             (Nil, parents) \<Rightarrow> (False, it\<lparr>it_parents := parents\<rparr>)
           | (node, parents) \<Rightarrow> (True, it\<lparr>it_node := node, it_parents := parents\<rparr>)))"

text \<open>Walking the parents up while the node is their \<open>child\<close>.\<close>

fun climb :: "(treapNode \<Rightarrow> treapNode) \<Rightarrow> treapNode \<Rightarrow> treapNode list \<Rightarrow> treapNode \<times> treapNode list" where
  "climb child node [] = (Nil, [])"
| "climb child node (parent # parents) =
     (if child parent = node then climb child parent parents else (parent, parents))"

definition Iterator_Next :: "Iterator \<Rightarrow> bool \<times> Iterator" where
  "Iterator_Next it =
     (if it_isNew it then Iterator_First it
      else if it_node it = Nil then (False, it)
      else case it_seekKey it of
             Some k \<Rightarrow> Iterator_seek k False True (it\<lparr>it_seekKey := None\<rparr>)
           | None \<Rightarrow>
               (if node_right (it_node it) = Nil
                then case climb node_right (it_node it) (it_parents it) of
                       (node, parents) \<Rightarrow> limitIterator (it\<lparr>it_node := node, it_parents := parents\<rparr>)
                else case leftmost (node_right (it_node it)) (it_node it # it_parents it) of
                       (node, parents) \<Rightarrow> limitIterator (it\<lparr>it_node := node, it_parents := parents\<rparr>)))"

definition Iterator_Prev :: "Iterator \<Rightarrow> bool \<times> Iterator" where
  "Iterator_Prev it =
     (if it_isNew it then Iterator_Last it
      else if it_node it = Nil then (False, it)
      else case it_seekKey it of
             Some k \<Rightarrow> Iterator_seek k False False (it\<lparr>it_seekKey := None\<rparr>)
           | None \<Rightarrow>
               (if node_left (it_node it) = Nil
                then case climb node_left (it_node it) (it_parents it) of
                       (node, parents) \<Rightarrow> limitIterator (it\<lparr>it_node := node, it_parents := parents\<rparr>)
                else case rightmost (node_left (it_node it)) (it_node it # it_parents it) of
                       (node, parents) \<Rightarrow> limitIterator (it\<lparr>it_node := node, it_parents := parents\<rparr>)))"

definition Iterator_Seek :: "bytes \<Rightarrow> Iterator \<Rightarrow> bool \<times> Iterator" where
  "Iterator_Seek key it = Iterator_seek key True True (it\<lparr>it_isNew := False\<rparr>)"

definition Iterator_Key :: "Iterator \<Rightarrow> bytes option" where
  "Iterator_Key it = (if it_node it = Nil then None else Some (node_key (it_node it)))"

definition Iterator_Value :: "Iterator \<Rightarrow> bytes option" where
  "Iterator_Value it = (if it_node it = Nil then None else Some (node_value (it_node it)))"

definition Iterator_Valid :: "Iterator \<Rightarrow> bool" where
  "Iterator_Valid it \<longleftrightarrow> it_node it \<noteq> Nil"

text \<open>\<open>t\<close> is the treap the iterator was made from, as it is now.\<close>

definition Iterator_ForceReseek :: "Mutable \<Rightarrow> Iterator \<Rightarrow> Iterator" where
  "Iterator_ForceReseek t it =
     (if \<not> it_mutable it then it
      else let it = it\<lparr>it_root := root t\<rparr> in
           if it_node it = Nil then it\<lparr>it_seekKey := None\<rparr>
           else it\<lparr>it_seekKey := Some (node_key (it_node it))\<rparr>)"

definition Mutable_Iterator :: "bytes option \<Rightarrow> bytes option \<Rightarrow> Mutable \<Rightarrow> Iterator" where
  "Mutable_Iterator startKey limitKey t =
     \<lparr>it_mutable = True, it_root = root t, it_node = Nil, it_parents = [], it_isNew = True, it_seekKey = None,
      it_startKey = startKey, it_limitKey = limitKey\<rparr>"

definition Immutable_Iterator :: "bytes option \<Rightarrow> bytes option \<Rightarrow> Immutable \<Rightarrow> Iterator" where
  "Immutable_Iterator startKey limitKey t =
     \<lparr>it_mutable = False, it_root = im_root t, it_node = Nil, it_parents = [], it_isNew = True, it_seekKey = None,
      it_startKey = startKey, it_limitKey = limitKey\<rparr>"

subsection \<open>Positions\<close>

text \<open>The parents of a subtree in its context.\<close>

fun parents_of :: "treapNode \<Rightarrow> frame list \<Rightarrow> treapNode list" where
  "parents_of t [] = []"
| "parents_of t (f # fs) = link t f # parents_of (link t f) fs"

lemma length_parents_of [simp]: "length (parents_of t fs) = length fs"
  by (induction fs arbitrary: t) simp_all

text \<open>The entry a node stands for, and the entries behind it and before it.\<close>

definition entry :: "treapNode \<Rightarrow> bytes \<times> bytes" where
  "entry t = (node_key t, node_value t)"

definition after :: "treapNode \<Rightarrow> frame list \<Rightarrow> (bytes \<times> bytes) list" where
  "after t fs = entries (node_right t) @ behind fs"

definition prior :: "treapNode \<Rightarrow> frame list \<Rightarrow> (bytes \<times> bytes) list" where
  "prior t fs = before fs @ entries (node_left t)"

lemma entries_position: "t \<noteq> Nil \<Longrightarrow> entries (plug t fs) = prior t fs @ entry t # after t fs"
  by (cases t) (simp_all add: entries_plug prior_def after_def entry_def)

text \<open>A position that is the first with the entries \<open>es\<close> from there on; none when there are no entries.\<close>

definition starts :: "treapNode \<Rightarrow> (bytes \<times> bytes) list \<Rightarrow> treapNode \<times> treapNode list \<Rightarrow> bool" where
  "starts rt es pos \<longleftrightarrow> (if es = [] then fst pos = Nil else
     \<exists>fs. fst pos \<noteq> Nil \<and> snd pos = parents_of (fst pos) fs \<and> plug (fst pos) fs = rt \<and>
       es = entry (fst pos) # after (fst pos) fs)"

lemma leftmost_starts:
  "t \<noteq> Nil \<Longrightarrow> starts (plug t fs) (entries t @ behind fs) (leftmost t (parents_of t fs))"
proof (induction t arbitrary: fs)
  case (Node l k v p r)
  show ?case
  proof (cases "l = Nil")
    case True
    then show ?thesis by (auto simp: starts_def entry_def after_def intro!: exI [of _ fs])
  next
    case False
    then show ?thesis using Node.IH(1) [of "(Left, k, v, p, r) # fs"] by simp
  qed
qed simp

lemma climb_starts:
  assumes "t \<noteq> Nil" and "ordered (entries (plug t fs))"
  shows "starts (plug t fs) (behind fs) (climb node_right t (parents_of t fs))"
  using assms
proof (induction fs arbitrary: t)
  case Nil
  then show ?case by (simp add: starts_def)
next
  case (Cons f fs)
  show ?case
  proof (cases f rule: frame_cases)
    case (Left k v p other)
    have "ordered (entries t @ (k, v) # entries other)"
      using Cons.prems(2) Left by (simp add: entries_plug ordered_append ordered_Cons)
    then have "other \<noteq> t" using Cons.prems(1) by (cases t) (auto simp: ordered_append ordered_Cons)
    then show ?thesis using Left by (auto simp: starts_def entry_def after_def intro!: exI [of _ fs])
  next
    case (Right k v p other)
    then show ?thesis using Cons.IH [of "link t f"] Cons.prems by simp
  qed
qed

subsection \<open>Seeking\<close>

text \<open>The selection of \<^verbatim>\<open>seek\<close>: the lowest parent whose side is \<open>d\<close>, with its depth.\<close>

fun select :: "side \<Rightarrow> treapNode \<Rightarrow> frame list \<Rightarrow> treapNode \<times> nat" where
  "select d t [] = (Nil, 0)"
| "select d t (f # fs) = (if fst f = d then (link t f, length fs) else select d (link t f) fs)"

lemma select_starts:
  "starts (plug t fs) (behind fs)
     (fst (select Left t fs), drop (length fs - snd (select Left t fs)) (parents_of t fs))"
proof (induction fs arbitrary: t)
  case Nil
  then show ?case by (simp add: starts_def)
next
  case (Cons f fs)
  show ?case
  proof (cases f rule: frame_cases)
    case (Left k v p other)
    then show ?thesis by (auto simp: starts_def entry_def after_def intro!: exI [of _ fs])
  next
    case (Right k v p other)
    have "snd (select Left (link t f) fs) \<le> length fs" for t
      by (induction fs arbitrary: t f) (simp_all add: le_SucI)
    then show ?thesis using Right Cons.IH [of "link t f"] by (simp add: Suc_diff_le)
  qed
qed

text \<open>Which keys a forward search leaves behind: those smaller than the key, and the key itself unless a match is wanted.\<close>

definition passed :: "bool \<Rightarrow> bytes \<Rightarrow> bytes \<times> bytes \<Rightarrow> bool" where
  "passed exactMatch key e \<longleftrightarrow> (if exactMatch then fst e < key else fst e \<le> key)"

lemma seekLoop_forward:
  assumes "plug node fs = rt" and "ordered (entries rt)" and "\<forall>e \<in> set (before fs). passed ex key e"
    and "\<forall>e \<in> set (behind fs). key < fst e"
  shows "case seekLoop key ex True node (parents_of node fs) (select Left node fs) of
      Inl (u, ps) \<Rightarrow> ex \<and> (\<exists>gs. u \<noteq> Nil \<and> ps = parents_of u gs \<and> plug u gs = rt \<and> node_key u = key)
    | Inr (sel, ps) \<Rightarrow> \<exists>gs. ps = parents_of Nil gs \<and> sel = select Left Nil gs \<and> plug Nil gs = rt \<and>
        (\<forall>e \<in> set (before gs). passed ex key e) \<and> (\<forall>e \<in> set (behind gs). key < fst e)"
  using assms
proof (induction node arbitrary: fs)
  case Nil
  then show ?case by auto
next
  case (Node l k v p r)
  have "ordered (entries l @ (k, v) # entries r)"
    using Node.prems(2) [folded Node.prems(1)] by (simp add: entries_plug ordered_append ordered_Cons)
  then have lr: "\<forall>e \<in> set (entries l). fst e < k" "\<forall>e \<in> set (entries r). k < fst e"
    by (auto simp: ordered_append ordered_Cons)
  consider "key < k" | "k < key" | "key = k" ex | "key = k" "\<not> ex" by (metis linorder_less_linear)
  then show ?case
  proof cases
    case 1
    then have "\<forall>e \<in> set (behind ((Left, k, v, p, r) # fs)). key < fst e"
      using lr(2) Node.prems(4) by (auto intro: less_trans)
    then show ?thesis
      using Node.IH(1) [of "(Left, k, v, p, r) # fs"] Node.prems 1 by (simp add: Let_def)
  next
    case 2
    then have "\<forall>e \<in> set (before ((Right, k, v, p, l) # fs)). passed ex key e"
      using lr(1) Node.prems(3) by (auto simp: passed_def intro: less_trans less_imp_le)
    moreover have "\<not> key < k" using 2 by (rule less_not_sym)
    ultimately show ?thesis
      using Node.IH(2) [of "(Right, k, v, p, l) # fs"] Node.prems 2 by (simp add: Let_def)
  next
    case 3
    then show ?thesis using Node.prems(1) by (auto simp: Let_def intro!: exI [of _ fs])
  next
    case 4
    then have "\<forall>e \<in> set (before ((Right, k, v, p, l) # fs)). passed ex key e"
      using lr(1) Node.prems(3) by (auto simp: passed_def intro: less_imp_le)
    moreover have "\<forall>e \<in> set (behind ((Right, k, v, p, l) # fs)). key < fst e" using Node.prems(4) by simp
    ultimately show ?thesis
      using Node.IH(2) [of "(Right, k, v, p, l) # fs"] Node.prems(1,2) 4 by (simp add: Let_def)
  qed
qed

lemma dropWhile_split:
  "\<forall>e \<in> set xs. P e \<Longrightarrow> (ys = [] \<or> \<not> P (hd ys)) \<Longrightarrow> dropWhile P (xs @ ys) = ys"
  by (induction xs) (auto simp: dropWhile_eq_self_iff)

definition position :: "Iterator \<Rightarrow> treapNode \<times> treapNode list" where
  "position it = (it_node it, it_parents it)"

lemma seek_forward:
  assumes o: "ordered (entries (it_root it))"
  shows "\<exists>it'. Iterator_seek key ex True it = limitIterator it' \<and>
    starts (it_root it) (dropWhile (passed ex key) (entries (it_root it))) (position it') \<and>
    it' = it\<lparr>it_node := it_node it', it_parents := it_parents it'\<rparr>"
proof -
  let ?rt = "it_root it"
  note spec = seekLoop_forward [of ?rt "[]" ?rt ex key, simplified, OF o]
  show ?thesis
  proof (cases "seekLoop key ex True ?rt [] (Nil, 0)")
    case (Inl x)
    obtain u ps where x: "x = (u, ps)" by (cases x)
    then obtain gs where gs: "ex" "u \<noteq> Nil" "ps = parents_of u gs" "plug u gs = ?rt" "node_key u = key"
      using spec Inl by auto
    have split: "entries ?rt = prior u gs @ entry u # after u gs" using entries_position [OF gs(2), of gs] gs(4) by simp
    then have "dropWhile (passed ex key) (entries ?rt) = entry u # after u gs"
      using o gs(1,5) by (subst split, intro dropWhile_split) (auto simp: ordered_append passed_def entry_def)
    then show ?thesis
      using Inl x gs by (intro exI [of _ "it\<lparr>it_node := u, it_parents := ps\<rparr>"])
        (auto simp: Iterator_seek_def starts_def position_def)
  next
    case (Inr y)
    obtain node depth ps where y: "y = ((node, depth), ps)" by (metis surj_pair)
    then obtain gs where gs: "ps = parents_of Nil gs" "(node, depth) = select Left Nil gs" "plug Nil gs = ?rt"
        "\<forall>e \<in> set (before gs). passed ex key e" "\<forall>e \<in> set (behind gs). key < fst e"
      using spec Inr by auto
    have "entries ?rt = before gs @ behind gs" using entries_plug [of Nil gs] gs(3) by simp
    moreover have "behind gs = [] \<or> \<not> passed ex key (hd (behind gs))"
      using gs(5) by (cases "behind gs") (auto simp: passed_def)
    ultimately have "dropWhile (passed ex key) (entries ?rt) = behind gs"
      using dropWhile_split [OF gs(4), of "behind gs"] by (simp only:)
    moreover have "starts ?rt (behind gs) (node, drop (length ps - depth) ps)"
      using select_starts [of Nil gs] gs by (simp add: prod_eq_iff)
    ultimately show ?thesis
      using Inr y by (intro exI [of _ "it\<lparr>it_node := node, it_parents := drop (length ps - depth) ps\<rparr>"])
        (auto simp: Iterator_seek_def position_def)
  qed
qed

subsection \<open>Iterating forward\<close>

definition inRange :: "Iterator \<Rightarrow> bytes \<times> bytes \<Rightarrow> bool" where
  "inRange it e \<longleftrightarrow> (case it_startKey it of None \<Rightarrow> True | Some k \<Rightarrow> k \<le> fst e) \<and>
     (case it_limitKey it of None \<Rightarrow> True | Some k \<Rightarrow> fst e < k)"

text \<open>
  An iterator that has been moved forward to where the entries \<open>es\<close> of its treap are left, itself
  included, while these are in its range.
\<close>

definition stands :: "Iterator \<Rightarrow> (bytes \<times> bytes) list \<Rightarrow> bool" where
  "stands it es \<longleftrightarrow> ordered (entries (it_root it)) \<and> \<not> it_isNew it \<and> it_seekKey it = None \<and>
     starts (it_root it) es (position it)"

lemma limitIterator_stands:
  assumes "stands it es"
  shows "case es of
      [] \<Rightarrow> \<not> fst (limitIterator it)
    | e # _ \<Rightarrow> if inRange it e then limitIterator it = (True, it) else \<not> fst (limitIterator it)"
  using assms
  by (auto simp: stands_def starts_def position_def limitIterator_def inRange_def entry_def split: list.splits option.splits)

lemma Next_stands:
  assumes "stands it (e # es)"
  shows "\<exists>it'. Iterator_Next it = limitIterator it' \<and> stands it' es \<and>
    it_startKey it' = it_startKey it \<and> it_limitKey it' = it_limitKey it \<and> it_root it' = it_root it"
proof -
  obtain fs where t: "it_node it \<noteq> Nil" "it_parents it = parents_of (it_node it) fs" "plug (it_node it) fs = it_root it"
      "es = after (it_node it) fs" and o: "ordered (entries (it_root it))" "\<not> it_isNew it" "it_seekKey it = None"
    using assms by (auto simp: stands_def starts_def position_def)
  show ?thesis
  proof (cases "node_right (it_node it) = Nil")
    case True
    let ?c = "climb node_right (it_node it) (it_parents it)"
    have "starts (it_root it) es ?c"
      using climb_starts [OF t(1), of fs] t True o by (simp add: after_def)
    then show ?thesis
      using True o t(1)
      by (intro exI [of _ "it\<lparr>it_node := fst ?c, it_parents := snd ?c\<rparr>"])
        (auto simp: Iterator_Next_def stands_def position_def split: prod.split)
  next
    case False
    let ?r = "node_right (it_node it)"
    let ?c = "leftmost ?r (it_node it # it_parents it)"
    obtain l k v p r where n: "it_node it = Node l k v p r" using t(1) by (cases "it_node it") auto
    have "starts (it_root it) es ?c"
      using leftmost_starts [OF False, of "(Right, k, v, p, l) # fs"] t n by (simp add: after_def)
    then show ?thesis
      using False o t(1)
      by (intro exI [of _ "it\<lparr>it_node := fst ?c, it_parents := snd ?c\<rparr>"])
        (auto simp: Iterator_Next_def stands_def position_def split: prod.split)
  qed
qed

text \<open>What repeated calls of \<^verbatim>\<open>Next\<close> return, at most \<open>n\<close> of them.\<close>

fun collect :: "nat \<Rightarrow> Iterator \<Rightarrow> (bytes \<times> bytes) list" where
  "collect 0 it = []"
| "collect (Suc n) it =
     (case Iterator_Next it of (ok, it') \<Rightarrow> if ok then entry (it_node it') # collect n it' else [])"

lemma collect_stands:
  assumes "stands it (e # es)" and "length es < n"
  shows "collect n it = takeWhile (inRange it) es"
  using assms
proof (induction es arbitrary: it e n)
  case Nil
  then obtain m where n: "n = Suc m" by (cases n) auto
  obtain it' where "Iterator_Next it = limitIterator it'" "stands it' []"
    using Next_stands [OF Nil.prems(1)] by blast
  then show ?case using limitIterator_stands [of it' "[]"] n by (auto split: prod.splits)
next
  case (Cons x es)
  then obtain m where n: "n = Suc m" "length es < m" by (cases n) auto
  obtain it' where it': "Iterator_Next it = limitIterator it'" "stands it' (x # es)"
      "it_startKey it' = it_startKey it" "it_limitKey it' = it_limitKey it"
    using Next_stands [OF Cons.prems(1)] by blast
  have same: "inRange it' = inRange it" using it'(3,4) by (simp add: inRange_def fun_eq_iff)
  have "entry (it_node it') = x" using it'(2) by (auto simp: stands_def starts_def position_def)
  then show ?case
    using limitIterator_stands [OF it'(2)] it'(1) n same Cons.IH [OF it'(2) n(2)]
    by (auto split: prod.splits if_splits)
qed

lemma collect_first:
  assumes "Iterator_First it = limitIterator it'" and "it_isNew it" and "stands it' es" and "length es < n"
  shows "collect n it = takeWhile (inRange it') es"
proof (cases es)
  case Nil
  then show ?thesis
    using assms limitIterator_stands [OF assms(3)]
    by (cases n) (auto simp: Iterator_Next_def split: prod.splits)
next
  case (Cons e es')
  then obtain m where n: "n = Suc m" "length es' < m" using assms(4) by (cases n) auto
  have "entry (it_node it') = e" using assms(3) Cons by (auto simp: stands_def starts_def position_def)
  then show ?thesis
    using assms limitIterator_stands [OF assms(3)] collect_stands [of it' e es' m] n Cons
    by (auto simp: Iterator_Next_def split: prod.splits if_splits)
qed

lemma takeWhile_filter:
  assumes "ordered es"
  shows "takeWhile (\<lambda>e. fst e < l) es = filter (\<lambda>e. fst e < l) es"
proof -
  have "filter (\<lambda>e. fst e < l) es = []" if "ordered es" "\<forall>e \<in> set es. l \<le> fst e" for es :: "(bytes \<times> bytes) list"
    using that by (auto simp: filter_empty_conv not_less)
  then show ?thesis
    using assms
  proof (induction es)
    case (Cons e es)
    obtain k v where e: "e = (k, v)" by (cases e)
    show ?case
    proof (cases "k < l")
      case False
      then have "\<forall>e \<in> set es. l \<le> fst e"
        using Cons.prems(2) e by (auto simp: ordered_Cons not_less intro: order.strict_implies_order order.trans)
      then show ?thesis using False e by (auto simp: filter_empty_conv not_less)
    qed (use Cons e in \<open>auto simp: ordered_Cons\<close>)
  qed simp
qed

lemma dropWhile_filter:
  assumes "ordered es"
  shows "dropWhile (passed True key) es = filter (\<lambda>e. key \<le> fst e) es"
  using assms
proof (induction es)
  case (Cons e es)
  obtain k v where e: "e = (k, v)" by (cases e)
  show ?case
  proof (cases "k < key")
    case False
    then have "\<forall>e \<in> set es. key \<le> fst e"
      using Cons.prems e by (auto simp: ordered_Cons not_less intro: order.strict_implies_order order.trans)
    then show ?thesis using False e by (auto simp: passed_def not_less)
  qed (use Cons e in \<open>auto simp: ordered_Cons passed_def not_le\<close>)
qed simp

lemma ordered_filter: "ordered es \<Longrightarrow> ordered (filter P es)"
  by (simp add: ordered_def sorted_wrt_map sorted_wrt_filter)

lemma iterate_from:
  assumes o: "ordered (entries (it_root it))" and new: "it_isNew it" "it_seekKey it = None"
    and start: "it_startKey it = Some start" and n: "length (entries (it_root it)) < n"
  shows "collect n it = filter (inRange it) (entries (it_root it))"
proof -
  let ?it = "it\<lparr>it_isNew := False\<rparr>" and ?es = "entries (it_root it)"
  let ?rest = "filter (\<lambda>e. start \<le> fst e) ?es"
  obtain it' where it': "Iterator_seek start True True ?it = limitIterator it'"
      "starts (it_root it) ?rest (position it')" "it' = ?it\<lparr>it_node := it_node it', it_parents := it_parents it'\<rparr>"
    using seek_forward [of ?it start True] o dropWhile_filter [OF o] by auto
  then have st: "stands it' ?rest" and keys: "it_startKey it' = Some start" "it_limitKey it' = it_limitKey it"
    using o new start by (metis (no_types, lifting) stands_def Iterator.select_convs Iterator.simps Iterator.surjective)+
  have "Iterator_First it = limitIterator it'" using it'(1) start by (simp add: Iterator_First_def)
  moreover have "length ?rest < n" using n le_less_trans [OF length_filter_le] by blast
  ultimately have c: "collect n it = takeWhile (inRange it') ?rest"
    using collect_first [OF _ new(1) st] by blast
  have "takeWhile (inRange it') ?rest = filter (inRange it) ?es"
  proof (cases "it_limitKey it")
    case None
    have "takeWhile (inRange it') ?rest = ?rest" using keys None by (auto simp: takeWhile_eq_all_conv inRange_def)
    also have "?rest = filter (inRange it) ?es" using start None by (intro filter_cong) (simp_all add: inRange_def)
    finally show ?thesis .
  next
    case (Some l)
    have "takeWhile (inRange it') ?rest = takeWhile (\<lambda>e. fst e < l) ?rest"
      using keys Some by (intro takeWhile_cong) (auto simp: inRange_def)
    also have "\<dots> = filter (\<lambda>e. fst e < l) ?rest"
      using takeWhile_filter ordered_filter o by blast
    also have "\<dots> = filter (inRange it) ?es"
      using start Some unfolding filter_filter by (intro filter_cong) (auto simp: inRange_def)
    finally show ?thesis .
  qed
  with c show ?thesis by simp
qed

lemma iterate_all:
  assumes o: "ordered (entries (it_root it))" and new: "it_isNew it" "it_seekKey it = None" "it_node it = Nil"
    and keys: "it_startKey it = None" "it_limitKey it = None" and n: "length (entries (it_root it)) < n"
  shows "collect n it = entries (it_root it)"
proof -
  let ?c = "leftmost (it_root it) []"
  let ?it = "it\<lparr>it_isNew := False, it_node := fst ?c, it_parents := snd ?c\<rparr>"
  have "starts (it_root it) (entries (it_root it)) ?c"
    using leftmost_starts [of "it_root it" "[]"] by (cases "it_root it = Nil") (simp_all add: starts_def)
  then have st: "stands ?it (entries (it_root it))" using o new by (simp add: stands_def position_def)
  moreover have "Iterator_First it = limitIterator ?it"
    using keys new(3)
    by (auto simp: Iterator_First_def limitIterator_def Let_def split: prod.splits treapNode.splits)
  ultimately have "collect n it = takeWhile (inRange ?it) (entries (it_root it))"
    using collect_first new(1) n by blast
  then show ?thesis using keys by (simp add: takeWhile_eq_all_conv inRange_def)
qed

text \<open>
  After the treap has changed: \<^verbatim>\<open>ForceReseek\<close> makes the next step go to the first key, in the new
  treap, above the one the iterator stands at.
\<close>

lemma reseek_next:
  assumes "stands it (e # es)" and "it_mutable it" and o: "ordered (entries (root t))"
  shows "\<exists>it'. Iterator_Next (Iterator_ForceReseek t it) = limitIterator it' \<and>
    stands it' (dropWhile (passed False (fst e)) (entries (root t)))"
proof -
  have n: "it_node it \<noteq> Nil" "node_key (it_node it) = fst e" "\<not> it_isNew it"
    using assms(1) by (auto simp: stands_def starts_def position_def entry_def)
  let ?it = "it\<lparr>it_root := root t, it_seekKey := None\<rparr>"
  obtain it' where it': "Iterator_seek (fst e) False True ?it = limitIterator it'"
      "starts (root t) (dropWhile (passed False (fst e)) (entries (root t))) (position it')"
      "it' = ?it\<lparr>it_node := it_node it', it_parents := it_parents it'\<rparr>"
    using seek_forward [of ?it "fst e" False] o by auto
  then have "stands it' (dropWhile (passed False (fst e)) (entries (root t)))"
    using o n by (metis (no_types, lifting) stands_def Iterator.select_convs Iterator.simps Iterator.surjective)
  moreover have "Iterator_Next (Iterator_ForceReseek t it) = Iterator_seek (fst e) False True ?it"
    using assms(2) n by (simp add: Iterator_Next_def Iterator_ForceReseek_def Let_def)
  ultimately show ?thesis using it'(1) by auto
qed

text \<open>
  C40. Iterating over a treap: whatever operations built it, Next returns, from a start key on, exactly
  the entries of the range in ascending order, and without a range all entries. With a limit but no
  start key the first entry is returned even when it is beyond the limit.
\<close>

theorem treap_iterator_range:
  "collect (Suc (length (entries (root (fold (apply_op Mutable_Put Mutable_Delete) ops NewMutable)))))
     (Mutable_Iterator (Some start) limit (fold (apply_op Mutable_Put Mutable_Delete) ops NewMutable)) =
     filter (\<lambda>e. start \<le> fst e \<and> (case limit of None \<Rightarrow> True | Some l \<Rightarrow> fst e < l))
       (entries (root (fold (apply_op Mutable_Put Mutable_Delete) ops NewMutable))) \<and>
   collect (Suc (length (entries (root (fold (apply_op Mutable_Put Mutable_Delete) ops NewMutable)))))
     (Mutable_Iterator None None (fold (apply_op Mutable_Put Mutable_Delete) ops NewMutable)) =
     entries (root (fold (apply_op Mutable_Put Mutable_Delete) ops NewMutable)) \<and>
   collect 1 (Mutable_Iterator None (Some [1]) (Mutable_Put 0 [2] None NewMutable)) = [([2], [])]"
proof -
  let ?t = "fold (apply_op Mutable_Put Mutable_Delete) ops NewMutable"
  have o: "ordered (entries (root ?t))" using mut.run_content [of ops] by (simp add: ordered_def)
  have "collect (Suc (length (entries (root ?t)))) (Mutable_Iterator (Some start) limit ?t) =
      filter (inRange (Mutable_Iterator (Some start) limit ?t)) (entries (root ?t))"
    using iterate_from [of "Mutable_Iterator (Some start) limit ?t" start "Suc (length (entries (root ?t)))"] o
    by (simp add: Mutable_Iterator_def del: collect.simps)
  moreover have "collect (Suc (length (entries (root ?t)))) (Mutable_Iterator None None ?t) = entries (root ?t)"
    using iterate_all [of "Mutable_Iterator None None ?t" "Suc (length (entries (root ?t)))"] o
    by (simp add: Mutable_Iterator_def del: collect.simps)
  moreover have "collect 1 (Mutable_Iterator None (Some [1]) (Mutable_Put 0 [2] None NewMutable)) = [([2], [])]"
    by (simp add: Mutable_Iterator_def Mutable_Put_def NewMutable_def newTreapNode_def emptied_def Iterator_Next_def
        Iterator_First_def entry_def Let_def)
  moreover have "inRange (Mutable_Iterator (Some start) limit ?t) =
      (\<lambda>e. start \<le> fst e \<and> (case limit of None \<Rightarrow> True | Some l \<Rightarrow> fst e < l))"
    by (simp add: inRange_def [abs_def] Mutable_Iterator_def)
  ultimately show ?thesis by (simp only:)
qed

end
