(* ===== verification/Signature.thy ===== *)
theory Signature
  imports Contract Transaction "HOL-Library.List_Lexorder"
begin

section \<open>Signatures of a transaction: blockchain/validation.go, crypto\<close>

text \<open>
  How the programs of a transaction are checked: \<^verbatim>\<open>RunPrograms\<close> with the checks of a standard, a
  multi signature and a cross chain program, \<^verbatim>\<open>crypto.Verify\<close> and \<^verbatim>\<open>crypto.AppendSignature\<close>, and
  \<^verbatim>\<open>checkTransactionSignature\<close> of the transaction validator, which collects the program hashes of the
  outputs a transaction spends and runs its programs on them.

  A check returns its error (\<open>None\<close> for nil) and may panic. The elliptic curve signature check, the digests
  and the sorting are library code, and parameters; so is the order in which maps are ranged over.
\<close>

record Crypto =
  ecdsaVerify :: "PublicKey \<Rightarrow> bytes \<Rightarrow> int \<Rightarrow> int \<Rightarrow> bool"
  sha256 :: "bytes \<Rightarrow> bytes"
  ripemd160sha256 :: "bytes \<Rightarrow> bytes"

type_synonym check = "string option res"

subsection \<open>Checks\<close>

definition Verify :: "Crypto \<Rightarrow> PublicKey \<Rightarrow> bytes \<Rightarrow> bytes \<Rightarrow> string option" where
  "Verify cr publicKey data signature =
     (if length signature \<noteq> 64 then Some ''Unknown signature length''
      else let r = beVal (take 32 signature); s = beVal (drop 32 signature); digest = sha256 cr data in
           if \<not> ecdsaVerify cr publicKey digest r s then Some ''[Validation], Verify failed.'' else None)"

definition checkStandardSignature :: "Crypto \<Rightarrow> Program \<Rightarrow> bytes \<Rightarrow> check" where
  "checkStandardSignature cr program data =
     (if length (prog_Parameter program) \<noteq> 65 then Inr (Some ''invalid signature length'')
      else if length (prog_Code program) < 2 then Inl IndexOutOfRange
      else case DecodePoint (drop 1 (butlast (prog_Code program))) of
             Inl err \<Rightarrow> Inr (Some err)
           | Inr publicKey \<Rightarrow> Inr (Verify cr publicKey data (drop 1 (prog_Parameter program))))"

text \<open>The inner loop: the first key that matches the signature is marked by its digest.\<close>

fun matchSignature :: "Crypto \<Rightarrow> bytes \<Rightarrow> bytes \<Rightarrow> bytes list \<Rightarrow> bytes set \<Rightarrow> string + bytes set" where
  "matchSignature cr data sign [] verified = Inr verified"
| "matchSignature cr data sign (publicKey # publicKeys) verified =
     (case DecodePoint (drop 1 publicKey) of
        Inl err \<Rightarrow> Inl err
      | Inr pubKey \<Rightarrow>
          (if Verify cr pubKey data sign = None
           then (let hash = sha256 cr publicKey in
                 if hash \<in> verified then Inl ''duplicated signatures'' else Inr (insert hash verified))
           else matchSignature cr data sign publicKeys verified))"

text \<open>The signatures, 65 bytes each, without their length byte.\<close>

function signatureList :: "bytes \<Rightarrow> bytes list" where
  "signatureList signatures =
     (if signatures = [] then [] else drop 1 (take 65 signatures) # signatureList (drop 65 signatures))"
  by auto
termination by (relation "measure length") auto

declare signatureList.simps [simp del]

definition verifyMultisigSignatures ::
  "Crypto \<Rightarrow> int \<Rightarrow> int \<Rightarrow> bytes list \<Rightarrow> bytes \<Rightarrow> bytes \<Rightarrow> string option" where
  "verifyMultisigSignatures cr m n publicKeys signatures data =
     (if int (length publicKeys) \<noteq> n then Some ''invalid multi sign public key script count''
      else if length signatures mod 65 \<noteq> 0 then Some ''invalid multi sign signatures, length not match''
      else if int (length signatures div 65) < m then Some ''invalid signatures, not enough signatures''
      else if int (length signatures div 65) > n then Some ''invalid signatures, too many signatures''
      else case foldR (\<lambda>sign. matchSignature cr data sign publicKeys) (signatureList signatures) {} of
             Inl err \<Rightarrow> Some err
           | Inr verified \<Rightarrow>
               (if int (card verified) < m then Some ''matched signatures not enough'' else None))"

text \<open>The counts of a script: the bytes before the last one and at the front, less \<^verbatim>\<open>PUSH1\<close>, plus one.\<close>

definition scriptCounts :: "bytes \<Rightarrow> (int \<times> int) res" where
  "scriptCounts code =
     (if length code < 2 then Inl IndexOutOfRange
      else Inr (uint (code ! 0) - uint PUSH1 + 1, uint (code ! (length code - 2)) - uint PUSH1 + 1))"

definition checkMultiSigSignatures :: "Crypto \<Rightarrow> Program \<Rightarrow> bytes \<Rightarrow> check" where
  "checkMultiSigSignatures cr program data =
     bindR (scriptCounts (prog_Code program)) (\<lambda>(m, n).
       if m < 1 \<or> m > n then Inr (Some ''invalid multi sign script code'')
       else case ParseMultisigScript (prog_Code program) of
              Inl err \<Rightarrow> Inr (Some err)
            | Inr publicKeys \<Rightarrow> Inr (verifyMultisigSignatures cr m n publicKeys (prog_Parameter program) data))"

text \<open>The counts of cross chain arbiters come from \<^verbatim>\<open>DefaultLedger.Arbitrators\<close>.\<close>

record CrossChainCounts =
  GetCrossChainArbitersCount :: int
  GetCrossChainArbitersMajorityCount :: int

definition checkCrossChainSignatures :: "Crypto \<Rightarrow> CrossChainCounts \<Rightarrow> Program \<Rightarrow> bytes \<Rightarrow> check" where
  "checkCrossChainSignatures cr counts program data =
     bindR (scriptCounts (prog_Code program)) (\<lambda>(m, n).
       if m < 1 \<or> m > n \<or> n \<noteq> GetCrossChainArbitersCount counts \<or>
          m \<le> GetCrossChainArbitersMajorityCount counts
       then Inr (Some ''invalid multi sign script code'')
       else case ParseCrossChainScript (prog_Code program) of
              Inl err \<Rightarrow> Inr (Some err)
            | Inr publicKeys \<Rightarrow> Inr (verifyMultisigSignatures cr m n publicKeys (prog_Parameter program) data))"

definition runProgram :: "Crypto \<Rightarrow> CrossChainCounts \<Rightarrow> bytes \<Rightarrow> Uint168 \<Rightarrow> Program \<Rightarrow> check" where
  "runProgram cr counts data programHash program =
     (let prefixType = GetPrefixType programHash in
      if prefixType = PrefixCrossChain then checkCrossChainSignatures cr counts program data
      else if Uint168_ToCodeHash programHash \<noteq> ToCodeHash (ripemd160sha256 cr) (prog_Code program)
      then Inr (Some ''the data hashes is different with corresponding program code'')
      else if prefixType = PrefixStandard \<or> prefixType = PrefixDeposit then checkStandardSignature cr program data
      else if prefixType = PrefixMultiSig then checkMultiSigSignatures cr program data
      else Inr (Some ''unknown signature type''))"

fun runLoop :: "Crypto \<Rightarrow> CrossChainCounts \<Rightarrow> bytes \<Rightarrow> (Uint168 \<times> Program) list \<Rightarrow> check" where
  "runLoop cr counts data [] = Inr None"
| "runLoop cr counts data ((programHash, program) # rest) =
     bindR (runProgram cr counts data programHash program) (\<lambda>err.
       case err of Some e \<Rightarrow> Inr (Some e) | None \<Rightarrow> runLoop cr counts data rest)"

definition RunPrograms :: "Crypto \<Rightarrow> CrossChainCounts \<Rightarrow> bytes \<Rightarrow> Uint168 list \<Rightarrow> Program list \<Rightarrow> check" where
  "RunPrograms cr counts data programHashes programs =
     (if length programHashes \<noteq> length programs
      then Inr (Some ''the number of data hashes is different with number of programs'')
      else runLoop cr counts data (zip programHashes programs))"

subsection \<open>The signatures of a transaction\<close>

definition Uint168FromBytes :: "bytes \<Rightarrow> string + Uint168" where
  "Uint168FromBytes b = (if length b \<noteq> 21 then Inl ''[Uint168FromBytes] error, len != 21'' else Inr b)"

definition scriptHash :: "Attribute \<Rightarrow> Uint168 list \<Rightarrow> string + Uint168 list" where
  "scriptHash attribute hashes =
     (if attr_Usage attribute = Script
      then case Uint168FromBytes (attr_Data attribute) of
             Inl _ \<Rightarrow> Inl ''[Transaction], GetProgramHashes err''
           | Inr dataHash \<Rightarrow> Inr (hashes @ [dataHash])
      else Inr hashes)"

text \<open>
  \<open>references\<close> maps the position of an input to the output it spends; \<open>ordI\<close> and \<open>ordH\<close> are the orders
  in which the map of references and the set of hashes are ranged over.
\<close>

definition GetTxProgramHashes ::
  "(nat set \<Rightarrow> nat list) \<Rightarrow> (Uint168 set \<Rightarrow> Uint168 list) \<Rightarrow> Transaction \<Rightarrow> (nat \<rightharpoonup> Output) \<Rightarrow>
   string + Uint168 list" where
  "GetTxProgramHashes ordI ordH tx references =
     bindR (foldR scriptHash (tx_Attributes tx)
       (map (\<lambda>i. out_ProgramHash (the (references i))) (ordI (dom references))))
       (\<lambda>hashes. Inr (ordH (set hashes)))"

record Sorting =
  SortProgramHashByCodeHash :: "Uint168 list \<Rightarrow> Uint168 list"
  SortPrograms :: "Program list \<Rightarrow> Program list"

definition checkTransactionSignature ::
  "Crypto \<Rightarrow> CrossChainCounts \<Rightarrow> Sorting \<Rightarrow> (nat set \<Rightarrow> nat list) \<Rightarrow> (Uint168 set \<Rightarrow> Uint168 list) \<Rightarrow>
   Transaction \<Rightarrow> (nat \<rightharpoonup> Output) \<Rightarrow> check" where
  "checkTransactionSignature cr counts srt ordI ordH tx references =
     (let programHashes = GetTxProgramHashes ordI ordH tx references in
      if tx_TxType tx = TxType_CRCProposalWithdraw then Inr None
      else case programHashes of
             Inl err \<Rightarrow> Inr (Some err)
           | Inr hashes \<Rightarrow>
               (case Transaction_SerializeUnsigned tx of
                  (data, Some WNilDereference) \<Rightarrow> Inl NilDereference
                | (data, _) \<Rightarrow> RunPrograms cr counts data (SortProgramHashByCodeHash srt hashes)
                    (SortPrograms srt (tx_Programs tx))))"

subsection \<open>Adding a signature\<close>

fun alreadySigned :: "Crypto \<Rightarrow> bytes \<Rightarrow> bytes list \<Rightarrow> nat \<Rightarrow> bytes list \<Rightarrow> (string option) res" where
  "alreadySigned cr data publicKeys signerIndex [] = Inr None"
| "alreadySigned cr data publicKeys signerIndex (sign # rest) =
     (if signerIndex \<ge> length publicKeys then Inl IndexOutOfRange
      else case DecodePoint (drop 1 (publicKeys ! signerIndex)) of
             Inl err \<Rightarrow> Inr (Some err)
           | Inr pubKey \<Rightarrow>
               (if Verify cr pubKey data sign = None then Inr (Some ''signer already signed'')
                else alreadySigned cr data publicKeys signerIndex rest))"

text \<open>
  \<open>param\<close> is \<open>None\<close> for nil. A parameter that is not a sequence of whole signatures panics in the
  slice behind its last whole signature.
\<close>

definition AppendSignature ::
  "Crypto \<Rightarrow> nat \<Rightarrow> bytes \<Rightarrow> bytes \<Rightarrow> bytes \<Rightarrow> bytes option \<Rightarrow> (string + bytes) res" where
  "AppendSignature cr signerIndex signature data code param =
     (let signed = (case param of None \<Rightarrow> [] | Some p \<Rightarrow> p) @ [word_of_nat (length signature)] @ signature in
      case param of
        None \<Rightarrow> Inr (Inr signed)
      | Some p \<Rightarrow>
          (case ParseMultisigScript code of
             Inl err \<Rightarrow> Inr (Inl err)
           | Inr publicKeys \<Rightarrow>
               bindR (alreadySigned cr data publicKeys signerIndex (signatureList (take (65 * (length p div 65)) p)))
                 (\<lambda>err. case err of
                    Some e \<Rightarrow> Inr (Inl e)
                  | None \<Rightarrow> if length p mod 65 \<noteq> 0 then Inl IndexOutOfRange else Inr (Inr signed))))"

subsection \<open>The threshold of a multi signature\<close>

text \<open>\<open>signedBy cr data sigs k\<close>: the key of the script \<open>k\<close> verifies one of the signatures.\<close>

definition signedBy :: "Crypto \<Rightarrow> bytes \<Rightarrow> bytes list \<Rightarrow> bytes \<Rightarrow> bool" where
  "signedBy cr data sigs k \<longleftrightarrow> (\<exists>pk sign. DecodePoint (drop 1 k) = Inr pk \<and> sign \<in> set sigs \<and> Verify cr pk data sign = None)"

lemma matchSignature_verified:
  assumes "matchSignature cr data sign ks V = Inr W"
  shows "W = V \<or> (\<exists>k \<in> set ks. signedBy cr data [sign] k \<and> sha256 cr k \<notin> V \<and> W = insert (sha256 cr k) V)"
  using assms
  by (induction ks) (auto simp: signedBy_def Let_def split: sum.splits if_splits)

lemma matchAll_verified:
  assumes "foldR (\<lambda>sign. matchSignature cr data sign ks) sigs V = Inr W" and "V \<subseteq> sha256 cr ` {k \<in> set ks. signedBy cr data base k}"
  shows "W \<subseteq> sha256 cr ` {k \<in> set ks. signedBy cr data (base @ sigs) k}"
  using assms
proof (induction sigs arbitrary: V base)
  case Nil
  then show ?case by simp
next
  case (Cons sign sigs)
  then obtain U where U: "matchSignature cr data sign ks V = Inr U"
    and W: "foldR (\<lambda>sign. matchSignature cr data sign ks) sigs U = Inr W" by auto
  let ?K = "\<lambda>sigs. {k \<in> set ks. signedBy cr data sigs k}"
  have "?K base \<subseteq> ?K (base @ [sign])" "?K [sign] \<subseteq> ?K (base @ [sign])"
    by (auto simp: signedBy_def)
  moreover have "U \<subseteq> V \<union> sha256 cr ` ?K [sign]"
    using matchSignature_verified [OF U] by blast
  ultimately have "U \<subseteq> sha256 cr ` ?K (base @ [sign])"
    using Cons.prems(2) by blast
  from Cons.IH [OF W this] show ?case by simp
qed

text \<open>
  C17. A multi signature needs \<open>m\<close> signers: when the signatures are accepted, at least \<open>m\<close> different
  public keys of the script verify one of them.
\<close>

theorem multisig_threshold:
  assumes "verifyMultisigSignatures cr m n publicKeys signatures data = None"
  shows "m \<le> int (card {k \<in> set publicKeys. signedBy cr data (signatureList signatures) k})"
proof -
  let ?S = "{k \<in> set publicKeys. signedBy cr data (signatureList signatures) k}"
  obtain W where W: "foldR (\<lambda>sign. matchSignature cr data sign publicKeys) (signatureList signatures) {} = Inr W"
    and m: "m \<le> int (card W)"
    using assms by (auto simp: verifyMultisigSignatures_def split: if_splits sum.splits)
  have "W \<subseteq> sha256 cr ` ?S"
    using matchAll_verified [OF W, of "[]"] by simp
  then have "card W \<le> card (sha256 cr ` ?S)" by (intro card_mono) simp_all
  also have "\<dots> \<le> card ?S" by (intro card_image_le) simp
  finally show ?thesis using m by simp
qed

text \<open>A signature check that accepts everything, and digests, to run the checks with.\<close>

definition sampleCrypto :: Crypto where
  "sampleCrypto = \<lparr>ecdsaVerify = \<lambda>_ _ _ _. True, sha256 = id, ripemd160sha256 = \<lambda>_. replicate 20 7\<rparr>"

lemma sample_matches:
  "verifyMultisigSignatures sampleCrypto 1 1 [33 # samplePoint] (replicate 65 0) data = None"
proof -
  have "signatureList (replicate 65 0) = [replicate 64 0]"
    by (simp add: signatureList.simps drop_replicate take_replicate)
  then show ?thesis
    by (simp add: verifyMultisigSignatures_def decode_samplePoint Verify_def sampleCrypto_def)
qed

theorem multisig_threshold_witness:
  "1 \<le> int (card {k \<in> set [33 # samplePoint]. signedBy sampleCrypto [5] (signatureList (replicate 65 0)) k})"
  using multisig_threshold [OF sample_matches] .

subsection \<open>Spending needs the owner's signature\<close>

lemma runLoop_accepts:
  "runLoop cr counts data ps = Inr None \<Longrightarrow> (h, p) \<in> set ps \<Longrightarrow> runProgram cr counts data h p = Inr None"
proof (induction ps)
  case (Cons x ps)
  then show ?case by (cases x) (auto split: option.splits)
qed simp

lemma scriptHashes_keep:
  "foldR scriptHash as hs = Inr hs' \<Longrightarrow> set hs \<subseteq> set hs'"
  by (erule foldR_invariant [where P = "\<lambda>x. set hs \<subseteq> set x"])
    (auto simp: scriptHash_def split: if_splits sum.splits)

lemma spent_hash_listed:
  assumes "ranges ordI" and "ranges ordH" and "finite (dom references)" and "references i = Some out"
    and "GetTxProgramHashes ordI ordH tx references = Inr hs"
  shows "out_ProgramHash out \<in> set hs"
proof -
  let ?base = "map (\<lambda>i. out_ProgramHash (the (references i))) (ordI (dom references))"
  obtain hs' where f: "foldR scriptHash (tx_Attributes tx) ?base = Inr hs'" and hs: "hs = ordH (set hs')"
    using assms(5) by (auto simp: GetTxProgramHashes_def)
  have "i \<in> set (ordI (dom references))" using assms by auto
  then have "out_ProgramHash out \<in> set ?base" using assms(4) by force
  with scriptHashes_keep [OF f] show ?thesis using hs assms(2) by auto
qed

lemma standard_program_verified:
  assumes "checkStandardSignature cr p data = Inr None"
  obtains pk where "DecodePoint (drop 1 (butlast (prog_Code p))) = Inr pk"
    and "Verify cr pk data (drop 1 (prog_Parameter p)) = None"
  using assms by (auto simp: checkStandardSignature_def split: if_splits sum.splits)

text \<open>
  Spending needs the owner's signature: when the signatures of a transaction are accepted (and it
  is not a withdrawal of a CRC proposal, which carries none), then for every output it spends that is
  owned by a standard or deposit address, the transaction has a program whose code has the hash in the
  address, and whose parameter is a signature of the unsigned transaction by the key in the code.
\<close>

lemma spending_needs_signature:
  assumes "checkTransactionSignature cr counts srt ordI ordH tx references = Inr None"
    and "tx_TxType tx \<noteq> TxType_CRCProposalWithdraw"
    and "ranges ordI" and "ranges ordH" and "finite (dom references)"
    and "\<forall>hs. set (SortProgramHashByCodeHash srt hs) = set hs" and "\<forall>ps. set (SortPrograms srt ps) = set ps"
    and "references i = Some out"
    and "GetPrefixType (out_ProgramHash out) \<in> {PrefixStandard, PrefixDeposit}"
  shows "\<exists>p \<in> set (tx_Programs tx). \<exists>pk.
    ToCodeHash (ripemd160sha256 cr) (prog_Code p) = Uint168_ToCodeHash (out_ProgramHash out) \<and>
    DecodePoint (drop 1 (butlast (prog_Code p))) = Inr pk \<and>
    Verify cr pk (fst (Transaction_SerializeUnsigned tx)) (drop 1 (prog_Parameter p)) = None"
proof -
  let ?data = "fst (Transaction_SerializeUnsigned tx)" and ?h = "out_ProgramHash out"
  obtain hs where hs: "GetTxProgramHashes ordI ordH tx references = Inr hs"
    and run: "RunPrograms cr counts ?data (SortProgramHashByCodeHash srt hs) (SortPrograms srt (tx_Programs tx)) = Inr None"
    using assms(1,2) by (auto simp: checkTransactionSignature_def Let_def
        split: sum.splits prod.splits option.splits write_error.splits)
  have len: "length (SortProgramHashByCodeHash srt hs) = length (SortPrograms srt (tx_Programs tx))"
    and loop: "runLoop cr counts ?data (zip (SortProgramHashByCodeHash srt hs) (SortPrograms srt (tx_Programs tx))) = Inr None"
    using run by (auto simp: RunPrograms_def split: if_splits)
  have "?h \<in> set (SortProgramHashByCodeHash srt hs)"
    using spent_hash_listed [OF assms(3-5,8) hs] assms(6) by simp
  then obtain p where p: "(?h, p) \<in> set (zip (SortProgramHashByCodeHash srt hs) (SortPrograms srt (tx_Programs tx)))"
    using len by (metis in_set_impl_in_set_zip1)
  have "p \<in> set (tx_Programs tx)" using set_zip_rightD [OF p] assms(7) by simp
  moreover have "runProgram cr counts ?data ?h p = Inr None" using runLoop_accepts [OF loop p] .
  then have "Uint168_ToCodeHash ?h = ToCodeHash (ripemd160sha256 cr) (prog_Code p)"
    and "checkStandardSignature cr p ?data = Inr None"
    using assms(9) by (auto simp: runProgram_def Let_def split: if_splits)
  ultimately show ?thesis by (metis standard_program_verified)
qed

definition sampleSpend :: Transaction where
  "sampleSpend = sampleTx\<lparr>tx_Programs :=
     [\<lparr>prog_Code = 33 # samplePoint @ [CHECKSIG], prog_Parameter = replicate 65 0\<rparr>]\<rparr>"

definition sampleOutput :: Output where
  "sampleOutput = \<lparr>out_AssetID = replicate 32 3, out_Value = 100, out_OutputLock = 0,
     out_ProgramHash = PrefixStandard # replicate 20 7, out_Type = OTNone, out_Payload = Some ODefaultOutput\<rparr>"

lemma sampleSpend_writes: "snd (Transaction_SerializeUnsigned sampleSpend) = None"
proof -
  have "Transaction_SerializeUnsigned sampleSpend = Transaction_SerializeUnsigned sampleTx"
    by (simp add: sampleSpend_def Transaction_SerializeUnsigned_def cong: option.case_cong)
  then show ?thesis using writes_SerializeUnsigned [OF sampleTx_wf] by (auto elim: writesE)
qed

lemma sampleSpend_accepted:
  "checkTransactionSignature sampleCrypto \<lparr>GetCrossChainArbitersCount = 12, GetCrossChainArbitersMajorityCount = 8\<rparr>
     \<lparr>SortProgramHashByCodeHash = id, SortPrograms = id\<rparr> sorted_list_of_set sorted_list_of_set sampleSpend
     [0 \<mapsto> sampleOutput] = Inr None"
proof -
  have "GetTxProgramHashes sorted_list_of_set sorted_list_of_set sampleSpend [0 \<mapsto> sampleOutput] =
      Inr [PrefixStandard # replicate 20 7]"
    by (simp add: GetTxProgramHashes_def sampleSpend_def sampleTx_def scriptHash_def sampleOutput_def)
  moreover have "checkStandardSignature sampleCrypto
      \<lparr>prog_Code = 33 # samplePoint @ [CHECKSIG], prog_Parameter = replicate 65 0\<rparr> data = Inr None" for data
    by (simp add: checkStandardSignature_def butlast_append decode_samplePoint Verify_def sampleCrypto_def)
  moreover have "tx_Programs sampleSpend =
      [\<lparr>prog_Code = 33 # samplePoint @ [CHECKSIG], prog_Parameter = replicate 65 0\<rparr>]"
    and "tx_TxType sampleSpend = TxType_TransferAsset"
    by (simp_all add: sampleSpend_def sampleTx_def)
  moreover have "ToCodeHash (ripemd160sha256 sampleCrypto) code = Uint168_ToCodeHash (PrefixStandard # replicate 20 7)" for code
    by (simp add: ToCodeHash_def Uint168_ToCodeHash_def intoArray_def sampleCrypto_def)
  moreover obtain data where "Transaction_SerializeUnsigned sampleSpend = (data, None)"
    using sampleSpend_writes by (metis prod.collapse)
  ultimately show ?thesis
    by (simp add: checkTransactionSignature_def RunPrograms_def runProgram_def GetPrefixType_def)
qed

end
