(* ===== verification/TxCheck.thy ===== *)
theory TxCheck
  imports Signature Doubles "HOL-Library.Signed_Division"
begin

section \<open>The checks of a transaction: blockchain/txvalidator.go\<close>

text \<open>
  \<^verbatim>\<open>CheckTransactionSanity\<close>, the checks that need nothing but the transaction and the height, with all it
  calls; and of the checks against the chain the ones on the outputs a transaction spends: locks, deposits,
  the destruction address, coinbase maturity and the fee. The fee of a transaction is what its inputs are
  worth more than its outputs, in \<^verbatim>\<open>Fixed64\<close>, a signed 64-bit integer that wraps around.

  The base58 package is a parameter (\<open>Base58\<close>), as the digests are (\<open>Crypto\<close>). \<open>references\<close> maps the position
  of an input to the output it spends, as in the theory Signature. A program whose code or parameter is nil
  is not told from one where it is empty; a program that was read from the wire has neither nil.
\<close>

subsection \<open>Running checks\<close>

definition andThen :: "'e option res \<Rightarrow> 'e option res \<Rightarrow> 'e option res" where
  "andThen c d = bindR c (\<lambda>e. case e of None \<Rightarrow> d | Some msg \<Rightarrow> Inr (Some msg))"

definition require :: "bool \<Rightarrow> 'e \<Rightarrow> 'e option res" where
  "require b msg = Inr (if b then None else Some msg)"

fun checkEach :: "('a \<Rightarrow> 'e option res) \<Rightarrow> 'a list \<Rightarrow> 'e option res" where
  "checkEach f [] = Inr None"
| "checkEach f (x # xs) = andThen (f x) (checkEach f xs)"

text \<open>Entering keys into a set until one is met again.\<close>

fun markAll :: "'e \<Rightarrow> 'k list \<Rightarrow> 'k set \<Rightarrow> 'e + 'k set" where
  "markAll msg [] seen = Inr seen"
| "markAll msg (k # ks) seen = (if k \<in> seen then Inl msg else markAll msg ks (insert k seen))"

definition checkDistinct :: "'e \<Rightarrow> 'k list \<Rightarrow> 'e option res" where
  "checkDistinct msg ks = (case markAll msg ks {} of Inl msg \<Rightarrow> Inr (Some msg) | Inr _ \<Rightarrow> Inr None)"

lemma andThen_ok [simp]: "andThen c d = Inr None \<longleftrightarrow> c = Inr None \<and> d = Inr None"
  by (cases c) (auto simp: andThen_def split: option.splits)

lemma require_ok [simp]: "require b msg = Inr None \<longleftrightarrow> b"
  by (simp add: require_def)

lemma checkEach_ok [simp]: "checkEach f xs = Inr None \<longleftrightarrow> (\<forall>x \<in> set xs. f x = Inr None)"
  by (induction xs) auto

lemma markAll_Inr: "markAll msg ks seen = Inr seen' \<longleftrightarrow> distinct ks \<and> set ks \<inter> seen = {} \<and> seen' = seen \<union> set ks"
  by (induction ks arbitrary: seen) auto

lemma checkDistinct_ok [simp]: "checkDistinct msg ks = Inr None \<longleftrightarrow> distinct ks"
  using markAll_Inr [of msg ks "{}" "set ks"] markAll_Inr [of msg ks "{}"]
  by (cases "markAll msg ks {}") (auto simp: checkDistinct_def)

subsection \<open>Addresses: common/uint168.go\<close>

record Base58 =
  base58Encode :: "string \<Rightarrow> string + string"
  base58Decode :: "string \<Rightarrow> string + string"

definition Sha256D :: "Crypto \<Rightarrow> bytes \<Rightarrow> Uint256" where
  "Sha256D cr data = sha256 cr (sha256 cr data)"

fun decimal :: "nat \<Rightarrow> string" where
  "decimal n = (if n < 10 then [char_of (48 + n)] else decimal (n div 10) @ [char_of (48 + n mod 10)])"

declare decimal.simps [simp del]

fun digits :: "string \<Rightarrow> nat \<Rightarrow> nat option" where
  "digits [] n = Some n"
| "digits (c # cs) n =
     (let d = of_char c :: nat in if 48 \<le> d \<and> d \<le> 57 then digits cs (n * 10 + (d - 48)) else None)"

text \<open>\<^verbatim>\<open>SetString\<close> of \<^verbatim>\<open>math/big\<close> in base ten, up to the sign, which \<^verbatim>\<open>Bytes\<close> drops.\<close>

definition SetString :: "string \<Rightarrow> nat option" where
  "SetString s =
     (let ds = (case s of c # cs \<Rightarrow> if c = CHR ''-'' \<or> c = CHR ''+'' then cs else s | [] \<Rightarrow> s) in
      if ds = [] then None else digits ds 0)"

definition Uint168_ToAddress :: "Base58 \<Rightarrow> Crypto \<Rightarrow> Uint168 \<Rightarrow> string + string" where
  "Uint168_ToAddress b58 cr u =
     (let checksum = Sha256D cr u; data = u @ take 4 checksum in base58Encode b58 (decimal (beNat data)))"

definition Uint168FromAddress :: "Base58 \<Rightarrow> Crypto \<Rightarrow> string \<Rightarrow> (string + Uint168) res" where
  "Uint168FromAddress b58 cr address =
     (if length address \<noteq> 34 then Inr (Inl ''[Uint168FromAddress] error, len != 34'')
      else case base58Decode b58 address of
        Inl err \<Rightarrow> Inr (Inl err)
      | Inr decoded \<Rightarrow>
          (case SetString decoded of
             None \<Rightarrow> Inl NilDereference
           | Some x \<Rightarrow>
               if length (natBytes x) < 21 then Inl IndexOutOfRange
               else case Uint168FromBytes (take 21 (natBytes x)) of
                 Inl err \<Rightarrow> Inr (Inl err)
               | Inr programHash \<Rightarrow>
                   (case Uint168_ToAddress b58 cr programHash of
                      Inl err \<Rightarrow> Inr (Inl err)
                    | Inr addr \<Rightarrow>
                        if addr \<noteq> address then Inr (Inl ''[Uint168FromAddress]: decode address verify failed.'')
                        else Inr (Inr programHash))))"

subsection \<open>The chain: common/config/params.go\<close>

text \<open>The parameters of a network that the checks use, and the asset of the coin.\<close>

record ChainParams =
  cp_Foundation :: Uint168
  cp_CRCFoundation :: Uint168
  cp_CRCCommitteeAddress :: Uint168
  cp_RewardPerBlock :: Fixed64
  cp_CoinbaseMaturity :: u32
  cp_MinTransactionFee :: Fixed64
  cp_PublicDPOSHeight :: u32
  cp_CRVotingStartHeight :: u32
  cp_CRCommitteeStartHeight :: u32
  cp_CheckRewardHeight :: u32
  cp_RegisterCRByDIDHeight :: u32
  cp_CheckVoteCRCountHeight :: u32

definition mainNetFoundation :: Uint168 where
  "mainNetFoundation =
     [0x12, 0x9e, 0x9c, 0xf1, 0xc5, 0xf3, 0x36, 0xfc, 0xf3, 0xa6, 0xc9, 0x54, 0x44, 0x4e,
      0xd4, 0x82, 0xc5, 0xd9, 0x16, 0xe5, 0x06]"

definition DestroyELAAddress :: Uint168 where
  "DestroyELAAddress =
     [0x21, 0x20, 0xfe, 0xe5, 0xd7, 0xeb, 0x3e, 0x5c, 0x7d, 0x31, 0x97, 0xfe, 0xcf, 0x6c,
      0x0d, 0xe3, 0x0f, 0x88, 0x9a, 0xce, 0xf7]"

definition CRCAssetsAddress :: Uint168 where
  "CRCAssetsAddress =
     [0x1c, 0x5f, 0x6c, 0x3e, 0x9f, 0x0c, 0x9a, 0x71, 0x10, 0xb8, 0xeb, 0x6e, 0x37, 0x02,
      0x63, 0x0f, 0x71, 0x27, 0x4d, 0xf1, 0xc0]"

definition CRCExpensesAddress :: Uint168 where
  "CRCExpensesAddress =
     [0x1c, 0x60, 0x32, 0x09, 0xff, 0x5d, 0x86, 0x54, 0x2d, 0x26, 0x1a, 0x8d, 0x22, 0x7f,
      0xe0, 0xf5, 0xee, 0x2c, 0x4e, 0xd2, 0xd3]"

abbreviation ELAPrecision :: u8 where "ELAPrecision \<equiv> 0x08"
abbreviation CheckAddressHeight :: u32 where "CheckAddressHeight \<equiv> 88812"

definition rewardPerBlock :: "int \<Rightarrow> Fixed64" where
  "rewardPerBlock blockGenerateInterval =
     (let inflationPerYear = 3300 * 10000 * 100000000 * 4 div 100;
          generatedBlocksPerYear = 365 * 24 * 60 * 60 div blockGenerateInterval
      in word_of_int (truncated (floatDiv (floatOf inflationPerYear) (floatOf generatedBlocksPerYear))))"

definition mainNetParams :: ChainParams where
  "mainNetParams =
     \<lparr>cp_Foundation = mainNetFoundation, cp_CRCFoundation = CRCAssetsAddress,
      cp_CRCCommitteeAddress = CRCExpensesAddress, cp_RewardPerBlock = rewardPerBlock 120,
      cp_CoinbaseMaturity = 100, cp_MinTransactionFee = 100, cp_PublicDPOSHeight = 402680,
      cp_CRVotingStartHeight = 537670, cp_CRCommitteeStartHeight = 658930, cp_CheckRewardHeight = 436812,
      cp_RegisterCRByDIDHeight = 598000, cp_CheckVoteCRCountHeight = 658930\<rparr>"

definition elaAsset :: Transaction where
  "elaAsset =
     \<lparr>tx_Version = 0, tx_TxType = TxType_RegisterAsset, tx_PayloadVersion = 0,
      tx_Payload = Some (PRegisterAsset
        \<lparr>ra_Asset = \<lparr>asset_Name = ''ELA'', asset_Description = [], asset_Precision = ELAPrecision,
           asset_AssetType = 0, asset_RecordType = 0\<rparr>,
         ra_Amount = 0, ra_Controller = replicate 21 0\<rparr>),
      tx_Attributes = [], tx_Inputs = [], tx_Outputs = [], tx_LockTime = 0, tx_Programs = [],
      tx_Fee = 0, tx_FeePerKB = 0\<rparr>"

definition ELAAssetID :: "Crypto \<Rightarrow> Uint256" where
  "ELAAssetID cr = (case Transaction_Hash (Sha256D cr) elaAsset of Inr h \<Rightarrow> h | Inl _ \<Rightarrow> [])"

text \<open>
  What the sanity checks read of the chain: its parameters, its height, and the recipient of a proposal,
  where the committee knows the proposal.
\<close>

record BlockChain =
  bc_chainParams :: ChainParams
  bc_GetHeight :: u32
  bc_GetProposal :: "Uint256 \<Rightarrow> Uint168 option"

abbreviation CRCommitteeStartHeight_of :: "BlockChain \<Rightarrow> u32" where
  "CRCommitteeStartHeight_of b \<equiv> cp_CRCommitteeStartHeight (bc_chainParams b)"

abbreviation CRVotingStartHeight_of :: "BlockChain \<Rightarrow> u32" where
  "CRVotingStartHeight_of b \<equiv> cp_CRVotingStartHeight (bc_chainParams b)"

abbreviation PublicDPOSHeight_of :: "BlockChain \<Rightarrow> u32" where
  "PublicDPOSHeight_of b \<equiv> cp_PublicDPOSHeight (bc_chainParams b)"

subsection \<open>The sanity checks\<close>

abbreviation IsCoinBaseTx :: "Transaction \<Rightarrow> bool" where
  "IsCoinBaseTx tx \<equiv> tx_TxType tx = TxType_CoinBase"

abbreviation IsUpdateVersion :: "Transaction \<Rightarrow> bool" where
  "IsUpdateVersion tx \<equiv> tx_TxType tx = TxType_UpdateVersion"

abbreviation IsActivateProducerTx :: "Transaction \<Rightarrow> bool" where
  "IsActivateProducerTx tx \<equiv> tx_TxType tx = TxType_ActivateProducer"

abbreviation IsCRCAppropriationTx :: "Transaction \<Rightarrow> bool" where
  "IsCRCAppropriationTx tx \<equiv> tx_TxType tx = TxType_CRCAppropriation"

abbreviation IsCRCProposalWithdrawTx :: "Transaction \<Rightarrow> bool" where
  "IsCRCProposalWithdrawTx tx \<equiv> tx_TxType tx = TxType_CRCProposalWithdraw"

abbreviation IsWithdrawFromSideChainTx :: "Transaction \<Rightarrow> bool" where
  "IsWithdrawFromSideChainTx tx \<equiv> tx_TxType tx = TxType_WithdrawFromSideChain"

abbreviation IsReturnDepositCoin :: "Transaction \<Rightarrow> bool" where
  "IsReturnDepositCoin tx \<equiv> tx_TxType tx = TxType_ReturnDepositCoin"

abbreviation IsReturnCRDepositCoinTx :: "Transaction \<Rightarrow> bool" where
  "IsReturnCRDepositCoinTx tx \<equiv> tx_TxType tx = TxType_ReturnCRDepositCoin"

abbreviation IsRegisterProducerTx :: "Transaction \<Rightarrow> bool" where
  "IsRegisterProducerTx tx \<equiv> tx_TxType tx = TxType_RegisterProducer"

abbreviation IsRegisterCRTx :: "Transaction \<Rightarrow> bool" where
  "IsRegisterCRTx tx \<equiv> tx_TxType tx = TxType_RegisterCR"

text \<open>A vote output whose payload is of another kind is read through a nil pointer.\<close>

definition checkVoteVersion :: "Output \<Rightarrow> check" where
  "checkVoteVersion output =
     (if out_Type output \<noteq> OTVote then Inr None
      else case out_Payload output of
        Some (OVoteOutput p) \<Rightarrow>
          require (\<not> vo_Version p \<ge> VoteProducerAndCRVersion)
            ''not support VoteProducerAndCRVersion before CRVotingStartHeight''
      | _ \<Rightarrow> Inl NilDereference)"

definition checkTxHeightVersion :: "BlockChain \<Rightarrow> Transaction \<Rightarrow> u32 \<Rightarrow> check" where
  "checkTxHeightVersion b txn blockHeight =
     (if tx_TxType txn \<in> {TxType_RegisterCR, TxType_UpdateCR} then
        require (\<not> (blockHeight < CRVotingStartHeight_of b \<or>
            blockHeight < cp_RegisterCRByDIDHeight (bc_chainParams b) \<and> tx_PayloadVersion txn \<noteq> CRInfoVersion))
          ''not support before CRVotingStartHeight''
      else if tx_TxType txn \<in> {TxType_UnregisterCR, TxType_ReturnCRDepositCoin} then
        require (\<not> blockHeight < CRVotingStartHeight_of b) ''not support before CRVotingStartHeight''
      else if tx_TxType txn \<in> {TxType_CRCProposal, TxType_CRCProposalReview, TxType_CRCProposalTracking,
          TxType_CRCAppropriation, TxType_CRCProposalWithdraw} then
        require (\<not> blockHeight < CRCommitteeStartHeight_of b) ''not support before CRCommitteeStartHeight''
      else if tx_TxType txn = TxType_TransferAsset then
        (if blockHeight \<ge> CRVotingStartHeight_of b then Inr None
         else if tx_Version txn \<ge> TxVersion09 then checkEach checkVoteVersion (tx_Outputs txn)
         else Inr None)
      else Inr None)"

abbreviation MaxBlockContextSize :: int where "MaxBlockContextSize \<equiv> 8000000"

definition checkTransactionSize :: "Transaction \<Rightarrow> check" where
  "checkTransactionSize txn =
     bindR (Transaction_GetSize txn) (\<lambda>size.
       require (\<not> (size \<le> 0 \<or> size > MaxBlockContextSize))
         (''Invalid transaction size: '' @ (if size < 0 then ''-'' else []) @ decimal (nat \<bar>size\<bar>) @ '' bytes''))"

abbreviation EmptyHash :: Uint256 where "EmptyHash \<equiv> replicate 32 0"

fun inputLoop :: "Input list \<Rightarrow> string set \<Rightarrow> check" where
  "inputLoop [] existingTxInputs = Inr None"
| "inputLoop (input # inputs) existingTxInputs =
     (if op_TxID (in_Previous input) = EmptyHash \<and> op_Index (in_Previous input) = 0xFFFF
      then Inr (Some ''invalid transaction input'')
      else if Input_ReferKey input \<in> existingTxInputs then Inr (Some ''duplicated transaction inputs'')
      else inputLoop inputs (insert (Input_ReferKey input) existingTxInputs))"

definition checkTransactionInput :: "Transaction \<Rightarrow> check" where
  "checkTransactionInput txn =
     (if IsCoinBaseTx txn then
        (case tx_Inputs txn of
           [input] \<Rightarrow>
             require (\<not> (op_TxID (in_Previous input) \<noteq> EmptyHash \<or> op_Index (in_Previous input) \<noteq> 0xFFFF \<or>
                 in_Sequence input \<noteq> 0xFFFFFFFF)) ''invalid coinbase input''
         | _ \<Rightarrow> Inr (Some ''coinbase must has only one input''))
      else if IsIllegalTypeTx txn \<or> IsInactiveArbitrators txn \<or> IsNewSideChainPowTx txn \<or> IsUpdateVersion txn \<or>
          IsActivateProducerTx txn then
        require (length (tx_Inputs txn) = 0) ''no cost transactions must has no input''
      else if length (tx_Inputs txn) \<le> 0 then Inr (Some ''transaction has no inputs'')
      else inputLoop (tx_Inputs txn) {})"

definition checkOutputProgramHash :: "Base58 \<Rightarrow> Crypto \<Rightarrow> u32 \<Rightarrow> Uint168 \<Rightarrow> check" where
  "checkOutputProgramHash b58 cr ht programHash =
     (if ht \<ge> CheckAddressHeight then
        (if programHash = replicate 21 0 then Inr None
         else if programHash = CRCAssetsAddress then Inr None
         else if programHash = CRCExpensesAddress then Inr None
         else if programHash ! 0 \<notin> {PrefixStandard, PrefixMultiSig, PrefixCrossChain, PrefixDeposit}
         then Inr (Some ''invalid program hash prefix'')
         else case Uint168_ToAddress b58 cr programHash of
           Inl _ \<Rightarrow> Inr (Some ''invalid program hash'')
         | Inr addr \<Rightarrow>
             bindR (Uint168FromAddress b58 cr addr) (\<lambda>r.
               case r of Inl _ \<Rightarrow> Inr (Some ''invalid program hash'') | Inr _ \<Rightarrow> Inr None))
      else Inr None)"

definition Mapping_Data :: "Mapping \<Rightarrow> bytes" where
  "Mapping_Data m = Mapping_serializeContent m"

definition Mapping_Validate :: "Crypto \<Rightarrow> Mapping \<Rightarrow> string option" where
  "Mapping_Validate cr m =
     (case DecodePoint (map_OwnerPublicKey m) of
        Inl _ \<Rightarrow> Some ''mapping invalid OwnerPublicKey''
      | Inr pubKey \<Rightarrow>
          (if Verify cr pubKey (Mapping_Data m) (map_Signature m) \<noteq> None then Some ''invalid content signature''
           else None))"

fun OutputPayload_Validate :: "Crypto \<Rightarrow> OutputPayload \<Rightarrow> string option" where
  "OutputPayload_Validate cr ODefaultOutput = None"
| "OutputPayload_Validate cr (OVoteOutput vo) = VoteOutput_Validate (Some vo)"
| "OutputPayload_Validate cr (OMapping m) = Mapping_Validate cr m"

definition checkOutputPayload :: "Crypto \<Rightarrow> TxType \<Rightarrow> Output \<Rightarrow> check" where
  "checkOutputPayload cr txType output =
     andThen
       (if txType = TxType_TransferAsset then
          (if out_Type output = OTVote then
             require (GetPrefixType (out_ProgramHash output) = PrefixStandard) ''output address should be standard''
           else require (out_Type output = OTNone \<or> out_Type output = OTMapping)
             ''transaction type dose not match the output payload type'')
        else require (out_Type output = OTNone) ''transaction type dose not match the output payload type'')
       (case out_Payload output of
          None \<Rightarrow> Inl NilDereference
        | Some p \<Rightarrow> Inr (OutputPayload_Validate cr p))"

subsection \<open>Outputs, attributes, payloads\<close>

definition checkCRCProposalWithdrawOutput :: "BlockChain \<Rightarrow> Transaction \<Rightarrow> check" where
  "checkCRCProposalWithdrawOutput b txn =
     (case tx_Payload txn of
        Some (PCRCProposalWithdraw withdrawPayload) \<Rightarrow>
          (case bc_GetProposal b (crcw_ProposalHash withdrawPayload) of
             None \<Rightarrow> Inr (Some ''proposal not exist'')
           | Some recipient \<Rightarrow>
               (case tx_Outputs txn of
                  [] \<Rightarrow> Inl IndexOutOfRange
                | output # outputs \<Rightarrow>
                    if out_ProgramHash output \<noteq> recipient
                    then Inr (Some ''txn.Outputs[0].ProgramHash != Recipient'')
                    else andThen
                      (case outputs of
                         [] \<Rightarrow> Inr None
                       | output1 # _ \<Rightarrow>
                           require (out_ProgramHash output1 = cp_CRCCommitteeAddress (bc_chainParams b))
                             ''txn.Outputs[1].ProgramHash !=CRCComitteeAddresss'')
                      (require (\<not> length (tx_Outputs txn) > 2)
                         ''CRCProposalWithdraw tx should not have over two output'')))
      | _ \<Rightarrow> Inr (Some ''checkCRCProposalWithdrawOutput invalid payload''))"

definition checkCoinbaseOutput :: "BlockChain \<Rightarrow> Crypto \<Rightarrow> Transaction \<Rightarrow> u32 \<Rightarrow> check" where
  "checkCoinbaseOutput b cr txn blockHeight =
     (let outputs = tx_Outputs txn in
      if length outputs < 2 then Inr (Some ''coinbase output is not enough, at least 2'')
      else andThen
        (if blockHeight \<ge> CRCommitteeStartHeight_of b then
           require (out_ProgramHash (outputs ! 0) = cp_CRCFoundation (bc_chainParams b))
             ''first output address should be CRC foundation address''
         else require (out_ProgramHash (outputs ! 0) = cp_Foundation (bc_chainParams b))
             ''first output address should be foundation address'')
        (let foundationReward = out_Value (outputs ! 0) in
         if blockHeight < PublicDPOSHeight_of b then
           andThen (checkEach (\<lambda>output. require (out_AssetID output = ELAAssetID cr)
               ''asset ID in coinbase is invalid'') outputs)
             (let totalReward = sum_list (map out_Value outputs) in
              require (\<not> sint foundationReward <
                  truncated (floatTimes (floatOf (sint totalReward)) (fraction 3 10)))
                ''reward to foundation in coinbase < 30%'')
         else
           (let totalReward = out_Value (outputs ! 0) + out_Value (outputs ! 1) in
            require (\<not> (length outputs = 2 \<and> sint foundationReward <
                truncated (floatDiv (floatTimes (floatOf (sint totalReward)) (fraction 3 10)) (fraction 65 100))))
              ''reward to foundation in coinbase < 30%'')))"

definition checkOutput :: "Base58 \<Rightarrow> Crypto \<Rightarrow> Transaction \<Rightarrow> u32 \<Rightarrow> Output \<Rightarrow> check" where
  "checkOutput b58 cr txn blockHeight output =
     andThen (require (out_AssetID output = ELAAssetID cr) ''asset ID in output is invalid'')
    (andThen (require (\<not> sint (out_Value output) < 0) ''Invalide transaction UTXO output.'')
    (andThen (checkOutputProgramHash b58 cr blockHeight (out_ProgramHash output))
       (if tx_Version txn \<ge> TxVersion09 then checkOutputPayload cr (tx_TxType txn) output else Inr None)))"

definition specialOutputCount :: "Transaction \<Rightarrow> nat" where
  "specialOutputCount txn =
     (if tx_Version txn \<ge> TxVersion09 then length (filter (\<lambda>output. out_Type output \<noteq> OTNone) (tx_Outputs txn))
      else 0)"

definition checkTransactionOutput :: "BlockChain \<Rightarrow> Base58 \<Rightarrow> Crypto \<Rightarrow> Transaction \<Rightarrow> u32 \<Rightarrow> check" where
  "checkTransactionOutput b b58 cr txn blockHeight =
     (let outputs = tx_Outputs txn in
      if length outputs > 65535 then Inr (Some ''output count should not be greater than 65535(MaxUint16)'')
      else if IsCoinBaseTx txn then checkCoinbaseOutput b cr txn blockHeight
      else if IsIllegalTypeTx txn \<or> IsInactiveArbitrators txn \<or> IsUpdateVersion txn \<or> IsActivateProducerTx txn
      then require (length outputs = 0) ''no cost transactions should have no output''
      else andThen
        (if IsCRCAppropriationTx txn then
           (if length outputs \<noteq> 2 then Inr (Some ''new CRCAppropriation tx must have two output'')
            else andThen (require (out_ProgramHash (outputs ! 0) = cp_CRCCommitteeAddress (bc_chainParams b))
                ''new CRCAppropriation tx must have the firstoutput to CRC committee address'')
              (require (out_ProgramHash (outputs ! 1) = cp_CRCFoundation (bc_chainParams b))
                ''new CRCAppropriation tx must have the secondoutput to CRC foundation''))
         else Inr None)
        (if IsNewSideChainPowTx txn then
           (if length outputs \<noteq> 1 then Inr (Some ''new sideChainPow tx must have only one output'')
            else andThen (require (out_Value (outputs ! 0) = 0) ''the value of new sideChainPow tx output must be 0'')
              (require (out_Type (outputs ! 0) = OTNone) ''the type of new sideChainPow tx output must be OTNone''))
         else if length outputs < 1 then Inr (Some ''transaction has no outputs'')
         else andThen (if IsCRCProposalWithdrawTx txn then checkCRCProposalWithdrawOutput b txn else Inr None)
           (andThen (checkEach (checkOutput b58 cr txn blockHeight) outputs)
             (require (\<not> (bc_GetHeight b \<ge> PublicDPOSHeight_of b \<and> specialOutputCount txn > 1))
               ''special output count should less equal than 1''))))"

text \<open>
  The remainder of an amount by the unit of a precision. The precision is at most eight wherever it is
  called: the one of the coin is eight, and one of a registered asset is compared with eight before.
\<close>

definition checkAmountPrecise :: "Fixed64 \<Rightarrow> u8 \<Rightarrow> bool" where
  "checkAmountPrecise amount precision \<longleftrightarrow> sint amount mod 10 ^ unat (8 - precision) = 0"

definition checkAssetPrecision :: "Transaction \<Rightarrow> check" where
  "checkAssetPrecision txn =
     checkEach (\<lambda>output. require (checkAmountPrecise (out_Value output) ELAPrecision)
       ''the precision of asset is incorrect'') (tx_Outputs txn)"

definition checkAttributes :: "Transaction \<Rightarrow> check" where
  "checkAttributes tx =
     andThen (checkEach (\<lambda>attr. require (IsValidAttributeType (attr_Usage attr))
         (''invalid attribute usage '' @ decimal (unat (attr_Usage attr)))) (tx_Attributes tx))
       (require (tx_Programs tx \<noteq> []) ''no programs found in transaction'')"

definition checkAttributeProgram :: "BlockChain \<Rightarrow> Transaction \<Rightarrow> u32 \<Rightarrow> check" where
  "checkAttributeProgram b tx blockHeight =
     (let programs = length (tx_Programs tx); attributes = length (tx_Attributes tx); ty = tx_TxType tx in
      if ty = TxType_CoinBase then require (programs = 0) ''transaction should have no programs''
      else if ty \<in> {TxType_IllegalSidechainEvidence, TxType_IllegalProposalEvidence, TxType_IllegalVoteEvidence,
          TxType_ActivateProducer}
      then require (\<not> (programs \<noteq> 0 \<or> attributes \<noteq> 0)) ''zero cost tx should have no attributes and programs''
      else if ty = TxType_IllegalBlockEvidence then
        andThen (require (programs = 1) ''illegal block transactions should have one and only one program'')
       (andThen (require (attributes = 0) ''illegal block transactions should have no programs'')
          (checkAttributes tx))
      else if ty \<in> {TxType_InactiveArbitrators, TxType_UpdateVersion} then
        andThen (require (programs = 1) ''inactive arbitrators transactions should have one and only one program'')
       (andThen (require (attributes = 1) ''inactive arbitrators transactions should have one and only one arbitrator'')
          (checkAttributes tx))
      else if ty = TxType_SideChainPow \<and> IsNewSideChainPowTx tx then
        require (\<not> (programs \<noteq> 0 \<or> attributes \<noteq> 0)) ''sideChainPow transactions should have no attributes and programs''
      else if ty = TxType_CRCAppropriation then
        andThen (require (programs = 0) ''CRCAppropriation txs should have no programs'')
          (require (attributes = 0) ''CRCAppropriation txs should have no attributes'')
      else if ty = TxType_ReturnDepositCoin \<and> blockHeight \<ge> CRVotingStartHeight_of b then
        andThen (require (programs = 1) ''return deposit coin transactions should have one and only one program'')
          (checkAttributes tx)
      else if ty = TxType_ReturnCRDepositCoin then
        andThen (require (programs = 1) ''return CR deposit coin transactions should have one and only one program'')
          (checkAttributes tx)
      else if ty = TxType_CRCProposalWithdraw then
        require (programs = 0) ''crcproposalwithdraw tx should have no programs''
      else checkAttributes tx)"

text \<open>The type switch lists every payload but the one of an UpdateVersion transaction.\<close>

definition checkTransactionPayload :: "Transaction \<Rightarrow> check" where
  "checkTransactionPayload txn =
     (case tx_Payload txn of
        Some (PRegisterAsset pld) \<Rightarrow>
          andThen (require (\<not> asset_Precision (ra_Asset pld) > 8) ''Invalide asset Precision.'')
            (require (checkAmountPrecise (ra_Amount pld) (asset_Precision (ra_Asset pld)))
              ''Invalide asset value,out of precise.'')
      | Some (PUpdateVersion _) \<Rightarrow> Inr (Some ''[txValidator],invalidate transaction payload type.'')
      | None \<Rightarrow> Inr (Some ''[txValidator],invalidate transaction payload type.'')
      | Some _ \<Rightarrow> Inr None)"

definition checkDuplicateSidechainTx :: "Transaction \<Rightarrow> check" where
  "checkDuplicateSidechainTx txn =
     (if IsWithdrawFromSideChainTx txn then
        (case tx_Payload txn of
           Some (PWithdrawFromSideChain witPayload) \<Rightarrow>
             checkDistinct ''Duplicate sidechain tx detected in a transaction'' (wfs_SideChainTransactionHashes witPayload)
         | _ \<Rightarrow> Inl TypeAssertion)
      else Inr None)"

datatype ErrCode =
    ErrTxHeightVersion | ErrTxSize | ErrTxInvalidInput | ErrTxInvalidOutput | ErrTxAssetPrecision
  | ErrTxAttributeProgram | ErrTxPayload | ErrTxSidechainDuplicate | ErrTxDuplicate | ErrTxDoubleSpend
  | ErrTxUTXOLocked | ErrTxSidechainPowConsensus | ErrTxReturnDeposit | ErrTxAppropriation | ErrTxBalance
  | ErrTxSignature | ErrBlockIneffectiveCoinbase

definition Simple :: "ErrCode \<Rightarrow> check \<Rightarrow> (ErrCode \<times> string) option res" where
  "Simple code c = bindR c (\<lambda>e. Inr (map_option (Pair code) e))"

lemma Simple_ok [simp]: "Simple code c = Inr None \<longleftrightarrow> c = Inr None"
  by (cases c) (auto simp: Simple_def)

definition CheckTransactionSanity ::
  "BlockChain \<Rightarrow> Base58 \<Rightarrow> Crypto \<Rightarrow> u32 \<Rightarrow> Transaction \<Rightarrow> (ErrCode \<times> string) option res" where
  "CheckTransactionSanity b b58 cr blockHeight txn =
     andThen (Simple ErrTxHeightVersion (checkTxHeightVersion b txn blockHeight))
    (andThen (Simple ErrTxSize (checkTransactionSize txn))
    (andThen (Simple ErrTxInvalidInput (checkTransactionInput txn))
    (andThen (Simple ErrTxInvalidOutput (checkTransactionOutput b b58 cr txn blockHeight))
    (andThen (Simple ErrTxAssetPrecision (checkAssetPrecision txn))
    (andThen (Simple ErrTxAttributeProgram (checkAttributeProgram b txn blockHeight))
    (andThen (Simple ErrTxPayload (checkTransactionPayload txn))
       (Simple ErrTxSidechainDuplicate (checkDuplicateSidechainTx txn))))))))"

subsection \<open>The checks against the outputs that are spent\<close>

text \<open>The outputs a transaction spends, in the order the map is ranged over.\<close>

definition spentOutputs :: "(nat set \<Rightarrow> nat list) \<Rightarrow> (nat \<Rightarrow> Output option) \<Rightarrow> Output list" where
  "spentOutputs ordI references = map (\<lambda>i. the (references i)) (ordI (dom references))"

definition checkDestructionAddress :: "(nat set \<Rightarrow> nat list) \<Rightarrow> (nat \<Rightarrow> Output option) \<Rightarrow> check" where
  "checkDestructionAddress ordI references =
     checkEach (\<lambda>output. require (out_ProgramHash output \<noteq> DestroyELAAddress)
       ''cannot use utxo from the destruction address'') (spentOutputs ordI references)"

definition checkTransactionUTXOLock ::
  "(nat set \<Rightarrow> nat list) \<Rightarrow> Transaction \<Rightarrow> (nat \<Rightarrow> Output option) \<Rightarrow> check" where
  "checkTransactionUTXOLock ordI txn references =
     checkEach (\<lambda>i. let input = tx_Inputs txn ! i; output = the (references i) in
       if out_OutputLock output = 0 then Inr None
       else andThen (require (in_Sequence input = 0xFFFFFFFE) ''Invalid input sequence'')
         (require (\<not> tx_LockTime txn < out_OutputLock output) ''UTXO output locked'')) (ordI (dom references))"

definition checkTransactionDepositUTXO ::
  "(nat set \<Rightarrow> nat list) \<Rightarrow> Transaction \<Rightarrow> (nat \<Rightarrow> Output option) \<Rightarrow> check" where
  "checkTransactionDepositUTXO ordI txn references =
     checkEach (\<lambda>output.
       if GetPrefixType (out_ProgramHash output) = PrefixDeposit then
         require (\<not> (\<not> IsReturnDepositCoin txn \<and> \<not> IsReturnCRDepositCoinTx txn))
           ''only the ReturnDepositCoin and ReturnCRDepositCoin transaction can use the deposit UTXO''
       else require (\<not> (IsReturnDepositCoin txn \<or> IsReturnCRDepositCoinTx txn))
           ''the ReturnDepositCoin and ReturnCRDepositCoin transaction can only use the deposit UTXO'')
       (spentOutputs ordI references)"

definition checkTransactionDepositOutpus :: "(Uint168 \<Rightarrow> bool) \<Rightarrow> (Uint168 \<Rightarrow> bool) \<Rightarrow> Transaction \<Rightarrow> check" where
  "checkTransactionDepositOutpus existProducerByDepositHash existCandidateByDepositHash txn =
     checkEach (\<lambda>output.
       if GetPrefixType (out_ProgramHash output) = PrefixDeposit then
         (if IsRegisterProducerTx txn \<or> IsRegisterCRTx txn \<or> IsReturnDepositCoin txn \<or> IsReturnCRDepositCoinTx txn
          then Inr None
          else if existProducerByDepositHash (out_ProgramHash output) then Inr None
          else if existCandidateByDepositHash (out_ProgramHash output) then Inr None
          else Inr (Some ''only the address that CR or Producer registered can have the deposit UTXO''))
       else Inr None) (tx_Outputs txn)"

definition checkInvalidUTXO ::
  "BlockChain \<Rightarrow> (Uint256 \<Rightarrow> string + Transaction) \<Rightarrow> Transaction \<Rightarrow> check" where
  "checkInvalidUTXO b getTransaction txn =
     checkEach (\<lambda>input.
       case getTransaction (op_TxID (in_Previous input)) of
         Inl err \<Rightarrow> Inr (Some err)
       | Inr referTxn \<Rightarrow>
           if IsCoinBaseTx referTxn then
             require (\<not> bc_GetHeight b - tx_LockTime referTxn < cp_CoinbaseMaturity (bc_chainParams b))
               ''the utxo of coinbase is locking''
           else require (\<not> IsNewSideChainPowTx referTxn) ''cannot spend the utxo from a new sideChainPow tx'')
       (tx_Inputs txn)"

definition getTransactionFee ::
  "(nat set \<Rightarrow> nat list) \<Rightarrow> Transaction \<Rightarrow> (nat \<Rightarrow> Output option) \<Rightarrow> Fixed64" where
  "getTransactionFee ordI tx references =
     (let outputValue = sum_list (map out_Value (tx_Outputs tx));
          inputValue = sum_list (map out_Value (spentOutputs ordI references))
      in inputValue - outputValue)"

definition isSmallThanMinTransactionFee :: "BlockChain \<Rightarrow> Fixed64 \<Rightarrow> bool" where
  "isSmallThanMinTransactionFee b fee \<longleftrightarrow> sint fee < sint (cp_MinTransactionFee (bc_chainParams b))"

text \<open>The transaction with its fee and its fee per kilobyte filled in, a truncated signed division.\<close>

definition checkTransactionFee ::
  "BlockChain \<Rightarrow> (nat set \<Rightarrow> nat list) \<Rightarrow> Transaction \<Rightarrow> (nat \<Rightarrow> Output option) \<Rightarrow> (string + Transaction) res" where
  "checkTransactionFee b ordI tx references =
     (let fee = getTransactionFee ordI tx references in
      if isSmallThanMinTransactionFee b fee then Inr (Inl ''transaction fee not enough'')
      else case Transaction_Serialize tx of
        (_, Some WNilDereference) \<Rightarrow> Inl NilDereference
      | (buf, _) \<Rightarrow>
          if buf = [] then Inl (PanicMsg ''integer divide by zero'')
          else Inr (Inr (tx\<lparr>tx_Fee := fee,
            tx_FeePerKB := word_of_int (sint (fee * 1000) sdiv int (length buf))\<rparr>)))"

subsection \<open>What an accepted transaction satisfies\<close>

lemma inputLoop_ok:
  "inputLoop inputs seen = Inr None \<longleftrightarrow>
     (\<forall>input \<in> set inputs. \<not> (op_TxID (in_Previous input) = EmptyHash \<and> op_Index (in_Previous input) = 0xFFFF)) \<and>
     distinct (map Input_ReferKey inputs) \<and> set (map Input_ReferKey inputs) \<inter> seen = {}"
  by (induction inputs arbitrary: seen) auto

lemma checkTransactionInput_distinct:
  "checkTransactionInput txn = Inr None \<Longrightarrow> distinct (map Input_ReferKey (tx_Inputs txn))"
  by (auto simp: checkTransactionInput_def inputLoop_ok split: if_splits list.splits)

lemma checkTransactionOutput_cases:
  assumes "checkTransactionOutput b b58 cr txn ht = Inr None" and "\<not> IsCoinBaseTx txn"
  shows "tx_Outputs txn = [] \<or> (IsNewSideChainPowTx txn \<and> (\<exists>output. tx_Outputs txn = [output] \<and> out_Value output = 0)) \<or>
    (\<forall>output \<in> set (tx_Outputs txn). checkOutput b58 cr txn ht output = Inr None)"
  using assms by (auto simp: checkTransactionOutput_def Let_def length_Suc_conv split: if_splits)

lemma checkTransactionOutput_nonneg:
  assumes "checkTransactionOutput b b58 cr txn ht = Inr None" and "\<not> IsCoinBaseTx txn"
    and "output \<in> set (tx_Outputs txn)"
  shows "0 \<le> fixed (out_Value output)"
  using checkTransactionOutput_cases [OF assms(1,2)] assms(3) by (auto simp: checkOutput_def)

lemma sanity_parts:
  assumes "CheckTransactionSanity b b58 cr ht txn = Inr None"
  shows "checkTransactionInput txn = Inr None" and "checkTransactionOutput b b58 cr txn ht = Inr None"
    and "checkTransactionPayload txn = Inr None" and "checkAttributeProgram b txn ht = Inr None"
    and "checkDuplicateSidechainTx txn = Inr None" and "checkTransactionSize txn = Inr None"
    and "checkTxHeightVersion b txn ht = Inr None"
  using assms by (simp_all add: CheckTransactionSanity_def)

subsection \<open>Value\<close>

lemma sum_words: "sum_list (map f xs) = (word_of_int (\<Sum>x \<leftarrow> xs. fixed (f x)) :: Fixed64)"
  by (induction xs) simp_all

lemma fixed_exact: "- (2 ^ 63) \<le> n \<Longrightarrow> n < 2 ^ 63 \<Longrightarrow> fixed (word_of_int n) = n"
  by (simp add: sint_sbintrunc' signed_take_bit_int_eq_self)

definition worth :: "Output list \<Rightarrow> int" where
  "worth outputs = (\<Sum>output \<leftarrow> outputs. fixed (out_Value output))"

lemma worth_nonneg: "\<forall>output \<in> set outputs. 0 \<le> fixed (out_Value output) \<Longrightarrow> 0 \<le> worth outputs"
  by (induction outputs) (auto simp: worth_def)

lemma getTransactionFee_exact:
  assumes "0 \<le> worth (tx_Outputs tx)" and "0 \<le> worth (spentOutputs ordI references)"
    and "worth (tx_Outputs tx) < 2 ^ 63" and "worth (spentOutputs ordI references) < 2 ^ 63"
  shows "fixed (getTransactionFee ordI tx references) = worth (spentOutputs ordI references) - worth (tx_Outputs tx)"
proof -
  have "getTransactionFee ordI tx references =
      word_of_int (worth (spentOutputs ordI references) - worth (tx_Outputs tx))"
    by (simp add: getTransactionFee_def worth_def sum_words)
  then show ?thesis using assms by (simp only: fixed_exact)
qed


text \<open>A transaction that spends 1000 and pays four outputs of \<open>2 ^ 62\<close>, to the address of zeros.\<close>

definition pays :: "Crypto \<Rightarrow> Fixed64 \<Rightarrow> Output" where
  "pays cr v = \<lparr>out_AssetID = ELAAssetID cr, out_Value = v, out_OutputLock = 0, out_ProgramHash = replicate 21 0,
     out_Type = OTNone, out_Payload = None\<rparr>"

definition inflation :: "Crypto \<Rightarrow> Fixed64 list \<Rightarrow> Transaction" where
  "inflation cr vs =
     \<lparr>tx_Version = 0, tx_TxType = TxType_TransferAsset, tx_PayloadVersion = 0, tx_Payload = Some PTransferAsset,
      tx_Attributes = [], tx_Inputs = [\<lparr>in_Previous = \<lparr>op_TxID = replicate 32 7, op_Index = 2\<rparr>, in_Sequence = 0\<rparr>],
      tx_Outputs = map (pays cr) vs,
      tx_LockTime = 0, tx_Programs = [\<lparr>prog_Code = [2], prog_Parameter = [3]\<rparr>], tx_Fee = 0, tx_FeePerKB = 0\<rparr>"

text \<open>The size of an output of the old version.\<close>

lemma output_bytes:
  assumes "length (out_AssetID x) = 32" and "length (out_ProgramHash x) = 21"
  shows "\<exists>bs. Output_Serialize 0 x = (bs, None) \<and> length bs = 65"
  using assms
  by (simp add: Output_Serialize_def Uint256_Serialize_def Uint168_Serialize_def Fixed64_Serialize_def
      WriteUint32_def WriteUint64_def length_putLE)

lemma outputs_bytes:
  assumes "\<forall>x \<in> set xs. length (out_AssetID x) = 32 \<and> length (out_ProgramHash x) = 21"
  shows "\<exists>bs. serAll (Output_Serialize 0) xs = (bs, None) \<and> length bs = 65 * length xs"
  using assms
proof (induction xs)
  case Nil
  then show ?case by simp
next
  case (Cons x xs)
  with output_bytes [of x] show ?case by auto
qed

lemma asset_length: "\<forall>x. length (sha256 cr x) = 32 \<Longrightarrow> length (ELAAssetID cr) = 32"
  by (simp add: ELAAssetID_def Transaction_Hash_def Sha256D_def elaAsset_def Transaction_SerializeUnsigned_def countBytes_def)

lemma inflation_size:
  assumes "length (ELAAssetID cr) = 32" and "length vs \<le> 100"
  shows "\<exists>bs. Transaction_Serialize (inflation cr vs) = (bs, None) \<and> bs \<noteq> [] \<and> length bs \<le> 8000000"
proof -
  obtain bs where "serAll (Output_Serialize 0) (map (pays cr) vs) = (bs, None)" "length bs = 65 * length vs"
    using outputs_bytes [of "map (pays cr) vs"] assms(1) by (auto simp: pays_def)
  moreover have "VarUintSerializeSize val \<le> 9" for val by (simp add: VarUintSerializeSize_def)
  from this [of 0] this [of 1] this [of "word_of_nat (length vs)"]
  have "VarUintSerializeSize 0 + (4 * VarUintSerializeSize 1 + (VarUintSerializeSize (word_of_nat (length vs)) + 65 * length vs)) \<le> 7999954"
    using assms(2) by linarith
  ultimately show ?thesis
    by (simp add: inflation_def Transaction_Serialize_def Transaction_SerializeUnsigned_def countBytes_def
        Program_Serialize_def Input_Serialize_def WriteVarBytes_def WriteUint16_def WriteUint32_def length_putLE length_WriteVarUint)
qed

abbreviation mainChain :: BlockChain where
  "mainChain \<equiv> \<lparr>bc_chainParams = mainNetParams, bc_GetHeight = 700000, bc_GetProposal = \<lambda>_. None\<rparr>"

lemma inflation_sane:
  assumes "length (ELAAssetID cr) = 32" and "vs \<noteq> []" and "length vs \<le> 100" and "\<forall>v \<in> set vs. 0 \<le> fixed v"
  shows "CheckTransactionSanity mainChain b58 cr 700001 (inflation cr vs) = Inr None"
proof -
  have "checkTransactionSize (inflation cr vs) = Inr None"
    using inflation_size [OF assms(1,3)] by (auto simp: checkTransactionSize_def Transaction_GetSize_def)
  moreover have "checkTxHeightVersion mainChain (inflation cr vs) 700001 = Inr None"
    by (simp add: checkTxHeightVersion_def inflation_def mainNetParams_def)
  moreover have "checkTransactionInput (inflation cr vs) = Inr None"
    by (simp add: checkTransactionInput_def inputLoop_ok inflation_def IsIllegalTypeTx_def
        IsInactiveArbitrators_def IsNewSideChainPowTx_def)
  moreover have "checkTransactionOutput mainChain b58 cr (inflation cr vs) 700001 = Inr None"
    using assms by (simp add: checkTransactionOutput_def Let_def not_less inflation_def IsIllegalTypeTx_def
        IsInactiveArbitrators_def IsNewSideChainPowTx_def
        checkOutput_def pays_def checkOutputProgramHash_def
        specialOutputCount_def)
  moreover have "checkAssetPrecision (inflation cr vs) = Inr None"
    by (simp add: checkAssetPrecision_def checkAmountPrecise_def)
  moreover have "checkAttributeProgram mainChain (inflation cr vs) 700001 = Inr None"
    by (simp add: checkAttributeProgram_def inflation_def checkAttributes_def)
  moreover have "checkTransactionPayload (inflation cr vs) = Inr None" "checkDuplicateSidechainTx (inflation cr vs) = Inr None"
    by (simp_all add: checkTransactionPayload_def checkDuplicateSidechainTx_def inflation_def)
  ultimately show ?thesis by (simp add: CheckTransactionSanity_def)
qed

lemma inflation_fee:
  assumes "length (ELAAssetID cr) = 32" and "length vs \<le> 100" and "100 \<le> fixed (v - sum_list vs)"
  shows "\<exists>tx'. checkTransactionFee mainChain (\<lambda>_. [0]) (inflation cr vs) [0 \<mapsto> pays cr v] = Inr (Inr tx') \<and>
    tx_Fee tx' = v - sum_list vs"
  using inflation_size [OF assms(1,2)] assms(3)
  by (auto simp: checkTransactionFee_def isSmallThanMinTransactionFee_def getTransactionFee_def spentOutputs_def
      mainNetParams_def inflation_def pays_def comp_def)

text \<open>
  C2. Nothing keeps the sums from wrapping around: on the main network there is a transaction that passes
  every sanity check and the fee check, spends an output of 1000 and pays out \<open>2 ^ 64\<close> in four outputs, each of
  them in range. Its fee is computed as 1000.
\<close>

theorem value_overflow_accepted:
  assumes "\<forall>x. length (sha256 cr x) = 32"
  shows "\<exists>tx spent tx'. CheckTransactionSanity mainChain b58 cr 700001 tx = Inr None \<and>
    checkTransactionFee mainChain (\<lambda>_. [0]) tx [0 \<mapsto> spent] = Inr (Inr tx') \<and>
    worth [spent] = 1000 \<and> worth (tx_Outputs tx) = 2 ^ 64 \<and> (\<forall>output \<in> set (tx_Outputs tx). 0 \<le> fixed (out_Value output)) \<and>
    fixed (tx_Fee tx') = 1000"
proof -
  let ?c = "0x4000000000000000 :: Fixed64" let ?vs = "[?c, ?c, ?c, ?c]"
  have id: "length (ELAAssetID cr) = 32" using assms by (rule asset_length)
  have fee: "fixed (1000 - sum_list ?vs) = 1000" by simp
  then obtain tx' where tx': "checkTransactionFee mainChain (\<lambda>_. [0]) (inflation cr ?vs) [0 \<mapsto> pays cr 1000] = Inr (Inr tx')"
      "tx_Fee tx' = 1000 - sum_list ?vs"
    using inflation_fee [OF id, of ?vs 1000] by auto
  show ?thesis
  proof (intro exI conjI ballI)
    show "CheckTransactionSanity mainChain b58 cr 700001 (inflation cr ?vs) = Inr None"
      by (rule inflation_sane [OF id]) simp_all
    show "fixed (tx_Fee tx') = 1000" unfolding tx'(2) by (rule fee)
  qed (use tx'(1) in \<open>auto simp: worth_def inflation_def pays_def\<close>)
qed

definition plainCrypto :: Crypto where
  "plainCrypto = sampleCrypto\<lparr>sha256 := \<lambda>_. replicate 32 1\<rparr>"

definition plainBase58 :: Base58 where
  "plainBase58 = \<lparr>base58Encode = Inr, base58Decode = Inr\<rparr>"

lemma plainCrypto_asset: "length (ELAAssetID plainCrypto) = 32"
  by (rule asset_length) (simp add: plainCrypto_def)

theorem value_overflow_accepted_witness:
  "\<exists>tx spent tx'. CheckTransactionSanity mainChain plainBase58 plainCrypto 700001 tx = Inr None \<and>
    checkTransactionFee mainChain (\<lambda>_. [0]) tx [0 \<mapsto> spent] = Inr (Inr tx') \<and>
    worth [spent] = 1000 \<and> worth (tx_Outputs tx) = 2 ^ 64"
proof -
  have "\<forall>x. length (sha256 plainCrypto x) = 32" by (simp add: plainCrypto_def)
  from value_overflow_accepted [OF this, of plainBase58] show ?thesis by blast
qed


subsection \<open>Sanity\<close>

lemma checkOutput_sound:
  assumes "checkOutput b58 cr txn ht output = Inr None"
  shows "0 \<le> fixed (out_Value output) \<and> out_AssetID output = ELAAssetID cr \<and>
    (CheckAddressHeight \<le> ht \<longrightarrow> out_ProgramHash output \<in> {replicate 21 0, CRCAssetsAddress, CRCExpensesAddress} \<or>
      GetPrefixType (out_ProgramHash output) \<in> {PrefixStandard, PrefixMultiSig, PrefixCrossChain, PrefixDeposit})"
  using assms by (auto simp: checkOutput_def checkOutputProgramHash_def GetPrefixType_def split: if_splits)

text \<open>
  C3. What the sanity checks guarantee, of every transaction that passes them: it refers to no output twice,
  has a payload, and at most 65535 outputs. A coinbase has at least two outputs, the first to the foundation
  of its height (no more is checked of the signs and the addresses of its outputs). A side chain block of the
  new form has one output, of value zero. Every other transaction pays only non-negative amounts of the coin
  of the chain, and from height 88812 on only to the empty address, the two addresses of the council, or an
  address with a standard, multi-signature, cross-chain or deposit prefix.
\<close>

theorem sanity_sound:
  assumes "CheckTransactionSanity b b58 cr ht txn = Inr None"
  shows "distinct (map in_Previous (tx_Inputs txn)) \<and> tx_Payload txn \<noteq> None \<and> length (tx_Outputs txn) \<le> 65535 \<and>
    (if IsCoinBaseTx txn then 2 \<le> length (tx_Outputs txn) \<and> out_ProgramHash (tx_Outputs txn ! 0) =
        (if CRCommitteeStartHeight_of b \<le> ht then cp_CRCFoundation (bc_chainParams b) else cp_Foundation (bc_chainParams b))
     else if IsNewSideChainPowTx txn then (\<exists>output. tx_Outputs txn = [output] \<and> out_Value output = 0)
     else \<forall>output \<in> set (tx_Outputs txn). 0 \<le> fixed (out_Value output) \<and> out_AssetID output = ELAAssetID cr \<and>
       (CheckAddressHeight \<le> ht \<longrightarrow> out_ProgramHash output \<in> {replicate 21 0, CRCAssetsAddress, CRCExpensesAddress} \<or>
         GetPrefixType (out_ProgramHash output) \<in> {PrefixStandard, PrefixMultiSig, PrefixCrossChain, PrefixDeposit}))"
proof -
  note parts = sanity_parts [OF assms]
  have "distinct (map OutPoint_ReferKey (map in_Previous (tx_Inputs txn)))"
    using checkTransactionInput_distinct [OF parts(1)] by (simp add: Input_ReferKey_def [abs_def] comp_def)
  then have "distinct (map in_Previous (tx_Inputs txn))" by (auto simp: distinct_map intro: inj_on_imageI2)
  moreover have "tx_Payload txn \<noteq> None"
    using parts(3) by (cases "tx_Payload txn") (simp_all add: checkTransactionPayload_def)
  moreover have "length (tx_Outputs txn) \<le> 65535"
    using parts(2) by (simp add: checkTransactionOutput_def Let_def split: if_splits)
  moreover have "2 \<le> length (tx_Outputs txn) \<and> out_ProgramHash (tx_Outputs txn ! 0) =
      (if CRCommitteeStartHeight_of b \<le> ht then cp_CRCFoundation (bc_chainParams b) else cp_Foundation (bc_chainParams b))"
    if "IsCoinBaseTx txn"
    using parts(2) that by (auto simp: checkTransactionOutput_def checkCoinbaseOutput_def Let_def split: if_splits)
  moreover have "\<exists>output. tx_Outputs txn = [output] \<and> out_Value output = 0" if "IsNewSideChainPowTx txn"
    using parts(2) that by (auto simp: checkTransactionOutput_def IsNewSideChainPowTx_def IsIllegalTypeTx_def
        IsInactiveArbitrators_def Let_def length_Suc_conv split: if_splits)
  moreover have "\<forall>output \<in> set (tx_Outputs txn). checkOutput b58 cr txn ht output = Inr None"
    if "\<not> IsCoinBaseTx txn" "\<not> IsNewSideChainPowTx txn"
    using checkTransactionOutput_cases [OF parts(2) that(1)] that(2) by auto
  ultimately show ?thesis using checkOutput_sound by (metis (no_types, lifting))
qed

text \<open>
  C28. No transaction that updates the version of the consensus is ever accepted: its payload is missing from
  the list of the sanity checks, although the block checks and the consensus state handle it.
\<close>

theorem update_version_rejected:
  assumes "Transaction_wf txn" and "IsUpdateVersion txn"
  shows "CheckTransactionSanity b b58 cr ht txn \<noteq> Inr None"
proof
  assume "CheckTransactionSanity b b58 cr ht txn = Inr None"
  then have "checkTransactionPayload txn = Inr None" by (rule sanity_parts)
  moreover obtain p where "tx_Payload txn = Some p" "Payload_kind p = KUpdateVersion"
    using assms by (auto simp: Transaction_wf_def GetPayload_def)
  ultimately show False by (cases p) (auto simp: checkTransactionPayload_def)
qed

theorem sanity_sound_witness:
  "CheckTransactionSanity mainChain plainBase58 plainCrypto 700001 (inflation plainCrypto [500]) = Inr None \<and>
   out_AssetID (hd (tx_Outputs (inflation plainCrypto [500]))) = ELAAssetID plainCrypto"
proof -
  have sane: "CheckTransactionSanity mainChain plainBase58 plainCrypto 700001 (inflation plainCrypto [500]) = Inr None"
    by (rule inflation_sane [OF plainCrypto_asset]) simp_all
  with sanity_sound [OF sane] show ?thesis by (simp add: inflation_def IsNewSideChainPowTx_def)
qed

definition sampleUpdate :: Transaction where
  "sampleUpdate = (inflation plainCrypto [])\<lparr>tx_Version := 9, tx_TxType := TxType_UpdateVersion,
     tx_Payload := Some (PUpdateVersion \<lparr>update_StartHeight = 1, update_EndHeight = 2\<rparr>)\<rparr>"

theorem update_version_rejected_witness:
  "CheckTransactionSanity mainChain plainBase58 plainCrypto 700001 sampleUpdate \<noteq> Inr None"
  by (rule update_version_rejected)
    (simp_all add: sampleUpdate_def inflation_def Transaction_wf_def GetPayload_def list_wf_def
      Input_wf_def OutPoint_wf_def Program_wf_def)

subsection \<open>Addresses\<close>

lemma digits_append: "digits (xs @ [c]) n = Option.bind (digits xs n) (\<lambda>m. digits [c] m)"
  by (induction xs arbitrary: n) (auto simp: Let_def)

lemma digits_decimal: "digits (decimal n) 0 = Some n"
proof (induction n rule: decimal.induct)
  case (1 n)
  show ?case
  proof (cases "n < 10")
    case True
    then show ?thesis by (simp add: decimal.simps [of n])
  next
    case False
    with 1 show ?thesis by (simp add: decimal.simps [of n] digits_append)
  qed
qed

lemma digit_no_sign: "n < 10 \<Longrightarrow> char_of (48 + n :: nat) \<notin> {CHR ''-'', CHR ''+''}"
proof -
  assume "n < 10"
  then have "of_char (char_of (48 + n)) = 48 + n" by simp
  moreover have "of_char CHR ''-'' = (45 :: nat)" "of_char CHR ''+'' = (43 :: nat)" by simp_all
  ultimately have "of_char (char_of (48 + n)) \<noteq> (of_char CHR ''-'' :: nat)"
    "of_char (char_of (48 + n)) \<noteq> (of_char CHR ''+'' :: nat)" by linarith+
  then show ?thesis by (metis insert_iff empty_iff)
qed

lemma decimal_first: "decimal n \<noteq> [] \<and> hd (decimal n) \<notin> {CHR ''-'', CHR ''+''}"
proof (induction n rule: decimal.induct)
  case (1 n)
  then show ?case using digit_no_sign [of n] by (cases "n < 10") (auto simp: decimal.simps [of n])
qed

lemma SetString_decimal: "SetString (decimal n) = Some n"
  using decimal_first [of n] digits_decimal [of n] by (auto simp: SetString_def Let_def split: list.splits)

text \<open>
  C26. An address stands for one program hash. Take a program hash of 21 bytes with a non-zero first byte
  (the standard, multi-signature, cross-chain, deposit and identity prefixes are such), and suppose base58 encodes
  the number of the hash and its checksum as a text of 34 characters, which it decodes to the same number.
  Then the address is that text, and it is read back as the program hash; and an output to that hash passes
  the output check exactly when, from height 88812 on, the hash has one of the four prefixes of outputs (the
  identity prefix is not one of them) or is one of the two addresses of the council.
\<close>

theorem address_round_trip:
  assumes "length u = 21" and "u ! 0 \<noteq> 0"
    and "base58Encode b58 (decimal (beNat (u @ take 4 (Sha256D cr u)))) = Inr address" and "length address = 34"
    and "base58Decode b58 address = Inr (decimal (beNat (u @ take 4 (Sha256D cr u))))"
  shows "Uint168_ToAddress b58 cr u = Inr address \<and> Uint168FromAddress b58 cr address = Inr (Inr u) \<and>
    (checkOutputProgramHash b58 cr ht u = Inr None \<longleftrightarrow>
      (CheckAddressHeight \<le> ht \<longrightarrow> u ! 0 \<in> {PrefixStandard, PrefixMultiSig, PrefixCrossChain, PrefixDeposit} \<or>
        u \<in> {CRCAssetsAddress, CRCExpensesAddress}))"
proof -
  obtain p v where u: "u = p # v" using assms(1) by (cases u) auto
  with assms(2) have "p \<noteq> 0" by auto
  then have "natBytes (beNat (u @ take 4 (Sha256D cr u))) = u @ take 4 (Sha256D cr u)"
    unfolding u append_Cons by (rule natBytes_beNat)
  moreover have addr: "Uint168_ToAddress b58 cr u = Inr address"
    using assms(3) by (simp add: Uint168_ToAddress_def Let_def)
  ultimately have parsed: "Uint168FromAddress b58 cr address = Inr (Inr u)"
    using assms(1,4,5) by (simp add: Uint168FromAddress_def SetString_decimal Uint168FromBytes_def)
  have "u \<noteq> replicate 21 0" using assms(2) by auto
  with addr parsed show ?thesis by (auto simp: checkOutputProgramHash_def)
qed

theorem address_round_trip_witness:
  "Uint168FromAddress \<lparr>base58Encode = \<lambda>_. Inr (replicate 34 CHR ''E''),
      base58Decode = \<lambda>_. Inr (decimal (beNat (DestroyELAAddress @ take 4 (Sha256D plainCrypto DestroyELAAddress))))\<rparr>
    plainCrypto (replicate 34 CHR ''E'') = Inr (Inr DestroyELAAddress)"
  by (rule address_round_trip [of _ _ _ _, THEN conjunct2, THEN conjunct1]) (simp_all add: DestroyELAAddress_def)

subsection \<open>The share of the foundation\<close>


definition sampleCoinbase :: Transaction where
  "sampleCoinbase =
     \<lparr>tx_Version = 0, tx_TxType = TxType_CoinBase, tx_PayloadVersion = 0, tx_Payload = Some (PCoinBase []),
      tx_Attributes = [], tx_Inputs = [\<lparr>in_Previous = \<lparr>op_TxID = EmptyHash, op_Index = 0xFFFF\<rparr>, in_Sequence = 0xFFFFFFFF\<rparr>],
      tx_Outputs = [(pays plainCrypto 30)\<lparr>out_ProgramHash := mainNetFoundation\<rparr>, pays plainCrypto 71],
      tx_LockTime = 0, tx_Programs = [], tx_Fee = 0, tx_FeePerKB = 0\<rparr>"


end
