(* ===== verification/TxContext.thy ===== *)
theory TxContext
  imports TxCheck
begin

section \<open>A transaction on top of the chain: CheckTransactionContext\<close>

text \<open>
  \<^verbatim>\<open>CheckTransactionContext\<close> of \<^verbatim>\<open>blockchain/txvalidator.go\<close> with its checks in their order, and the
  checks of vote outputs. \<open>ChainState\<close> is what the checks read of the database, the consensus state and the
  council. The checks of the single transaction types (producers, council members and proposals, side
  chains, evidence) are an argument, \<open>checkType\<close>, of which nothing is assumed; which types end with theirs
  and which go on to the fee and the signatures is modelled, as is the check of side chain mining.

  The fee that the fee check stores in the transaction, and the order into which the signature check brings
  its programs, are read by nothing that follows in the check.
\<close>

record ChainState =
  IsTxHashDuplicate :: "Uint256 \<Rightarrow> bool"
  IsDoubleSpend :: "Transaction \<Rightarrow> bool"
  GetTransaction :: "Uint256 \<Rightarrow> string + Transaction"
  ExistProducerByDepositHash :: "Uint168 \<Rightarrow> bool"
  ExistCandidateByDepositHash :: "Uint168 \<Rightarrow> bool"
  GetOnDutyCrossChainArbitrator :: bytes
  ActiveProducerKeys :: "bytes list"
  PendingCanceledProducerKeys :: "bytes list"
  IsInVotingPeriod :: "u32 \<Rightarrow> bool"
  ActiveCandidateCIDs :: "Uint168 list"
  ImpeachableMemberCIDs :: "Uint168 list"
  IsProposalCRAgreed :: "Uint256 \<Rightarrow> bool"

subsection \<open>Side chain mining\<close>

definition CheckSideChainPowConsensus :: "Crypto \<Rightarrow> Transaction \<Rightarrow> bytes \<Rightarrow> check" where
  "CheckSideChainPowConsensus cr txn arbitrator =
     (case tx_Payload txn of
        Some (PSideChainPow p) \<Rightarrow>
          (case DecodePoint arbitrator of
             Inl err \<Rightarrow> Inr (Some err)
           | Inr publicKey \<Rightarrow>
               let buf = SideChainPow_Serialize 0 p in
               if length buf < 68 then Inl IndexOutOfRange
               else Inr (map_option ((@) ''Arbitrator is not matched. '')
                      (Verify cr publicKey (take 68 buf) (scp_Signature p))))
      | _ \<Rightarrow> Inr (Some ''Side mining transaction has invalid payload''))"

subsection \<open>Votes\<close>

definition totalVotes :: "VoteContent \<Rightarrow> Fixed64" where
  "totalVotes content = sum_list (map cv_Votes (vc_CandidateVotes content))"

definition checkVoteProducerContent :: "VoteContent \<Rightarrow> string set \<Rightarrow> u8 \<Rightarrow> Fixed64 \<Rightarrow> check" where
  "checkVoteProducerContent content pds payloadVersion amount =
     andThen (checkEach (\<lambda>cv. require (hexEncodeToString (cv_Candidate cv) \<in> pds)
         (''invalid vote output payload producer candidate: '' @ hexEncodeToString (cv_Candidate cv)))
         (vc_CandidateVotes content))
       (if payloadVersion \<ge> VoteProducerAndCRVersion
        then checkEach (\<lambda>cv. require (\<not> sint (cv_Votes cv) > sint amount) ''votes larger than output amount'')
          (vc_CandidateVotes content)
        else Inr None)"

definition checkVoteCRContent ::
  "BlockChain \<Rightarrow> ChainState \<Rightarrow> u32 \<Rightarrow> VoteContent \<Rightarrow> Uint168 set \<Rightarrow> u8 \<Rightarrow> Fixed64 \<Rightarrow> check" where
  "checkVoteCRContent b cs blockHeight content crs payloadVersion amount =
     andThen (require (IsInVotingPeriod cs blockHeight) ''cr vote tx must during voting period'')
    (andThen (require (\<not> payloadVersion < VoteProducerAndCRVersion) ''payload VoteProducerVersion not support vote CR'')
    (andThen (require (\<not> (blockHeight \<ge> cp_CheckVoteCRCountHeight (bc_chainParams b) \<and>
          length (vc_CandidateVotes content) > MaxVoteProducersPerTransaction)) ''invalid count of CR candidates '')
    (andThen (checkEach (\<lambda>cv.
          case Uint168FromBytes (cv_Candidate cv) of
            Inl _ \<Rightarrow> Inr (Some ''invalid vote output payload Candidate can not change to proper cid'')
          | Inr cid \<Rightarrow> require (cid \<in> crs) (''invalid vote output payload CR candidate: '' @ hexEncodeToString cid))
        (vc_CandidateVotes content))
      (require (\<not> sint (totalVotes content) > sint amount) ''total votes larger than output amount''))))"

definition Uint256FromBytes :: "bytes \<Rightarrow> string + Uint256" where
  "Uint256FromBytes f =
     (if length f \<noteq> 32 then Inl ''[Common]: Uint256ParseFromBytes err, len != 32'' else Inr f)"

definition checkVoteCRCProposalContent :: "ChainState \<Rightarrow> VoteContent \<Rightarrow> u8 \<Rightarrow> Fixed64 \<Rightarrow> check" where
  "checkVoteCRCProposalContent cs content payloadVersion amount =
     andThen (require (\<not> payloadVersion < VoteProducerAndCRVersion)
         ''payload VoteProducerVersion not support vote CRCProposal'')
       (checkEach (\<lambda>cv.
          andThen (require (\<not> sint (cv_Votes cv) > sint amount) ''votes larger than output amount'')
            (case Uint256FromBytes (cv_Candidate cv) of
               Inl err \<Rightarrow> Inr (Some err)
             | Inr proposalHash \<Rightarrow>
                 require (IsProposalCRAgreed cs proposalHash)
                   (''invalid CRCProposal: '' @ hexEncodeToString (cv_Candidate cv))))
          (vc_CandidateVotes content))"

definition checkCRImpeachmentContent :: "ChainState \<Rightarrow> VoteContent \<Rightarrow> u8 \<Rightarrow> Fixed64 \<Rightarrow> check" where
  "checkCRImpeachmentContent cs content payloadVersion amount =
     (let crMembersMap = set (map hexEncodeToString (ImpeachableMemberCIDs cs)) in
      andThen (require (\<not> payloadVersion < VoteProducerAndCRVersion)
          ''payload VoteProducerVersion not support vote CRCProposal'')
     (andThen (checkEach (\<lambda>cv. require (hexEncodeToString (cv_Candidate cv) \<in> crMembersMap)
          ''candidate should be one of the CR members'') (vc_CandidateVotes content))
        (require (\<not> sint (totalVotes content) > sint amount) ''total votes larger than output amount'')))"

definition checkVoteContent ::
  "BlockChain \<Rightarrow> ChainState \<Rightarrow> u32 \<Rightarrow> string set \<Rightarrow> Uint168 set \<Rightarrow> u8 \<Rightarrow> Fixed64 \<Rightarrow> VoteContent \<Rightarrow> check" where
  "checkVoteContent b cs blockHeight pds crs version amount content =
     (if vc_VoteType content = VoteType_Delegate then checkVoteProducerContent content pds version amount
      else if vc_VoteType content = VoteType_CRC then checkVoteCRContent b cs blockHeight content crs version amount
      else if vc_VoteType content = VoteType_CRCProposal then checkVoteCRCProposalContent cs content version amount
      else if vc_VoteType content = VoteType_CRCImpeachment then checkCRImpeachmentContent cs content version amount
      else Inr None)"

definition checkVoteOutputs ::
  "BlockChain \<Rightarrow> ChainState \<Rightarrow> (nat set \<Rightarrow> nat list) \<Rightarrow> u32 \<Rightarrow> Output list \<Rightarrow> (nat \<Rightarrow> Output option) \<Rightarrow> string set \<Rightarrow>
   Uint168 set \<Rightarrow> check" where
  "checkVoteOutputs b cs ordI blockHeight outputs references pds crs =
     (let programHashes = set (map out_ProgramHash (spentOutputs ordI references)) in
      checkEach (\<lambda>x.
        if out_Type x \<noteq> OTVote then Inr None
        else andThen (require (out_ProgramHash x \<in> programHashes)
            ''the output address of vote tx should exist in its input'')
          (case out_Payload x of
             Some (OVoteOutput votePayload) \<Rightarrow>
               checkEach (checkVoteContent b cs blockHeight pds crs (vo_Version votePayload) (out_Value x))
                 (vo_Contents votePayload)
           | _ \<Rightarrow> Inr (Some ''invalid vote output payload''))) outputs)"

subsection \<open>The check\<close>

text \<open>What is checked with: the libraries, the order of maps, and the checks of the transaction types.\<close>

record Validation =
  vd_Crypto :: Crypto
  vd_Counts :: CrossChainCounts
  vd_Sorting :: Sorting
  vd_ordI :: "nat set \<Rightarrow> nat list"
  vd_ordH :: "Uint168 set \<Rightarrow> Uint168 list"
  checkType :: "u32 \<Rightarrow> Transaction \<Rightarrow> (nat \<Rightarrow> Output option) \<Rightarrow> Fixed64 \<Rightarrow> (ErrCode \<times> string) option res"

text \<open>The types whose check ends with the one of their type.\<close>

definition endsWithType :: "Transaction \<Rightarrow> bool" where
  "endsWithType txn \<longleftrightarrow>
     tx_TxType txn \<in> {TxType_IllegalProposalEvidence, TxType_IllegalVoteEvidence, TxType_IllegalBlockEvidence,
       TxType_IllegalSidechainEvidence, TxType_InactiveArbitrators, TxType_UpdateVersion, TxType_ActivateProducer,
       TxType_CRCAppropriation} \<or>
     tx_TxType txn = TxType_SideChainPow \<and> IsNewSideChainPowTx txn"

definition checkFee ::
  "BlockChain \<Rightarrow> Validation \<Rightarrow> Transaction \<Rightarrow> (nat \<Rightarrow> Output option) \<Rightarrow> check" where
  "checkFee b vd txn references =
     bindR (checkTransactionFee b (vd_ordI vd) txn references) (\<lambda>r.
       case r of Inl err \<Rightarrow> Inr (Some err) | Inr _ \<Rightarrow> Inr None)"

definition checkSpending ::
  "BlockChain \<Rightarrow> ChainState \<Rightarrow> Validation \<Rightarrow> u32 \<Rightarrow> Transaction \<Rightarrow> (nat \<Rightarrow> Output option) \<Rightarrow> (ErrCode \<times> string) option res"
where
  "checkSpending b cs vd blockHeight txn references =
     andThen (Simple ErrTxBalance (checkFee b vd txn references))
    (andThen (Simple ErrTxInvalidInput (checkDestructionAddress (vd_ordI vd) references))
    (andThen (Simple ErrTxInvalidInput (checkTransactionDepositUTXO (vd_ordI vd) txn references))
    (andThen (Simple ErrTxInvalidInput (checkTransactionDepositOutpus (ExistProducerByDepositHash cs)
        (ExistCandidateByDepositHash cs) txn))
    (andThen (Simple ErrTxSignature (checkTransactionSignature (vd_Crypto vd) (vd_Counts vd) (vd_Sorting vd)
        (vd_ordI vd) (vd_ordH vd) txn references))
    (andThen (Simple ErrBlockIneffectiveCoinbase (checkInvalidUTXO b (GetTransaction cs) txn))
      (if tx_Version txn \<ge> TxVersion09 then
         (let producers = ActiveProducerKeys cs @
                (if blockHeight < PublicDPOSHeight_of b then PendingCanceledProducerKeys cs else []);
              candidates = (if IsInVotingPeriod cs blockHeight then ActiveCandidateCIDs cs else [])
          in Simple ErrTxInvalidOutput (checkVoteOutputs b cs (vd_ordI vd) blockHeight (tx_Outputs txn) references
               (set (map hexEncodeToString producers)) (set candidates)))
       else Inr None))))))"

definition CheckTransactionContext ::
  "BlockChain \<Rightarrow> ChainState \<Rightarrow> Validation \<Rightarrow> u32 \<Rightarrow> Transaction \<Rightarrow> (nat \<Rightarrow> Output option) \<Rightarrow> Fixed64 \<Rightarrow>
   (ErrCode \<times> string) option res"
where
  "CheckTransactionContext b cs vd blockHeight txn references proposalsUsedAmount =
     bindR (Transaction_Hash (Sha256D (vd_Crypto vd)) txn) (\<lambda>hash.
       andThen (require (\<not> IsTxHashDuplicate cs hash) (ErrTxDuplicate, []))
      (if IsCoinBaseTx txn then Inr None
       else andThen (require (\<not> IsDoubleSpend cs txn) (ErrTxDoubleSpend, []))
           (andThen (Simple ErrTxUTXOLocked (checkTransactionUTXOLock (vd_ordI vd) txn references))
           (andThen
             (if tx_TxType txn = TxType_SideChainPow
              then Simple ErrTxSidechainPowConsensus
                (CheckSideChainPowConsensus (vd_Crypto vd) txn (GetOnDutyCrossChainArbitrator cs))
              else checkType vd blockHeight txn references proposalsUsedAmount)
             (if endsWithType txn then Inr None else checkSpending b cs vd blockHeight txn references)))))"

subsection \<open>What an accepted transaction satisfies\<close>

lemma spentOutputs_in:
  assumes "ranges ordI" and "finite (dom references)" and "references i = Some out"
  shows "i \<in> set (ordI (dom references)) \<and> out \<in> set (spentOutputs ordI references)"
proof -
  have i: "i \<in> set (ordI (dom references))" using assms by auto
  with assms(3) show ?thesis by (force simp: spentOutputs_def)
qed

lemma context_parts:
  assumes "CheckTransactionContext b cs vd ht tx references used = Inr None" and "\<not> IsCoinBaseTx tx"
  shows "\<not> IsDoubleSpend cs tx" and "checkTransactionUTXOLock (vd_ordI vd) tx references = Inr None"
    and "\<not> endsWithType tx \<Longrightarrow> checkSpending b cs vd ht tx references = Inr None"
  using assms by (auto simp: CheckTransactionContext_def bindR_Inr_iff split: if_splits)

lemma checkFee_ok: "checkFee b vd tx references = Inr None \<longleftrightarrow> (\<exists>tx'. checkTransactionFee b (vd_ordI vd) tx references = Inr (Inr tx'))"
proof (cases "checkTransactionFee b (vd_ordI vd) tx references")
  case (Inr r)
  then show ?thesis by (cases r) (simp_all add: checkFee_def)
qed (simp add: checkFee_def)

lemma spending_parts:
  assumes "checkSpending b cs vd ht tx references = Inr None"
  shows "\<exists>tx'. checkTransactionFee b (vd_ordI vd) tx references = Inr (Inr tx')"
    and "checkDestructionAddress (vd_ordI vd) references = Inr None"
    and "checkTransactionDepositUTXO (vd_ordI vd) tx references = Inr None"
    and "checkTransactionSignature (vd_Crypto vd) (vd_Counts vd) (vd_Sorting vd) (vd_ordI vd) (vd_ordH vd) tx references = Inr None"
    and "checkInvalidUTXO b (GetTransaction cs) tx = Inr None"
  using assms by (simp_all add: checkSpending_def checkFee_ok)

text \<open>
  C18. Spending is authorised. Take a transaction that is not a coinbase, not of a type the check lets pass
  without a fee (evidence, inactive arbiters, version updates, activations, appropriations and the new form
  of side chain blocks) and not a withdrawal of a council proposal, whose signatures are never checked. When
  it passes the check against the chain, then it is not a double spend, its fee, in 64-bit arithmetic, is at
  least the smallest one allowed, and of every output it spends: its lock has run out, it is not at the
  destruction address, it is a deposit exactly when the transaction returns a deposit, and when its address
  is a standard or a deposit one, a program of the transaction has the code of the address and a signature of
  the transaction by the key in that code. Of sorting it is only used that it keeps the elements.
\<close>

theorem spending_authorised:
  assumes "CheckTransactionContext b cs vd ht tx references used = Inr None"
    and "\<not> IsCoinBaseTx tx" and "\<not> endsWithType tx" and "\<not> IsCRCProposalWithdrawTx tx"
    and "ranges (vd_ordI vd)" and "ranges (vd_ordH vd)" and "finite (dom references)"
    and "\<forall>hs. set (SortProgramHashByCodeHash (vd_Sorting vd) hs) = set hs"
    and "\<forall>ps. set (SortPrograms (vd_Sorting vd) ps) = set ps"
    and "references i = Some out"
  shows "\<not> IsDoubleSpend cs tx \<and>
    fixed (cp_MinTransactionFee (bc_chainParams b)) \<le> fixed (getTransactionFee (vd_ordI vd) tx references) \<and>
    (out_OutputLock out = 0 \<or> in_Sequence (tx_Inputs tx ! i) = 0xFFFFFFFE \<and> out_OutputLock out \<le> tx_LockTime tx) \<and>
    out_ProgramHash out \<noteq> DestroyELAAddress \<and>
    (GetPrefixType (out_ProgramHash out) = PrefixDeposit \<longleftrightarrow> IsReturnDepositCoin tx \<or> IsReturnCRDepositCoinTx tx) \<and>
    (GetPrefixType (out_ProgramHash out) \<in> {PrefixStandard, PrefixDeposit} \<longrightarrow>
      (\<exists>p \<in> set (tx_Programs tx). \<exists>pk.
        ToCodeHash (ripemd160sha256 (vd_Crypto vd)) (prog_Code p) = Uint168_ToCodeHash (out_ProgramHash out) \<and>
        DecodePoint (drop 1 (butlast (prog_Code p))) = Inr pk \<and>
        Verify (vd_Crypto vd) pk (fst (Transaction_SerializeUnsigned tx)) (drop 1 (prog_Parameter p)) = None))"
proof (intro conjI impI)
  note ctx = context_parts [OF assms(1,2)]
  note parts = spending_parts [OF ctx(3) [OF assms(3)]]
  note spent = spentOutputs_in [OF assms(5,7,10)]
  show "\<not> IsDoubleSpend cs tx" by (rule ctx(1))
  show "fixed (cp_MinTransactionFee (bc_chainParams b)) \<le> fixed (getTransactionFee (vd_ordI vd) tx references)"
    using parts(1) by (auto simp: checkTransactionFee_def isSmallThanMinTransactionFee_def Let_def split: if_splits)
  show "out_OutputLock out = 0 \<or> in_Sequence (tx_Inputs tx ! i) = 0xFFFFFFFE \<and> out_OutputLock out \<le> tx_LockTime tx"
    using ctx(2) spent assms(10)
    by (auto simp: checkTransactionUTXOLock_def Let_def not_less dest!: bspec [of _ _ i] split: if_splits)
  show "out_ProgramHash out \<noteq> DestroyELAAddress"
    using parts(2) spent by (auto simp: checkDestructionAddress_def)
  show "GetPrefixType (out_ProgramHash out) = PrefixDeposit \<longleftrightarrow> IsReturnDepositCoin tx \<or> IsReturnCRDepositCoinTx tx"
    using parts(3) spent by (auto simp: checkTransactionDepositUTXO_def split: if_splits)
  assume "GetPrefixType (out_ProgramHash out) \<in> {PrefixStandard, PrefixDeposit}"
  from spending_needs_signature [OF parts(4) assms(4-10) this]
  show "\<exists>p \<in> set (tx_Programs tx). \<exists>pk.
      ToCodeHash (ripemd160sha256 (vd_Crypto vd)) (prog_Code p) = Uint168_ToCodeHash (out_ProgramHash out) \<and>
      DecodePoint (drop 1 (butlast (prog_Code p))) = Inr pk \<and>
      Verify (vd_Crypto vd) pk (fst (Transaction_SerializeUnsigned tx)) (drop 1 (prog_Parameter p)) = None" .
qed

definition sampleChain :: ChainState where
  "sampleChain =
     \<lparr>IsTxHashDuplicate = \<lambda>_. False, IsDoubleSpend = \<lambda>_. False, GetTransaction = \<lambda>_. Inr sampleTx,
      ExistProducerByDepositHash = \<lambda>_. False, ExistCandidateByDepositHash = \<lambda>_. False,
      GetOnDutyCrossChainArbitrator = samplePoint, ActiveProducerKeys = [], PendingCanceledProducerKeys = [],
      IsInVotingPeriod = \<lambda>_. True, ActiveCandidateCIDs = [replicate 21 1, replicate 21 2, replicate 21 3],
      ImpeachableMemberCIDs = [], IsProposalCRAgreed = \<lambda>_. False\<rparr>"

definition sampleValidation :: Validation where
  "sampleValidation =
     \<lparr>vd_Crypto = sampleCrypto, vd_Counts = \<lparr>GetCrossChainArbitersCount = 12, GetCrossChainArbitersMajorityCount = 8\<rparr>,
      vd_Sorting = \<lparr>SortProgramHashByCodeHash = id, SortPrograms = id\<rparr>,
      vd_ordI = sorted_list_of_set, vd_ordH = sorted_list_of_set, checkType = \<lambda>_ _ _ _. Inr None\<rparr>"

lemma sampleSpend_sels:
  "tx_TxType sampleSpend = TxType_TransferAsset" "tx_Version sampleSpend = 9" "tx_Inputs sampleSpend = tx_Inputs sampleTx"
  "tx_Outputs sampleSpend = tx_Outputs sampleTx" "tx_LockTime sampleSpend = 0"
  by (simp_all add: sampleSpend_def sampleTx_def)

definition freeChain :: BlockChain where
  "freeChain = mainChain\<lparr>bc_chainParams := mainNetParams\<lparr>cp_MinTransactionFee := 0\<rparr>\<rparr>"

lemma sampleSpend_fee: "checkFee freeChain sampleValidation sampleSpend [0 \<mapsto> sampleOutput] = Inr None"
proof -
  have "snd (Transaction_Serialize sampleSpend) = None" "fst (Transaction_Serialize sampleSpend) \<noteq> []" by code_simp+
  then obtain bs where "Transaction_Serialize sampleSpend = (bs, None)" "bs \<noteq> []" by (metis prod.collapse)
  then show ?thesis
    by (simp add: checkFee_def checkTransactionFee_def isSmallThanMinTransactionFee_def getTransactionFee_def
        spentOutputs_def sampleValidation_def sampleSpend_sels sampleOutput_def freeChain_def) (simp add: sampleTx_def)
qed

lemma sampleSpend_context:
  "CheckTransactionContext freeChain sampleChain sampleValidation 700001 sampleSpend [0 \<mapsto> sampleOutput] 0 = Inr None"
proof -
  obtain bs where "Transaction_SerializeUnsigned sampleSpend = (bs, None)" using sampleSpend_writes by (metis prod.collapse)
  then have "\<exists>h. Transaction_Hash H sampleSpend = Inr h" for H by (simp add: Transaction_Hash_def)
  then obtain h where "Transaction_Hash (Sha256D (vd_Crypto sampleValidation)) sampleSpend = Inr h" by blast
  moreover have "checkSpending freeChain sampleChain sampleValidation 700001 sampleSpend [0 \<mapsto> sampleOutput] = Inr None"
  proof -
    have spent: "spentOutputs (vd_ordI sampleValidation) [0 \<mapsto> sampleOutput] = [sampleOutput]"
      by (simp add: spentOutputs_def sampleValidation_def)
    have "checkTransactionSignature (vd_Crypto sampleValidation) (vd_Counts sampleValidation) (vd_Sorting sampleValidation)
        (vd_ordI sampleValidation) (vd_ordH sampleValidation) sampleSpend [0 \<mapsto> sampleOutput] = Inr None"
      using sampleSpend_accepted by (simp add: sampleValidation_def)
    moreover have "checkInvalidUTXO freeChain (GetTransaction sampleChain) sampleSpend = Inr None"
      by (simp add: checkInvalidUTXO_def sampleChain_def) (simp add: sampleTx_def IsNewSideChainPowTx_def)
    moreover have "out_ProgramHash sampleOutput \<noteq> DestroyELAAddress" by code_simp
    moreover have "GetPrefixType (out_ProgramHash sampleOutput) = PrefixStandard"
        "tx_Outputs sampleTx = [x] \<Longrightarrow> GetPrefixType (out_ProgramHash x) = 4 \<and> out_Type x = OTNone" for x
      by (auto simp: sampleOutput_def GetPrefixType_def sampleTx_def)
    moreover obtain x where "tx_Outputs sampleTx = [x]" by (simp add: sampleTx_def)
    ultimately show ?thesis
      using sampleSpend_fee
      by (simp add: checkSpending_def checkDestructionAddress_def checkTransactionDepositUTXO_def
          checkTransactionDepositOutpus_def checkVoteOutputs_def spent sampleSpend_sels Let_def)
  qed
  ultimately show ?thesis
    by (simp add: CheckTransactionContext_def sampleSpend_sels checkTransactionUTXOLock_def)
      (simp add: sampleValidation_def sampleChain_def sampleOutput_def)
qed

theorem spending_authorised_witness:
  "\<exists>p \<in> set (tx_Programs sampleSpend). \<exists>pk. DecodePoint (drop 1 (butlast (prog_Code p))) = Inr pk \<and>
    Verify sampleCrypto pk (fst (Transaction_SerializeUnsigned sampleSpend)) (drop 1 (prog_Parameter p)) = None"
proof -
  have "\<not> endsWithType sampleSpend" by (simp add: endsWithType_def sampleSpend_sels)
  from spending_authorised [OF sampleSpend_context _ this, of 0 sampleOutput]
  show ?thesis
    by (simp add: sampleSpend_sels sampleValidation_def ranges_sorted)
      (auto simp: sampleOutput_def GetPrefixType_def)
qed

text \<open>
  C22. The votes of a council election can be made up: there are votes for three candidates that pass the
  check of the payload and the check against the chain for an output that is worth a single unit, and give
  one of them \<open>2 ^ 62\<close> votes, because the sum of the votes wraps around.
\<close>

theorem cr_votes_overflow:
  "\<exists>content. VoteOutput_Validate (Some \<lparr>vo_Version = VoteProducerAndCRVersion, vo_Contents = [content]\<rparr>) = None \<and>
     checkVoteContent mainChain sampleChain 700001 {} (set (ActiveCandidateCIDs sampleChain)) VoteProducerAndCRVersion 1 content = Inr None \<and>
     (\<exists>cv \<in> set (vc_CandidateVotes content). fixed (cv_Votes cv) \<ge> 2 ^ 62)"
proof -
  let ?content = "\<lparr>vc_VoteType = VoteType_CRC, vc_CandidateVotes =
    [\<lparr>cv_Candidate = replicate 21 1, cv_Votes = 0x7FFFFFFFFFFFFFFF\<rparr>, \<lparr>cv_Candidate = replicate 21 2, cv_Votes = 0x7FFFFFFFFFFFFFFF\<rparr>,
     \<lparr>cv_Candidate = replicate 21 3, cv_Votes = 3\<rparr>]\<rparr>"
  have "VoteOutput_Validate (Some \<lparr>vo_Version = VoteProducerAndCRVersion, vo_Contents = [?content]\<rparr>) = None"
    by code_simp
  moreover have "checkVoteContent mainChain sampleChain 700001 {} (set (ActiveCandidateCIDs sampleChain)) VoteProducerAndCRVersion 1 ?content = Inr None"
    by (simp add: checkVoteContent_def checkVoteCRContent_def sampleChain_def mainNetParams_def Uint168FromBytes_def totalVotes_def)
  ultimately show ?thesis by (intro exI [of _ ?content]) simp
qed

end
