(* ===== verification/AuxPow.thy ===== *)
theory AuxPow
  imports TxPayload
begin

section \<open>Merged mining: auxpow\<close>

text \<open>
  The proof of work of a block is that of a Bitcoin block which commits to it. Here are the codecs of the
  parts of such a proof (\<^verbatim>\<open>btctx.go\<close>, \<^verbatim>\<open>btcheader.go\<close>, \<^verbatim>\<open>auxpow.go\<close>) and \<^verbatim>\<open>AuxPow.Check\<close>, with the searches of the
  coinbase script in its hexadecimal form, as in the code. The digest (double SHA-256) is a parameter \<open>H\<close>.
\<close>

subsection \<open>Bitcoin transactions and headers\<close>

abbreviation MaxScriptSize :: u32 where "MaxScriptSize \<equiv> 10000"

record BtcOutPoint =
  btcop_Hash :: Uint256
  btcop_Index :: u32

record BtcTxIn =
  btcin_PreviousOutPoint :: BtcOutPoint
  btcin_SignatureScript :: bytes
  btcin_Sequence :: u32

record BtcTxOut =
  btcout_Value :: u64
  btcout_PkScript :: bytes

record BtcTx =
  btctx_Version :: u32
  btctx_TxIn :: "BtcTxIn list"
  btctx_TxOut :: "BtcTxOut list"
  btctx_LockTime :: u32

definition BtcReadOutPoint :: "BtcOutPoint reader" where
  "BtcReadOutPoint =
     rbind (ReadFull 32) (\<lambda>hash. rbind ReadUint32 (\<lambda>index. rret \<lparr>btcop_Hash = hash, btcop_Index = index\<rparr>))"

definition BtcWriteOutPoint :: "BtcOutPoint \<Rightarrow> bytes" where
  "BtcWriteOutPoint op = btcop_Hash op @ WriteUint32 (btcop_Index op)"

definition BtcReadTxIn :: "BtcTxIn reader" where
  "BtcReadTxIn =
     rbind BtcReadOutPoint (\<lambda>op.
     rbind (ReadVarBytes MaxScriptSize ''transaction input signature script'') (\<lambda>script.
     rbind ReadUint32 (\<lambda>sequence.
     rret \<lparr>btcin_PreviousOutPoint = op, btcin_SignatureScript = script, btcin_Sequence = sequence\<rparr>)))"

definition BtcWriteTxIn :: "BtcTxIn \<Rightarrow> bytes" where
  "BtcWriteTxIn ti =
     BtcWriteOutPoint (btcin_PreviousOutPoint ti) @ WriteVarBytes (btcin_SignatureScript ti) @
     WriteUint32 (btcin_Sequence ti)"

definition BtcReadTxOut :: "BtcTxOut reader" where
  "BtcReadTxOut =
     rbind ReadUint64 (\<lambda>val.
     rbind (ReadVarBytes MaxScriptSize ''transaction output public key script'') (\<lambda>script.
     rret \<lparr>btcout_Value = val, btcout_PkScript = script\<rparr>))"

definition BtcWriteTxOut :: "BtcTxOut \<Rightarrow> bytes" where
  "BtcWriteTxOut to = WriteUint64 (btcout_Value to) @ WriteVarBytes (btcout_PkScript to)"

definition BtcTx_Serialize :: "BtcTx \<Rightarrow> bytes" where
  "BtcTx_Serialize tx =
     WriteUint32 (btctx_Version tx) @ writeList BtcWriteTxIn (btctx_TxIn tx) @
     writeList BtcWriteTxOut (btctx_TxOut tx) @ WriteUint32 (btctx_LockTime tx)"

definition BtcTx_Deserialize :: "BtcTx reader" where
  "BtcTx_Deserialize =
     rbind ReadUint32 (\<lambda>version.
     rbind (readAppend BtcReadTxIn) (\<lambda>txIn.
     rbind (readAppend BtcReadTxOut) (\<lambda>txOut.
     rbind ReadUint32 (\<lambda>lockTime.
     rret \<lparr>btctx_Version = version, btctx_TxIn = txIn, btctx_TxOut = txOut, btctx_LockTime = lockTime\<rparr>))))"

definition BtcTx_Hash :: "(bytes \<Rightarrow> Uint256) \<Rightarrow> BtcTx \<Rightarrow> Uint256" where
  "BtcTx_Hash H tx = H (BtcTx_Serialize tx)"

definition NewBtcTx :: "BtcTxIn list \<Rightarrow> BtcTxOut list \<Rightarrow> BtcTx" where
  "NewBtcTx txIn txOut =
     \<lparr>btctx_Version = 1, btctx_TxIn = [] @ txIn, btctx_TxOut = [] @ txOut, btctx_LockTime = 0\<rparr>"

record BtcHeader =
  btc_Version :: u32
  btc_Previous :: Uint256
  btc_MerkleRoot :: Uint256
  btc_Timestamp :: u32
  btc_Bits :: u32
  btc_Nonce :: u32

definition BtcHeader_Serialize :: "BtcHeader \<Rightarrow> bytes" where
  "BtcHeader_Serialize bh =
     WriteUint32 (btc_Version bh) @ Uint256_Serialize (btc_Previous bh) @ Uint256_Serialize (btc_MerkleRoot bh) @
     WriteUint32 (btc_Timestamp bh) @ WriteUint32 (btc_Bits bh) @ WriteUint32 (btc_Nonce bh)"

definition BtcHeader_Deserialize :: "BtcHeader reader" where
  "BtcHeader_Deserialize =
     rbind ReadUint32 (\<lambda>version.
     rbind Uint256_Deserialize (\<lambda>previous.
     rbind Uint256_Deserialize (\<lambda>merkleRoot.
     rbind ReadUint32 (\<lambda>timestamp.
     rbind ReadUint32 (\<lambda>bits.
     rbind ReadUint32 (\<lambda>nonce.
     rret \<lparr>btc_Version = version, btc_Previous = previous, btc_MerkleRoot = merkleRoot,
           btc_Timestamp = timestamp, btc_Bits = bits, btc_Nonce = nonce\<rparr>))))))"

definition BtcHeader_Hash :: "(bytes \<Rightarrow> Uint256) \<Rightarrow> BtcHeader \<Rightarrow> Uint256" where
  "BtcHeader_Hash H bh = H (BtcHeader_Serialize bh)"

subsection \<open>The proof\<close>

record AuxPow =
  AuxMerkleBranch :: "Uint256 list"
  AuxMerkleIndex :: int
  ParCoinbaseTx :: BtcTx
  ParCoinBaseMerkle :: "Uint256 list"
  ParMerkleIndex :: int
  ParBlockHeader :: BtcHeader
  ParentHash :: Uint256

definition NewAuxPow ::
  "Uint256 list \<Rightarrow> int \<Rightarrow> BtcTx \<Rightarrow> Uint256 list \<Rightarrow> int \<Rightarrow> BtcHeader \<Rightarrow> AuxPow" where
  "NewAuxPow branch index tx merkle parIndex header =
     \<lparr>AuxMerkleBranch = branch, AuxMerkleIndex = index, ParCoinbaseTx = tx, ParCoinBaseMerkle = merkle,
      ParMerkleIndex = parIndex, ParBlockHeader = header, ParentHash = replicate 32 0\<rparr>"

definition AuxPow_Serialize :: "AuxPow \<Rightarrow> bytes" where
  "AuxPow_Serialize ap =
     BtcTx_Serialize (ParCoinbaseTx ap) @ Uint256_Serialize (ParentHash ap) @
     writeList Uint256_Serialize (ParCoinBaseMerkle ap) @ WriteUint32 (word_of_int (ParMerkleIndex ap)) @
     writeList Uint256_Serialize (AuxMerkleBranch ap) @ WriteUint32 (word_of_int (AuxMerkleIndex ap)) @
     BtcHeader_Serialize (ParBlockHeader ap)"

definition AuxPow_Deserialize :: "AuxPow reader" where
  "AuxPow_Deserialize =
     rbind BtcTx_Deserialize (\<lambda>tx.
     rbind Uint256_Deserialize (\<lambda>parentHash.
     rbind (readAppend Uint256_Deserialize) (\<lambda>merkle.
     rbind ReadUint32 (\<lambda>parIndex.
     rbind (readAppend Uint256_Deserialize) (\<lambda>branch.
     rbind ReadUint32 (\<lambda>index.
     rbind BtcHeader_Deserialize (\<lambda>header.
     rret \<lparr>AuxMerkleBranch = branch, AuxMerkleIndex = uint index, ParCoinbaseTx = tx,
           ParCoinBaseMerkle = merkle, ParMerkleIndex = uint parIndex, ParBlockHeader = header,
           ParentHash = parentHash\<rparr>)))))))"

fun merklePath :: "(bytes \<Rightarrow> Uint256) \<Rightarrow> Uint256 list \<Rightarrow> Uint256 \<Rightarrow> int \<Rightarrow> Uint256" where
  "merklePath H [] hash index = hash"
| "merklePath H (it # branch) hash index =
     merklePath H branch (if odd index then H (it @ hash) else H (hash @ it)) (index div 2)"

definition GetMerkleRoot :: "(bytes \<Rightarrow> Uint256) \<Rightarrow> Uint256 \<Rightarrow> Uint256 list \<Rightarrow> int \<Rightarrow> Uint256" where
  "GetMerkleRoot H hash merkleBranch index =
     (if index = -1 then replicate 32 0 else merklePath H merkleBranch hash index)"

text \<open>A shift of a 32-bit number by 32 or more is zero, and the remainder by zero panics.\<close>

definition GetExpectedIndex :: "u32 \<Rightarrow> int \<Rightarrow> nat \<Rightarrow> int res" where
  "GetExpectedIndex nonce chainID h =
     (let rand = nonce * 1103515245 + 12345;
          rand = rand + word_of_int chainID;
          rand = rand * 1103515245 + 12345;
          modulus = push_bit h (1 :: u32)
      in if modulus = 0 then Inl (PanicMsg ''integer divide by zero'') else Inr (uint (rand mod modulus)))"

text \<open>\<^verbatim>\<open>strings.Index\<close>: the first position, \<open>None\<close> for -1.\<close>

fun strIndex :: "string \<Rightarrow> string \<Rightarrow> nat option" where
  "strIndex [] sub = (if sub = [] then Some 0 else None)"
| "strIndex (c # s) sub =
     (if take (length sub) (c # s) = sub then Some 0 else map_option Suc (strIndex s sub))"

definition pchMergedMiningHeader :: bytes where
  "pchMergedMiningHeader = [0xfa, 0xbe, 0x6d, 0x6d]"

text \<open>The slices of the script panic when they reach behind its end.\<close>

definition scriptWord :: "bytes \<Rightarrow> nat \<Rightarrow> u32 res" where
  "scriptWord script i = (if length script < i + 4 then Inl IndexOutOfRange else Inr (getLE (take 4 (drop i script))))"

text \<open>What the coinbase script must hold: the root of the chain merkle tree behind the only merged mining header,
  then the size of the tree and the nonce that gives the position in it.\<close>

definition checkScript :: "bytes \<Rightarrow> Uint256 \<Rightarrow> nat \<Rightarrow> int \<Rightarrow> int \<Rightarrow> bool res" where
  "checkScript script auxRootHash merkleHeight auxMerkleIndex chainID =
     (let scriptStr = hexEncodeToString script;
          auxRootHashReverseStr = hexEncodeToString (rev auxRootHash);
          pchMergedMiningHeaderStr = hexEncodeToString pchMergedMiningHeader
      in case (strIndex scriptStr pchMergedMiningHeaderStr, strIndex scriptStr auxRootHashReverseStr) of
           (Some headerIndex, Some rootHashIndex) \<Rightarrow>
             if strIndex (drop (headerIndex + 2) scriptStr) pchMergedMiningHeaderStr \<noteq> None then Inr False
             else if headerIndex + length pchMergedMiningHeaderStr \<noteq> rootHashIndex then Inr False
             else let rootHashIndex = rootHashIndex + length auxRootHashReverseStr in
                  if int (length scriptStr) - int rootHashIndex < 8 then Inr False
                  else bindR (scriptWord script (rootHashIndex div 2)) (\<lambda>size.
                    if size \<noteq> push_bit merkleHeight 1 then Inr False
                    else bindR (scriptWord script (rootHashIndex div 2 + 4)) (\<lambda>nonce.
                      bindR (GetExpectedIndex nonce chainID merkleHeight) (\<lambda>index.
                      Inr (auxMerkleIndex = index))))
         | _ \<Rightarrow> Inr False)"

definition AuxPow_Check :: "(bytes \<Rightarrow> Uint256) \<Rightarrow> AuxPow \<Rightarrow> Uint256 \<Rightarrow> int \<Rightarrow> bool res" where
  "AuxPow_Check H ap hashAuxBlock chainID =
     (if GetMerkleRoot H (BtcTx_Hash H (ParCoinbaseTx ap)) (ParCoinBaseMerkle ap) (ParMerkleIndex ap) \<noteq>
         btc_MerkleRoot (ParBlockHeader ap)
      then Inr False
      else let auxRootHash = GetMerkleRoot H (rev hashAuxBlock) (AuxMerkleBranch ap) (AuxMerkleIndex ap) in
           case btctx_TxIn (ParCoinbaseTx ap) of
             [] \<Rightarrow> Inl IndexOutOfRange
           | ti # _ \<Rightarrow> checkScript (btcin_SignatureScript ti) auxRootHash (length (AuxMerkleBranch ap))
               (AuxMerkleIndex ap) chainID)"

subsection \<open>The codecs\<close>

definition BtcOutPoint_wf :: "BtcOutPoint \<Rightarrow> bool" where
  "BtcOutPoint_wf op \<longleftrightarrow> length (btcop_Hash op) = 32"

definition BtcTxIn_wf :: "BtcTxIn \<Rightarrow> bool" where
  "BtcTxIn_wf ti \<longleftrightarrow> BtcOutPoint_wf (btcin_PreviousOutPoint ti) \<and> length (btcin_SignatureScript ti) \<le> 10000"

definition BtcTxOut_wf :: "BtcTxOut \<Rightarrow> bool" where
  "BtcTxOut_wf to \<longleftrightarrow> length (btcout_PkScript to) \<le> 10000"

definition BtcTx_wf :: "BtcTx \<Rightarrow> bool" where
  "BtcTx_wf tx \<longleftrightarrow> slice_wf BtcTxIn_wf (btctx_TxIn tx) \<and> slice_wf BtcTxOut_wf (btctx_TxOut tx)"

definition BtcHeader_wf :: "BtcHeader \<Rightarrow> bool" where
  "BtcHeader_wf bh \<longleftrightarrow> length (btc_Previous bh) = 32 \<and> length (btc_MerkleRoot bh) = 32"

definition AuxPow_wf :: "AuxPow \<Rightarrow> bool" where
  "AuxPow_wf ap \<longleftrightarrow> BtcTx_wf (ParCoinbaseTx ap) \<and> length (ParentHash ap) = 32 \<and>
     slice_wf (\<lambda>u. length u = 32) (ParCoinBaseMerkle ap) \<and> ParMerkleIndex ap \<in> {0..<2 ^ 32} \<and>
     slice_wf (\<lambda>u. length u = 32) (AuxMerkleBranch ap) \<and> AuxMerkleIndex ap \<in> {0..<2 ^ 32} \<and>
     BtcHeader_wf (ParBlockHeader ap)"

interpretation btcOutPoint: canonical_codec BtcWriteOutPoint BtcReadOutPoint BtcOutPoint_wf
  by (unfold_locales, simp add: BtcWriteOutPoint_def BtcReadOutPoint_def BtcOutPoint_wf_def codec_simps,
      auto simp: BtcWriteOutPoint_def BtcReadOutPoint_def BtcOutPoint_wf_def decode_step ReadFull_Inr)

interpretation btcTxIn: canonical_codec BtcWriteTxIn BtcReadTxIn BtcTxIn_wf
  by (unfold_locales, simp add: BtcWriteTxIn_def BtcReadTxIn_def BtcTxIn_wf_def codec_simps btcOutPoint.dec_enc,
      auto simp: BtcWriteTxIn_def BtcReadTxIn_def BtcTxIn_wf_def decode_step btcOutPoint.dec_Inr_iff)

interpretation btcTxOut: canonical_codec BtcWriteTxOut BtcReadTxOut BtcTxOut_wf
  by (unfold_locales, simp add: BtcWriteTxOut_def BtcReadTxOut_def BtcTxOut_wf_def codec_simps,
      auto simp: BtcWriteTxOut_def BtcReadTxOut_def BtcTxOut_wf_def decode_step)

interpretation btcTx: canonical_codec BtcTx_Serialize BtcTx_Deserialize BtcTx_wf
  by (unfold_locales, simp add: BtcTx_Serialize_def BtcTx_Deserialize_def BtcTx_wf_def codec_simps
        btcTxIn.append_dec_enc btcTxOut.append_dec_enc,
      auto simp: BtcTx_Serialize_def BtcTx_Deserialize_def BtcTx_wf_def decode_step
        btcTxIn.append_dec_Inr_iff btcTxOut.append_dec_Inr_iff)

interpretation btcHeader: canonical_codec BtcHeader_Serialize BtcHeader_Deserialize BtcHeader_wf
  by (unfold_locales, simp add: BtcHeader_Serialize_def BtcHeader_Deserialize_def BtcHeader_wf_def codec_simps,
      auto simp: BtcHeader_Serialize_def BtcHeader_Deserialize_def BtcHeader_wf_def decode_step)

lemma uint_index: "0 \<le> i \<Longrightarrow> i < 2 ^ 32 \<Longrightarrow> uint (word_of_int i :: u32) = i"
  by (simp add: unsigned_of_int take_bit_int_eq_self)

lemma index_bound: "uint (w :: u32) < 2 ^ 32"
  using unsigned_less [of w, where 'a = int] by simp

interpretation auxPow: canonical_codec AuxPow_Serialize AuxPow_Deserialize AuxPow_wf
  by (unfold_locales, simp add: AuxPow_Serialize_def AuxPow_Deserialize_def AuxPow_wf_def codec_simps
        btcTx.dec_enc uint256.append_dec_enc uint_index btcHeader.dec_enc,
      auto simp: AuxPow_Serialize_def AuxPow_Deserialize_def AuxPow_wf_def decode_step
        btcTx.dec_Inr_iff uint256.append_dec_Inr_iff btcHeader.dec_Inr_iff index_bound [simplified])

subsection \<open>A proof is for one block\<close>

text \<open>The strings a path digests.\<close>

fun pathInputs :: "(bytes \<Rightarrow> Uint256) \<Rightarrow> Uint256 list \<Rightarrow> Uint256 \<Rightarrow> int \<Rightarrow> bytes set" where
  "pathInputs H [] hash index = {}"
| "pathInputs H (it # branch) hash index =
     (let pair = (if odd index then it @ hash else hash @ it) in
      insert pair (pathInputs H branch (H pair) (index div 2)))"

lemma length_merklePath:
  assumes "\<forall>it \<in> set branch. length it = 32" and "\<And>x. length x = 64 \<Longrightarrow> length (H x) = 32" and "length h = 32"
  shows "length (merklePath H branch h i) = 32"
  using assms by (induction branch arbitrary: h i) auto

lemma merklePath_binds:
  assumes "length branch = length branch'" and "\<forall>it \<in> set branch. length it = 32" and "\<forall>it \<in> set branch'. length it = 32"
    and "\<And>x. length x = 64 \<Longrightarrow> length (H x) = 32" and "length h = 32" and "length h' = 32"
    and "inj_on H (pathInputs H branch h i \<union> pathInputs H branch' h' i)"
    and "merklePath H branch h i = merklePath H branch' h' i"
  shows "h = h'"
  using assms
proof (induction branch branch' arbitrary: h h' i rule: list_induct2)
  case (Cons it branch it' branch')
  define x where "x = (if odd i then it @ h else h @ it)"
  define x' where "x' = (if odd i then it' @ h' else h' @ it')"
  note defs = x_def [symmetric] x'_def [symmetric]
  have len: "length x = 64" "length x' = 64" using Cons.prems by (auto simp: x_def x'_def)
  let ?P = "pathInputs H branch (H x) (i div 2)" and ?P' = "pathInputs H branch' (H x') (i div 2)"
  have inj: "inj_on H (insert x ?P \<union> insert x' ?P')"
    using Cons.prems(6) unfolding pathInputs.simps Let_def defs .
  have hash: "length (H x) = 32" "length (H x') = 32" using Cons.prems(3) len by blast+
  have branches: "\<forall>it \<in> set branch. length it = 32" "\<forall>it \<in> set branch'. length it = 32" using Cons.prems(1,2) by simp_all
  have "merklePath H branch (H x) (i div 2) = merklePath H branch' (H x') (i div 2)"
    using Cons.prems(7) by (simp add: x_def x'_def if_distrib)
  moreover have "inj_on H (?P \<union> ?P')" by (rule inj_on_subset [OF inj]) blast
  ultimately have "H x = H x'" using Cons.IH [OF branches Cons.prems(3) hash] by blast
  then have "x = x'" by (rule inj_onD [OF inj]) blast+
  moreover have "length it = 32" "length it' = 32" using Cons.prems(1,2) by simp_all
  ultimately show ?case using Cons.prems(4,5) unfolding x_def x'_def by (cases "odd i") simp_all
qed simp

lemma strIndex_Some: "strIndex s sub = Some i \<Longrightarrow> take (length sub) (drop i s) = sub"
  by (induction s arbitrary: i) (auto split: if_splits)

lemma push_bit_1_inject:
  assumes "push_bit m (1 :: u32) = push_bit n 1" and "push_bit m (1 :: u32) \<noteq> 0"
  shows "m = n"
proof -
  have u: "unat (push_bit k (1 :: u32)) = 2 ^ k mod 2 ^ 32" for k
  proof -
    have "push_bit k (1 :: u32) = word_of_nat (2 ^ k)" by (simp add: push_bit_eq_mult)
    then show ?thesis by (simp only: unat_of_nat) simp
  qed
  have small: "k < 32" if "(2 :: nat) ^ k mod 2 ^ 32 \<noteq> 0" for k
    using that le_imp_power_dvd [of 32 k "2 :: nat"] by (metis dvd_imp_mod_0 not_le)
  have e: "(2 :: nat) ^ m mod 2 ^ 32 = 2 ^ n mod 2 ^ 32" "(2 :: nat) ^ m mod 2 ^ 32 \<noteq> 0"
    using assms u by (metis, metis unat_eq_zero)
  then have "m < 32" "n < 32" using small by metis+
  then have "(2 :: nat) ^ m mod 2 ^ 32 = 2 ^ m" "(2 :: nat) ^ n mod 2 ^ 32 = 2 ^ n"
    by (metis mod_less one_less_numeral_iff power_strict_increasing semiring_norm(76))+
  with e(1) show ?thesis by simp
qed

text \<open>What a script that is accepted contains.\<close>

lemma checkScript_accepts:
  assumes "checkScript script root height index chainID = Inr True"
  obtains hi nonce where
    "strIndex (hexEncodeToString script) (hexEncodeToString pchMergedMiningHeader) = Some hi"
    and "take (2 * length root) (drop (hi + 8) (hexEncodeToString script)) = hexEncodeToString (rev root)"
    and "scriptWord script ((hi + 8 + 2 * length root) div 2) = Inr (push_bit height 1)"
    and "scriptWord script ((hi + 8 + 2 * length root) div 2 + 4) = Inr nonce"
    and "GetExpectedIndex nonce chainID height = Inr index"
proof -
  let ?s = "hexEncodeToString script" and ?h = "hexEncodeToString pchMergedMiningHeader"
    and ?r = "hexEncodeToString (rev root)"
  have len: "length ?h = 8" "length ?r = 2 * length root" by (simp_all add: pchMergedMiningHeader_def)
  obtain hi where h: "strIndex ?s ?h = Some hi"
    using assms by (auto simp: checkScript_def Let_def split: option.splits)
  moreover obtain ri where r: "strIndex ?s ?r = Some ri"
    using assms by (auto simp: checkScript_def Let_def split: option.splits)
  moreover have ri: "ri = hi + 8"
    using assms h r len by (auto simp: checkScript_def Let_def split: if_splits)
  moreover obtain nonce where "scriptWord script ((hi + 8 + 2 * length root) div 2) = Inr (push_bit height 1)"
    "scriptWord script ((hi + 8 + 2 * length root) div 2 + 4) = Inr nonce"
    "GetExpectedIndex nonce chainID height = Inr index"
    using assms h r len ri by (auto simp: checkScript_def Let_def split: if_splits)
  ultimately show thesis
    using that strIndex_Some [OF r] len(2) by metis
qed

lemma checkScript_unique:
  assumes "checkScript script root height index chainID = Inr True"
    and "checkScript script root' height' index' chainID = Inr True"
    and "length root = length root'"
  shows "root = root' \<and> height = height' \<and> index = index'"
proof -
  obtain hi nonce where a:
    "strIndex (hexEncodeToString script) (hexEncodeToString pchMergedMiningHeader) = Some hi"
    "take (2 * length root) (drop (hi + 8) (hexEncodeToString script)) = hexEncodeToString (rev root)"
    "scriptWord script ((hi + 8 + 2 * length root) div 2) = Inr (push_bit height 1)"
    "scriptWord script ((hi + 8 + 2 * length root) div 2 + 4) = Inr nonce"
    "GetExpectedIndex nonce chainID height = Inr index"
    by (rule checkScript_accepts [OF assms(1)])
  obtain hi' nonce' where b:
    "strIndex (hexEncodeToString script) (hexEncodeToString pchMergedMiningHeader) = Some hi'"
    "take (2 * length root') (drop (hi' + 8) (hexEncodeToString script)) = hexEncodeToString (rev root')"
    "scriptWord script ((hi' + 8 + 2 * length root') div 2) = Inr (push_bit height' 1)"
    "scriptWord script ((hi' + 8 + 2 * length root') div 2 + 4) = Inr nonce'"
    "GetExpectedIndex nonce' chainID height' = Inr index'"
    by (rule checkScript_accepts [OF assms(2)])
  have hi: "hi' = hi" using a(1) b(1) by simp
  have "hexEncodeToString (rev root) = hexEncodeToString (rev root')" using a(2) b(2) hi assms(3) by simp
  then have "root = root'" by simp
  moreover have "height = height'"
  proof (rule push_bit_1_inject)
    show "push_bit height (1 :: u32) = push_bit height' 1" using a(3) b(3) hi assms(3) by simp
    show "push_bit height (1 :: u32) \<noteq> 0" using a(5) by (auto simp: GetExpectedIndex_def Let_def split: if_splits)
  qed
  moreover have "nonce = nonce'" using a(4) b(4) hi assms(3) by simp
  ultimately show ?thesis using a(5) b(5) by simp
qed

lemma Check_script:
  assumes "AuxPow_Check H ap hash chainID = Inr True"
  obtains ti tis where "btctx_TxIn (ParCoinbaseTx ap) = ti # tis"
    and "checkScript (btcin_SignatureScript ti) (GetMerkleRoot H (rev hash) (AuxMerkleBranch ap) (AuxMerkleIndex ap))
      (length (AuxMerkleBranch ap)) (AuxMerkleIndex ap) chainID = Inr True"
  using assms by (auto simp: AuxPow_Check_def Let_def split: list.splits if_splits)

lemma expected_nonneg: "GetExpectedIndex nonce chainID h = Inr index \<Longrightarrow> 0 \<le> index"
  by (auto simp: GetExpectedIndex_def Let_def split: if_splits)

text \<open>
  C29. A proof of work is for one block: when the parent coinbase transaction of two accepted proofs is the
  same, and the digest does not collide on what their merkle paths digest, the two proofs are for the same
  block. The work of one parent block cannot be claimed for two blocks of this chain.
\<close>

theorem auxpow_no_reuse:
  assumes "AuxPow_Check H ap hash chainID = Inr True" and "AuxPow_Check H ap' hash' chainID = Inr True"
    and "ParCoinbaseTx ap' = ParCoinbaseTx ap" and "AuxPow_wf ap" and "AuxPow_wf ap'"
    and "length hash = 32" and "length hash' = 32"
    and "\<And>x. length x = 64 \<Longrightarrow> length (H x) = 32"
    and "inj_on H (pathInputs H (AuxMerkleBranch ap) (rev hash) (AuxMerkleIndex ap) \<union>
        pathInputs H (AuxMerkleBranch ap') (rev hash') (AuxMerkleIndex ap))"
  shows "hash = hash'"
proof -
  let ?root = "\<lambda>hash ap. GetMerkleRoot H (rev hash) (AuxMerkleBranch ap) (AuxMerkleIndex ap)"
  obtain ti tis where ti: "btctx_TxIn (ParCoinbaseTx ap) = ti # tis"
    and a: "checkScript (btcin_SignatureScript ti) (?root hash ap) (length (AuxMerkleBranch ap)) (AuxMerkleIndex ap) chainID = Inr True"
    by (rule Check_script [OF assms(1)])
  have b: "checkScript (btcin_SignatureScript ti) (?root hash' ap') (length (AuxMerkleBranch ap')) (AuxMerkleIndex ap') chainID = Inr True"
    using Check_script [OF assms(2)] ti assms(3) by (metis list.inject)
  have wf: "\<forall>it \<in> set (AuxMerkleBranch ap). length it = 32" "\<forall>it \<in> set (AuxMerkleBranch ap'). length it = 32"
    using assms(4,5) by (auto simp: AuxPow_wf_def list_wf_def)
  have pos: "AuxMerkleIndex ap \<noteq> -1" "AuxMerkleIndex ap' \<noteq> -1"
    using assms(4,5) by (auto simp: AuxPow_wf_def)
  then have root: "?root hash ap = merklePath H (AuxMerkleBranch ap) (rev hash) (AuxMerkleIndex ap)"
    "?root hash' ap' = merklePath H (AuxMerkleBranch ap') (rev hash') (AuxMerkleIndex ap')"
    by (simp_all add: GetMerkleRoot_def)
  have "length (?root hash ap) = 32" "length (?root hash' ap') = 32"
    unfolding root using wf assms(6-8) by (simp_all add: length_merklePath)
  then have "length (?root hash ap) = length (?root hash' ap')" by (rule trans [OF _ sym])
  from checkScript_unique [OF a b this]
  have u: "?root hash ap = ?root hash' ap'" "length (AuxMerkleBranch ap) = length (AuxMerkleBranch ap')"
      "AuxMerkleIndex ap = AuxMerkleIndex ap'" by blast+
  have same: "merklePath H (AuxMerkleBranch ap) (rev hash) (AuxMerkleIndex ap) =
      merklePath H (AuxMerkleBranch ap') (rev hash') (AuxMerkleIndex ap)"
    using trans [OF trans [OF root(1) [symmetric] u(1)] root(2)] by (simp only: u(3))
  have "rev hash = rev hash'"
    by (rule merklePath_binds [OF u(2) wf assms(8) _ _ assms(9) same]) (simp_all add: assms(6,7))
  then show ?thesis by simp
qed

text \<open>Proofs to run the check on: a coinbase with the given inputs, mined at the root of its own block.\<close>

definition sampleHeader :: "Uint256 \<Rightarrow> BtcHeader" where
  "sampleHeader root = \<lparr>btc_Version = 1, btc_Previous = replicate 32 0, btc_MerkleRoot = root,
     btc_Timestamp = 0, btc_Bits = 0, btc_Nonce = 0\<rparr>"

definition sampleScript :: "bytes \<Rightarrow> BtcTxIn" where
  "sampleScript script = \<lparr>btcin_PreviousOutPoint = \<lparr>btcop_Hash = replicate 32 0, btcop_Index = 0\<rparr>,
     btcin_SignatureScript = script, btcin_Sequence = 0\<rparr>"

definition sampleProof :: "(bytes \<Rightarrow> Uint256) \<Rightarrow> BtcTxIn list \<Rightarrow> Uint256 list \<Rightarrow> AuxPow" where
  "sampleProof H ins branch = NewAuxPow branch 0 (NewBtcTx ins []) [] 0 (sampleHeader (BtcTx_Hash H (NewBtcTx ins [])))"

lemma sampleProof_sels [simp]:
  "ParCoinbaseTx (sampleProof H ins branch) = NewBtcTx ins []"
  "AuxMerkleBranch (sampleProof H ins branch) = branch" "AuxMerkleIndex (sampleProof H ins branch) = 0"
  by (simp_all add: sampleProof_def NewAuxPow_def)

lemma sampleProof_wf:
  assumes "length (BtcTx_Hash H (NewBtcTx ins [])) = 32" and "length ins < 2 ^ 64" and "\<forall>i \<in> set ins. BtcTxIn_wf i"
    and "length branch < 2 ^ 64" and "\<forall>it \<in> set branch. length it = 32"
  shows "AuxPow_wf (sampleProof H ins branch)"
  using assms by (simp add: sampleProof_def NewAuxPow_def AuxPow_wf_def BtcTx_wf_def NewBtcTx_def sampleHeader_def
      BtcHeader_wf_def list_wf_def)

lemma sampleProof_Check:
  "AuxPow_Check H (sampleProof H ins branch) hash chainID =
    (case ins of [] \<Rightarrow> Inl IndexOutOfRange
     | ti # _ \<Rightarrow> checkScript (btcin_SignatureScript ti) (merklePath H branch (rev hash) 0) (length branch) 0 chainID)"
  by (simp add: sampleProof_def NewAuxPow_def AuxPow_Check_def GetMerkleRoot_def sampleHeader_def NewBtcTx_def
      split: list.splits)

definition usedScript :: bytes where
  "usedScript = pchMergedMiningHeader @ replicate 32 2 @ [2, 0, 0, 0] @ [0, 0, 0, 0]"

lemma usedScript_accepted: "checkScript usedScript (replicate 32 2) 1 0 1224 = Inr True"
  by code_simp

definition shortScript :: bytes where
  "shortScript = pchMergedMiningHeader @ replicate 32 0 @ [1, 0, 0, 0]"

lemma shortScript_eval:
  "strIndex (hexEncodeToString shortScript) (hexEncodeToString pchMergedMiningHeader) = Some 0"
  "strIndex (hexEncodeToString shortScript) (hexEncodeToString (rev (replicate 32 0))) = Some 8"
  "strIndex (drop (Suc (Suc 0)) (hexEncodeToString shortScript)) (hexEncodeToString pchMergedMiningHeader) = None"
  "scriptWord shortScript 36 = Inr 1" "scriptWord shortScript 40 = Inl IndexOutOfRange"
  "length pchMergedMiningHeader = 4" "length shortScript = 40"
  by code_simp+

lemma shortScript_panics: "checkScript shortScript (replicate 32 0) 0 0 chainID = Inl IndexOutOfRange"
  using shortScript_eval by (simp add: checkScript_def Let_def)

text \<open>
  C34. A malformed proof stops the node: whatever the digest, there are bytes that are read as a proof
  whose check panics for every block, because the coinbase transaction has no input; and bytes of a proof
  with an input whose script ends behind the size of the merkle tree, where the check reads the nonce. A
  block with such a proof needs no work, since the check comes before the one of the work.
\<close>

theorem auxpow_malformed_panics:
  assumes "\<forall>x. length (H x) = 32"
  shows "(\<exists>bs ap. AuxPow_Deserialize bs = Inr (ap, []) \<and>
      (\<forall>hash chainID. AuxPow_Check H ap hash chainID = Inl IndexOutOfRange)) \<and>
    (\<exists>bs ap. AuxPow_Deserialize bs = Inr (ap, []) \<and> btctx_TxIn (ParCoinbaseTx ap) \<noteq> [] \<and>
      (\<forall>chainID. AuxPow_Check H ap (replicate 32 0) chainID = Inl IndexOutOfRange))"
proof -
  have "BtcTxIn_wf (sampleScript shortScript)"
    by (simp add: BtcTxIn_wf_def BtcOutPoint_wf_def sampleScript_def shortScript_eval)
  then have "AuxPow_wf (sampleProof H [] [])" "AuxPow_wf (sampleProof H [sampleScript shortScript] [])"
    using assms by (simp_all add: sampleProof_wf BtcTx_Hash_def)
  then have "AuxPow_Deserialize (AuxPow_Serialize (sampleProof H [] [])) = Inr (sampleProof H [] [], [])"
    "AuxPow_Deserialize (AuxPow_Serialize (sampleProof H [sampleScript shortScript] [])) =
      Inr (sampleProof H [sampleScript shortScript] [], [])"
    by (simp_all add: auxPow.dec_enc_end)
  moreover have "AuxPow_Check H (sampleProof H [] []) hash chainID = Inl IndexOutOfRange" for hash chainID
    by (simp add: sampleProof_Check)
  moreover have "AuxPow_Check H (sampleProof H [sampleScript shortScript] []) (replicate 32 0) chainID = Inl IndexOutOfRange" for chainID
    using shortScript_panics by (simp add: sampleProof_Check sampleScript_def)
  moreover have "btctx_TxIn (ParCoinbaseTx (sampleProof H [sampleScript shortScript] [])) \<noteq> []"
    by (simp add: NewBtcTx_def)
  ultimately show ?thesis by blast
qed

theorem auxpow_malformed_panics_witness:
  "\<exists>bs ap. AuxPow_Deserialize bs = Inr (ap, []) \<and>
     (\<forall>hash chainID. AuxPow_Check (\<lambda>_. replicate 32 0) ap hash chainID = Inl IndexOutOfRange)"
  using auxpow_malformed_panics [of "\<lambda>_. replicate 32 0"] by simp

definition sampleDigest :: "bytes \<Rightarrow> Uint256" where
  "sampleDigest x = take 32 (x @ replicate 32 0)"

theorem auxpow_no_reuse_witness:
  "AuxPow_Check sampleDigest (sampleProof sampleDigest [sampleScript usedScript] [replicate 32 1]) (replicate 32 2) 1224 = Inr True \<and>
   AuxPow_Check sampleDigest (sampleProof sampleDigest [sampleScript usedScript] [replicate 32 1]) (replicate 32 3) 1224 \<noteq> Inr True"
proof -
  let ?p = "sampleProof sampleDigest [sampleScript usedScript] [replicate 32 1]"
  have len: "length (sampleDigest x) = 32" for x by (simp add: sampleDigest_def)
  have root: "sampleDigest (h @ replicate 32 1) = h" if "length h = 32" for h using that by (simp add: sampleDigest_def)
  have "length usedScript = 44" by code_simp
  then have wf: "AuxPow_wf ?p"
    using len by (intro sampleProof_wf) (simp_all add: BtcTx_Hash_def BtcTxIn_wf_def BtcOutPoint_wf_def sampleScript_def)
  have ok: "AuxPow_Check sampleDigest ?p (replicate 32 2) 1224 = Inr True"
    using usedScript_accepted root [of "replicate 32 2"] by (simp add: sampleProof_Check sampleScript_def)
  have "hash = replicate 32 2" if "length hash = 32" "AuxPow_Check sampleDigest ?p hash 1224 = Inr True" for hash
    by (rule auxpow_no_reuse [OF that(2) ok refl wf wf that(1)])
      (use that(1) len root in \<open>auto simp: inj_on_def\<close>)
  from this [of "replicate 32 3"] have "AuxPow_Check sampleDigest ?p (replicate 32 3) 1224 \<noteq> Inr True" by auto
  with ok show ?thesis by blast
qed

end
