(* ===== verification/Blocks.thy ===== *)
theory Blocks
  imports AuxPow Transaction
begin

section \<open>Blocks: core/types, crypto/merkletree.go\<close>

text \<open>
  Headers and blocks on the wire, with and without the confirmation of the consensus, the positions of the
  transactions in the bytes of a block, and the merkle tree of their hashes. The Go type \<^verbatim>\<open>DposBlock\<close> is the
  record \<open>DPOSBlock\<close>. A reader fills a fresh value.
\<close>

subsection \<open>Headers\<close>

record Header =
  h_Version :: u32
  h_Previous :: Uint256
  h_MerkleRoot :: Uint256
  h_Timestamp :: u32
  h_Bits :: u32
  h_Nonce :: u32
  h_Height :: u32
  h_AuxPow :: AuxPow

definition Header_SerializeNoAux :: "Header \<Rightarrow> bytes" where
  "Header_SerializeNoAux header = WriteElements
     [EUint32 (h_Version header), EUint256 (h_Previous header), EUint256 (h_MerkleRoot header),
      EUint32 (h_Timestamp header), EUint32 (h_Bits header), EUint32 (h_Nonce header), EUint32 (h_Height header)]"

definition Header_Serialize :: "Header \<Rightarrow> bytes" where
  "Header_Serialize header = Header_SerializeNoAux header @ AuxPow_Serialize (h_AuxPow header) @ [1]"

text \<open>The fields; the proof of a header that is read without one stays as it was.\<close>

definition Header_DeserializeNoAux :: "Header \<Rightarrow> Header reader" where
  "Header_DeserializeNoAux header =
     rbind ReadUint32 (\<lambda>version.
     rbind Uint256_Deserialize (\<lambda>previous.
     rbind Uint256_Deserialize (\<lambda>merkleRoot.
     rbind ReadUint32 (\<lambda>timestamp.
     rbind ReadUint32 (\<lambda>bits.
     rbind ReadUint32 (\<lambda>nonce.
     rbind ReadUint32 (\<lambda>height.
     rret (header\<lparr>h_Version := version, h_Previous := previous, h_MerkleRoot := merkleRoot,
       h_Timestamp := timestamp, h_Bits := bits, h_Nonce := nonce, h_Height := height\<rparr>))))))))"

definition emptyHeader :: Header where
  "emptyHeader = \<lparr>h_Version = 0, h_Previous = replicate 32 0, h_MerkleRoot = replicate 32 0, h_Timestamp = 0,
     h_Bits = 0, h_Nonce = 0, h_Height = 0,
     h_AuxPow = NewAuxPow [] 0 \<lparr>btctx_Version = 0, btctx_TxIn = [], btctx_TxOut = [], btctx_LockTime = 0\<rparr> [] 0
       \<lparr>btc_Version = 0, btc_Previous = replicate 32 0, btc_MerkleRoot = replicate 32 0, btc_Timestamp = 0,
        btc_Bits = 0, btc_Nonce = 0\<rparr>\<rparr>"

text \<open>\<^verbatim>\<open>r.Read(make([]byte, 1))\<close> with its result ignored: a byte is skipped if there is one.\<close>

definition skipByte :: "unit reader" where
  "skipByte r = Inr ((), drop 1 r)"

definition Header_Deserialize :: "Header reader" where
  "Header_Deserialize =
     rbind (Header_DeserializeNoAux emptyHeader) (\<lambda>header.
     rbind AuxPow_Deserialize (\<lambda>ap.
     rbind skipByte (\<lambda>_. rret (header\<lparr>h_AuxPow := ap\<rparr>))))"

definition Header_Hash :: "(bytes \<Rightarrow> Uint256) \<Rightarrow> Header \<Rightarrow> Uint256" where
  "Header_Hash H header = H (Header_SerializeNoAux header)"

definition Header_GetSize :: "Header \<Rightarrow> int" where
  "Header_GetSize header = int (length (Header_Serialize header))"

subsection \<open>Blocks\<close>

record Block =
  b_Header :: Header
  b_Transactions :: "Transaction list"

definition Block_Serialize :: "Block \<Rightarrow> written" where
  "Block_Serialize b =
     wseq (wok (Header_Serialize (b_Header b)))
    (wseq (wok (WriteUint32 (word_of_nat (length (b_Transactions b)))))
          (serAll (\<lambda>tx. wwrap ''Block item transaction serialize failed, '' (Transaction_Serialize tx)) (b_Transactions b)))"

definition Block_Deserialize :: "Block reader" where
  "Block_Deserialize =
     rbind (rwrap ''Block header deserialize failed, '' Header_Deserialize) (\<lambda>header.
     rbind (rwrap ''Block item transactions count deserialize failed.'' ReadUint32) (\<lambda>count.
     rbind (readN (unat count) (rwrap ''Block item transaction deserialize failed, '' Transaction_Deserialize)) (\<lambda>transactions.
     rret \<lparr>b_Header = header, b_Transactions = transactions\<rparr>)))"

record TxLoc =
  TxStart :: int
  TxLen :: int

text \<open>\<open>fullLen\<close> is the length of the buffer before anything was read.\<close>

fun readTxLocs :: "nat \<Rightarrow> nat \<Rightarrow> (Transaction \<times> TxLoc) list reader" where
  "readTxLocs fullLen 0 r = Inr ([], r)"
| "readTxLocs fullLen (Suc n) r =
     (let start = int fullLen - int (length r) in
      case Transaction_Deserialize r of
        Inl e \<Rightarrow> Inl e
      | Inr (tx, r') \<Rightarrow>
          (case readTxLocs fullLen n r' of
             Inl e \<Rightarrow> Inl e
           | Inr (rest, r'') \<Rightarrow>
               Inr ((tx, \<lparr>TxStart = start, TxLen = (int fullLen - int (length r')) - start\<rparr>) # rest, r'')))"

definition Block_DeserializeTxLoc :: "(Block \<times> TxLoc list) reader" where
  "Block_DeserializeTxLoc r =
     rbind Header_Deserialize (\<lambda>header.
     rbind (rwrap ''transactions count deserialize failed'' ReadUint32) (\<lambda>txCount.
     rbind (readTxLocs (length r) (unat txCount)) (\<lambda>txs.
     rret (\<lparr>b_Header = header, b_Transactions = map fst txs\<rparr>, map snd txs)))) r"

definition Block_TxLoc :: "Block \<Rightarrow> ((write_error + read_error) + TxLoc list)" where
  "Block_TxLoc b =
     (case Block_Serialize b of
        (buf, Some e) \<Rightarrow> Inl (Inl e)
      | (buf, None) \<Rightarrow>
          (case Block_DeserializeTxLoc buf of
             Inl (e, _) \<Rightarrow> Inl (Inr e)
           | Inr ((_, txLocs), _) \<Rightarrow> Inr txLocs))"

abbreviation InvalidBlockSize :: int where "InvalidBlockSize \<equiv> -1"

definition Block_GetSize :: "Block \<Rightarrow> int res" where
  "Block_GetSize b =
     (case Block_Serialize b of
        (buf, None) \<Rightarrow> Inr (int (length buf))
      | (buf, Some (WErr _)) \<Rightarrow> Inr InvalidBlockSize
      | (buf, Some WNilDereference) \<Rightarrow> Inl NilDereference)"

definition Block_Hash :: "(bytes \<Rightarrow> Uint256) \<Rightarrow> Block \<Rightarrow> Uint256" where
  "Block_Hash H b = Header_Hash H (b_Header b)"

subsection \<open>Confirmed blocks and headers\<close>

text \<open>\<^verbatim>\<open>Confirm\<close> is a pointer, nil when there is no confirmation.\<close>

record DPOSBlock =
  db_Block :: Block
  db_HaveConfirm :: bool
  db_Confirm :: "Confirm option"

definition DposBlock_Serialize :: "DPOSBlock \<Rightarrow> written" where
  "DposBlock_Serialize b =
     wseq (wwrap ''Block serialize failed,'' (Block_Serialize (db_Block b)))
    (wseq (wok (WriteElement (EBool (db_HaveConfirm b))))
          (if db_HaveConfirm b
           then case db_Confirm b of None \<Rightarrow> ([], Some WNilDereference) | Some confirm \<Rightarrow> wok (Confirm_Serialize confirm)
           else wok []))"

definition readBool :: "bool reader" where
  "readBool = rbind ReadUint8 (\<lambda>b. rret (b \<noteq> 0))"

definition DposBlock_Deserialize :: "DPOSBlock reader" where
  "DposBlock_Deserialize =
     rbind (rwrap ''Block dserialize failed,'' Block_Deserialize) (\<lambda>block.
     rbind (rwrap ''Confirm flag dserialize failed,'' readBool) (\<lambda>haveConfirm.
       if haveConfirm
       then rbind (rwrap ''Confirm serialize failed,'' Confirm_Deserialize) (\<lambda>confirm.
              rret \<lparr>db_Block = block, db_HaveConfirm = haveConfirm, db_Confirm = Some confirm\<rparr>)
       else rret \<lparr>db_Block = block, db_HaveConfirm = haveConfirm, db_Confirm = None\<rparr>))"

record DPOSHeader =
  dh_Header :: Header
  dh_HaveConfirm :: bool
  dh_Confirm :: Confirm

definition emptyConfirm :: Confirm where
  "emptyConfirm = \<lparr>confirm_Proposal = \<lparr>proposal_Sponsor = [], proposal_BlockHash = replicate 32 0,
     proposal_ViewOffset = 0, proposal_Sign = []\<rparr>, confirm_Votes = []\<rparr>"

definition DPOSHeader_Serialize :: "DPOSHeader \<Rightarrow> bytes" where
  "DPOSHeader_Serialize h =
     Header_Serialize (dh_Header h) @ WriteElement (EBool (dh_HaveConfirm h)) @
     (if dh_HaveConfirm h then Confirm_Serialize (dh_Confirm h) else [])"

definition DPOSHeader_Deserialize :: "DPOSHeader reader" where
  "DPOSHeader_Deserialize =
     rbind Header_Deserialize (\<lambda>header.
     rbind readBool (\<lambda>haveConfirm.
       if haveConfirm
       then rbind Confirm_Deserialize (\<lambda>confirm.
              rret \<lparr>dh_Header = header, dh_HaveConfirm = haveConfirm, dh_Confirm = confirm\<rparr>)
       else rret \<lparr>dh_Header = header, dh_HaveConfirm = haveConfirm, dh_Confirm = emptyConfirm\<rparr>))"

subsection \<open>Merkle trees\<close>

datatype MerkleTreeNode =
  MerkleTreeNode (node_hash: Uint256) (node_children: "(MerkleTreeNode \<times> MerkleTreeNode) option")

record MerkleTree =
  Depth :: nat
  Root :: MerkleTreeNode

definition IsLeaf :: "MerkleTreeNode \<Rightarrow> bool" where
  "IsLeaf t \<longleftrightarrow> node_children t = None"

definition generateLeaves :: "Uint256 list \<Rightarrow> MerkleTreeNode list" where
  "generateLeaves hashes = map (\<lambda>d. MerkleTreeNode d None) hashes"

definition ComputeParent :: "(bytes \<Rightarrow> Uint256) \<Rightarrow> Uint256 \<Rightarrow> Uint256 \<Rightarrow> Uint256" where
  "ComputeParent H left right = H (left @ right)"

fun levelUp :: "(bytes \<Rightarrow> Uint256) \<Rightarrow> MerkleTreeNode list \<Rightarrow> MerkleTreeNode list" where
  "levelUp H (l # r # nodes) =
     MerkleTreeNode (ComputeParent H (node_hash l) (node_hash r)) (Some (l, r)) # levelUp H nodes"
| "levelUp H [l] = [MerkleTreeNode (ComputeParent H (node_hash l) (node_hash l)) (Some (l, l))]"
| "levelUp H [] = []"

lemma length_levelUp: "length (levelUp H nodes) = (length nodes + 1) div 2"
  by (induction H nodes rule: levelUp.induct) auto

function treeLoop :: "(bytes \<Rightarrow> Uint256) \<Rightarrow> nat \<Rightarrow> MerkleTreeNode list \<Rightarrow> nat \<times> MerkleTreeNode list" where
  "treeLoop H height nodes = (if length nodes > 1 then treeLoop H (height + 1) (levelUp H nodes) else (height, nodes))"
  by auto
termination by (relation "measure (\<lambda>(H, height, nodes). length nodes)") (auto simp: length_levelUp)

declare treeLoop.simps [simp del]

definition NewMerkleTree :: "(bytes \<Rightarrow> Uint256) \<Rightarrow> Uint256 list \<Rightarrow> string + MerkleTree" where
  "NewMerkleTree H hashes =
     (if hashes = [] then Inl ''NewMerkleTree input no item error.''
      else case treeLoop H 1 (generateLeaves hashes) of
             (height, nodes) \<Rightarrow> Inr \<lparr>Depth = height, Root = hd nodes\<rparr>)"

definition ComputeRoot :: "(bytes \<Rightarrow> Uint256) \<Rightarrow> Uint256 list \<Rightarrow> string + Uint256" where
  "ComputeRoot H hashes =
     (if hashes = [] then Inl ''NewMerkleTree input no item error.''
      else if length hashes = 1 then Inr (hd hashes)
      else case NewMerkleTree H hashes of Inl e \<Rightarrow> Inl e | Inr tree \<Rightarrow> Inr (node_hash (Root tree)))"

subsection \<open>The round trip of a block\<close>

declare WriteElement.simps(7) [simp del]

definition Header_wf :: "Header \<Rightarrow> bool" where
  "Header_wf h \<longleftrightarrow> length (h_Previous h) = 32 \<and> length (h_MerkleRoot h) = 32 \<and> AuxPow_wf (h_AuxPow h)"

definition Block_wf :: "Block \<Rightarrow> bool" where
  "Block_wf b \<longleftrightarrow> Header_wf (b_Header b) \<and> (\<forall>tx \<in> set (b_Transactions b). Transaction_wf tx) \<and>
     length (b_Transactions b) < 2 ^ 32"

definition DPOSBlock_wf :: "DPOSBlock \<Rightarrow> bool" where
  "DPOSBlock_wf b \<longleftrightarrow> Block_wf (db_Block b) \<and>
     (if db_HaveConfirm b then \<exists>c. db_Confirm b = Some c \<and> Confirm_wf c else db_Confirm b = None)"

definition DPOSHeader_wf :: "DPOSHeader \<Rightarrow> bool" where
  "DPOSHeader_wf h \<longleftrightarrow> Header_wf (dh_Header h) \<and>
     (if dh_HaveConfirm h then Confirm_wf (dh_Confirm h) else dh_Confirm h = emptyConfirm)"

interpretation header: codec Header_Serialize Header_Deserialize Header_wf
  by unfold_locales
    (simp add: Header_Serialize_def Header_SerializeNoAux_def Header_Deserialize_def Header_DeserializeNoAux_def
      Header_wf_def codec_simps auxPow.dec_enc skipByte_def)

text \<open>What a header hash digests determines the header up to its proof.\<close>

lemma headerNoAux:
  "length (h_Previous h) = 32 \<Longrightarrow> length (h_MerkleRoot h) = 32 \<Longrightarrow>
   Header_DeserializeNoAux h' (Header_SerializeNoAux h @ r) = Inr (h\<lparr>h_AuxPow := h_AuxPow h'\<rparr>, r)"
  by (simp add: Header_SerializeNoAux_def Header_DeserializeNoAux_def codec_simps)

lemma readBool_enc [codec_simps]: "readBool (WriteElement (EBool b) @ r) = Inr (b, r)"
  using u8.dec_enc [of 1 r] u8.dec_enc [of 0 r] by (cases b) (simp_all add: readBool_def codec_simps)

lemma writes_bool: "writes (wok (WriteElement (EBool b))) readBool b"
  unfolding writes_def using readBool_enc by blast

interpretation wrapped_tx: checked_codec "\<lambda>tx. wwrap msg (Transaction_Serialize tx)"
    "rwrap msg' Transaction_Deserialize" Transaction_wf for msg msg'
  by unfold_locales (rule writes_wrap, rule writes_wwrap, rule transaction.ser_dec)

interpretation block: checked_codec Block_Serialize Block_Deserialize Block_wf
proof
  fix b assume wf: "Block_wf b"
  have count: "unat (word_of_nat (length (b_Transactions b)) :: u32) = length (b_Transactions b)"
    using wf by (simp add: Block_wf_def unat_of_nat)
  have "writes (Block_Serialize b) Block_Deserialize \<lparr>b_Header = b_Header b, b_Transactions = b_Transactions b\<rparr>"
    unfolding Block_Serialize_def Block_Deserialize_def
    using wf by (intro writes_bind [OF writes_wrap [OF header.checked.ser_dec]]
        writes_bind [OF writes_wrap [OF u32.checked.ser_dec]] writes_last)
      (simp_all add: Block_wf_def count wrapped_tx.serAll_ok)
  moreover have "\<lparr>b_Header = b_Header b, b_Transactions = b_Transactions b\<rparr> = b" by simp
  ultimately show "writes (Block_Serialize b) Block_Deserialize b" by (simp only:)
qed

interpretation dposBlock: checked_codec DposBlock_Serialize DposBlock_Deserialize DPOSBlock_wf
proof
  fix b assume wf: "DPOSBlock_wf b"
  show "writes (DposBlock_Serialize b) DposBlock_Deserialize b"
    unfolding DposBlock_Serialize_def DposBlock_Deserialize_def
  proof (intro writes_bind [OF writes_wrap [OF writes_wwrap [OF block.ser_dec]]]
      writes_bind [OF writes_wrap [OF writes_bool]])
    show "Block_wf (db_Block b)" using wf by (simp add: DPOSBlock_wf_def)
  next
    show "writes (if db_HaveConfirm b
           then case db_Confirm b of None \<Rightarrow> ([], Some WNilDereference) | Some confirm \<Rightarrow> wok (Confirm_Serialize confirm)
           else wok [])
        (if db_HaveConfirm b
         then rbind (rwrap ''Confirm serialize failed,'' Confirm_Deserialize) (\<lambda>confirm.
              rret \<lparr>db_Block = db_Block b, db_HaveConfirm = db_HaveConfirm b, db_Confirm = Some confirm\<rparr>)
         else rret \<lparr>db_Block = db_Block b, db_HaveConfirm = db_HaveConfirm b, db_Confirm = None\<rparr>) b"
      using wf confirm.dec_enc by (auto simp: DPOSBlock_wf_def writes_def codec_simps)
  qed
qed

interpretation dposHeader: codec DPOSHeader_Serialize DPOSHeader_Deserialize DPOSHeader_wf
  by unfold_locales
    (auto simp: DPOSHeader_Serialize_def DPOSHeader_Deserialize_def DPOSHeader_wf_def codec_simps
      header.dec_enc confirm.dec_enc simp del: WriteElement.simps)

text \<open>
  C31. A confirmed block survives the wire: a well-formed block, with its header, its proof of work, its
  transactions and the confirmation of the consensus, serialises without error and is read back unchanged.
\<close>

theorem block_round_trip:
  assumes "DPOSBlock_wf b"
  shows "\<exists>bs. DposBlock_Serialize b = (bs, None) \<and> (\<forall>r. DposBlock_Deserialize (bs @ r) = Inr (b, r))"
  using dposBlock.ser_dec [OF assms] by (simp add: writes_def)

subsection \<open>Where the transactions are\<close>

fun locsFrom :: "int \<Rightarrow> Transaction list \<Rightarrow> TxLoc list" where
  "locsFrom start [] = []"
| "locsFrom start (tx # txs) =
     (let len = int (length (fst (Transaction_Serialize tx))) in
      \<lparr>TxStart = start, TxLen = len\<rparr> # locsFrom (start + len) txs)"

lemma length_locsFrom [simp]: "length (locsFrom start txs) = length txs"
  by (induction txs arbitrary: start) (simp_all add: Let_def)

lemma writes_tx:
  assumes "Transaction_wf tx"
  shows "snd (Transaction_Serialize tx) = None"
    and "Transaction_Deserialize (fst (Transaction_Serialize tx) @ r) = Inr (tx, r)"
  using transaction.ser_dec [OF assms] by (auto simp: writes_def)

lemma readTxLocs_enc:
  assumes "\<forall>tx \<in> set txs. Transaction_wf tx"
  defines "bytes \<equiv> concat (map (\<lambda>tx. fst (Transaction_Serialize tx)) txs)"
  shows "readTxLocs fullLen (length txs) (bytes @ r) =
    Inr (zip txs (locsFrom (int fullLen - int (length (bytes @ r))) txs), r)"
  using assms(1) unfolding bytes_def
proof (induction txs)
  case (Cons tx txs)
  then show ?case by (simp add: writes_tx Let_def algebra_simps)
qed simp

lemma serAll_txs:
  assumes "\<forall>tx \<in> set txs. Transaction_wf tx"
  shows "serAll (\<lambda>tx. wwrap msg (Transaction_Serialize tx)) txs =
    (concat (map (\<lambda>tx. fst (Transaction_Serialize tx)) txs), None)"
  using assms
proof (induction txs)
  case (Cons tx txs)
  then have "wwrap msg (Transaction_Serialize tx) = (fst (Transaction_Serialize tx), None)"
    using writes_tx(1) [of tx] by (cases "Transaction_Serialize tx") simp
  with Cons show ?case by simp
qed simp

lemma locsFrom_slice:
  assumes "i < length txs" and "0 \<le> start" and "length pre = nat start"
  shows "take (nat (TxLen (locsFrom start txs ! i))) (drop (nat (TxStart (locsFrom start txs ! i)))
      (pre @ concat (map (\<lambda>tx. fst (Transaction_Serialize tx)) txs))) = fst (Transaction_Serialize (txs ! i))"
  using assms
proof (induction txs arbitrary: start pre i)
  case (Cons tx txs)
  let ?b = "fst (Transaction_Serialize tx)"
  show ?case
  proof (cases i)
    case 0
    then show ?thesis using Cons.prems by (simp add: Let_def)
  next
    case (Suc j)
    have "length (pre @ ?b) = nat (start + int (length ?b))" using Cons.prems by (simp add: nat_add_distrib)
    from Cons.IH [OF _ _ this, of j] Cons.prems Suc show ?thesis by (simp add: Let_def)
  qed
qed simp

lemma Block_TxLoc_wf:
  assumes "Block_wf b"
  shows "Block_TxLoc b = Inr (locsFrom (int (length (Header_Serialize (b_Header b))) + 4) (b_Transactions b))"
proof -
  let ?h = "Header_Serialize (b_Header b)" and ?n = "WriteUint32 (word_of_nat (length (b_Transactions b)))"
    and ?txs = "concat (map (\<lambda>tx. fst (Transaction_Serialize tx)) (b_Transactions b))"
  have wf: "Header_wf (b_Header b)" "\<forall>tx \<in> set (b_Transactions b). Transaction_wf tx" "length (b_Transactions b) < 2 ^ 32"
    using assms by (auto simp: Block_wf_def)
  have ser: "Block_Serialize b = (?h @ ?n @ ?txs, None)"
    by (simp add: Block_Serialize_def serAll_txs [OF wf(2)])
  have four: "length ?n = 4" by (simp add: WriteUint32_def)
  have "unat (word_of_nat (length (b_Transactions b)) :: u32) = length (b_Transactions b)"
    using wf(3) by (simp add: unat_of_nat)
  then have "Block_DeserializeTxLoc (?h @ ?n @ ?txs) =
      Inr ((b, locsFrom (int (length ?h) + 4) (b_Transactions b)), [])"
    using readTxLocs_enc [OF wf(2), of "length (?h @ ?n @ ?txs)" "[]"] four
    by (simp add: Block_DeserializeTxLoc_def codec_simps header.dec_enc [OF wf(1)] add.commute)
  then show ?thesis by (simp add: Block_TxLoc_def ser)
qed

text \<open>
  C32. The index of a block finds its transactions: for a well-formed block TxLoc gives as many locations as
  there are transactions, and the bytes of the block at the i-th location are those of its i-th
  transaction.
\<close>

theorem block_tx_locations:
  assumes "Block_wf b"
  shows "\<exists>bs locs. Block_Serialize b = (bs, None) \<and> Block_TxLoc b = Inr locs \<and>
    length locs = length (b_Transactions b) \<and>
    (\<forall>i < length locs. take (nat (TxLen (locs ! i))) (drop (nat (TxStart (locs ! i))) bs) =
       fst (Transaction_Serialize (b_Transactions b ! i)))"
proof -
  let ?pre = "Header_Serialize (b_Header b) @ WriteUint32 (word_of_nat (length (b_Transactions b)))"
  let ?start = "int (length (Header_Serialize (b_Header b))) + 4"
  have "Block_Serialize b = (?pre @ concat (map (\<lambda>tx. fst (Transaction_Serialize tx)) (b_Transactions b)), None)"
    using assms by (simp add: Block_wf_def Block_Serialize_def serAll_txs)
  moreover have "length ?pre = nat ?start" by (simp add: WriteUint32_def nat_add_distrib)
  ultimately show ?thesis
    using Block_TxLoc_wf [OF assms] locsFrom_slice [of _ "b_Transactions b" ?start ?pre]
    by (intro exI [of _ "?pre @ concat (map (\<lambda>tx. fst (Transaction_Serialize tx)) (b_Transactions b))"]
        exI [of _ "locsFrom ?start (b_Transactions b)"]) simp
qed

subsection \<open>What the merkle root commits to\<close>

text \<open>The tree by the hashes of its levels, and the strings it digests.\<close>

fun hashLevel :: "(bytes \<Rightarrow> Uint256) \<Rightarrow> Uint256 list \<Rightarrow> Uint256 list" where
  "hashLevel H (l # r # hs) = H (l @ r) # hashLevel H hs"
| "hashLevel H [l] = [H (l @ l)]"
| "hashLevel H [] = []"

fun levelInputs :: "Uint256 list \<Rightarrow> bytes set" where
  "levelInputs (l # r # hs) = insert (l @ r) (levelInputs hs)"
| "levelInputs [l] = {l @ l}"
| "levelInputs [] = {}"

lemma length_hashLevel [simp]: "length (hashLevel H hs) = (length hs + 1) div 2"
  by (induction H hs rule: hashLevel.induct) auto

function rootHash :: "(bytes \<Rightarrow> Uint256) \<Rightarrow> Uint256 list \<Rightarrow> Uint256" where
  "rootHash H hs = (if length hs > 1 then rootHash H (hashLevel H hs) else hd hs)"
  by auto
termination by (relation "measure (\<lambda>(H, hs). length hs)") auto

function merkleInputs :: "(bytes \<Rightarrow> Uint256) \<Rightarrow> Uint256 list \<Rightarrow> bytes set" where
  "merkleInputs H hs = (if length hs > 1 then levelInputs hs \<union> merkleInputs H (hashLevel H hs) else {})"
  by auto
termination by (relation "measure (\<lambda>(H, hs). length hs)") auto

declare rootHash.simps [simp del] merkleInputs.simps [simp del]

lemma hashLevel_Nil [simp]: "hashLevel H hs = [] \<longleftrightarrow> hs = []"
  by (cases "(H, hs)" rule: hashLevel.cases) simp_all

lemma levelUp_Nil [simp]: "levelUp H nodes = [] \<longleftrightarrow> nodes = []"
  by (cases "(H, nodes)" rule: levelUp.cases) simp_all

lemma levelUp_hashes: "map node_hash (levelUp H nodes) = hashLevel H (map node_hash nodes)"
  by (induction H nodes rule: levelUp.induct) (simp_all add: ComputeParent_def)

lemma treeLoop_root:
  "nodes \<noteq> [] \<Longrightarrow> node_hash (hd (snd (treeLoop H height nodes))) = rootHash H (map node_hash nodes)"
proof (induction H height nodes rule: treeLoop.induct)
  case (1 H height nodes)
  show ?case
  proof (cases "length nodes > 1")
    case True
    then have "levelUp H nodes \<noteq> []" by auto
    with 1 True show ?thesis
      by (subst treeLoop.simps, subst rootHash.simps) (simp add: levelUp_hashes)
  next
    case False
    with 1(2) show ?thesis by (subst treeLoop.simps, subst rootHash.simps) (simp add: hd_map)
  qed
qed

lemma ComputeRoot_rootHash:
  assumes "hs \<noteq> []"
  shows "ComputeRoot H hs = Inr (rootHash H hs)"
proof (cases "length hs = 1")
  case True
  then show ?thesis using assms by (simp add: ComputeRoot_def rootHash.simps)
next
  case False
  have "generateLeaves hs \<noteq> []" "map node_hash (generateLeaves hs) = hs"
    using assms by (simp_all add: generateLeaves_def comp_def)
  with False assms show ?thesis
    using treeLoop_root [of "generateLeaves hs" H 1]
    by (cases "treeLoop H 1 (generateLeaves hs)") (simp add: ComputeRoot_def NewMerkleTree_def)
qed

lemma hashLevel_binds:
  assumes "length hs = length hs'" and "\<forall>h \<in> set hs \<union> set hs'. length h = 32"
    and "inj_on H (levelInputs hs \<union> levelInputs hs')" and "hashLevel H hs = hashLevel H hs'"
  shows "hs = hs'"
  using assms
proof (induction hs arbitrary: hs' rule: levelInputs.induct)
  case (1 l r hs)
  then obtain l' r' hs2 where hs': "hs' = l' # r' # hs2" by (metis length_Suc_conv)
  have inj: "inj_on H (levelInputs hs \<union> levelInputs hs2)"
    by (rule inj_on_subset [OF 1(4)]) (auto simp: hs')
  have "l @ r = l' @ r'" by (rule inj_onD [OF 1(4)]) (use 1(5) in \<open>simp_all add: hs'\<close>)
  moreover have "length l = length l'" using 1(3) by (simp add: hs')
  moreover have "hs = hs2" using 1 inj by (intro 1(1)) (simp_all add: hs')
  ultimately show ?case using hs' by simp
next
  case (2 l)
  then obtain l' where hs': "hs' = [l']" by (metis length_0_conv length_Suc_conv)
  have "l @ l = l' @ l'" by (rule inj_onD [OF 2(3)]) (use 2(4) in \<open>simp_all add: hs'\<close>)
  moreover have "length l = length l'" using 2(2) by (simp add: hs')
  ultimately show ?case using hs' by simp
qed simp

lemma length_hashes:
  assumes "\<forall>h \<in> set hs. length h = 32" and "\<And>x. length x = 64 \<Longrightarrow> length (H x) = 32"
  shows "\<forall>h \<in> set (hashLevel H hs). length h = 32"
  using assms by (induction H hs rule: hashLevel.induct) auto

lemma rootHash_binds:
  assumes "length hs = length hs'" and "hs \<noteq> []" and "\<forall>h \<in> set hs. length h = 32" and "\<forall>h \<in> set hs'. length h = 32"
    and "\<And>x. length x = 64 \<Longrightarrow> length (H x) = 32"
    and "inj_on H (merkleInputs H hs \<union> merkleInputs H hs')" and "rootHash H hs = rootHash H hs'"
  shows "hs = hs'"
  using assms
proof (induction H hs arbitrary: hs' rule: rootHash.induct)
  case (1 H hs)
  show ?case
  proof (cases "length hs > 1")
    case True
    then have ins: "merkleInputs H hs = levelInputs hs \<union> merkleInputs H (hashLevel H hs)"
      "merkleInputs H hs' = levelInputs hs' \<union> merkleInputs H (hashLevel H hs')"
      using 1(2) by (simp_all add: merkleInputs.simps [of H hs] merkleInputs.simps [of H hs'])
    have root: "rootHash H (hashLevel H hs) = rootHash H (hashLevel H hs')"
      using True 1(2,8) by (simp add: rootHash.simps [of H hs] rootHash.simps [of H hs'])
    have inj: "inj_on H (merkleInputs H (hashLevel H hs) \<union> merkleInputs H (hashLevel H hs'))"
      "inj_on H (levelInputs hs \<union> levelInputs hs')"
      by (rule inj_on_subset [OF 1(7)], auto simp: ins)+
    have "length (hashLevel H hs) = length (hashLevel H hs')" "hashLevel H hs \<noteq> []" using 1(2,3) by simp_all
    then have "hashLevel H hs = hashLevel H hs'"
      using 1(1) [OF True _ _ length_hashes [OF 1(4,6)] length_hashes [OF 1(5,6)] 1(6) inj(1) root] by blast
    with hashLevel_binds [OF 1(2) _ inj(2)] 1(4,5) show ?thesis by blast
  next
    case False
    then obtain h where h: "hs = [h]" using 1(3) by (cases hs) auto
    then obtain h' where "hs' = [h']" using 1(2) by (cases hs') auto
    with h show ?thesis using 1(8) by (simp add: rootHash.simps)
  qed
qed

text \<open>An odd list is completed by its last hash.\<close>

lemma hashLevel_odd: "odd (length hs) \<Longrightarrow> hashLevel H (hs @ [last hs]) = hashLevel H hs"
  by (induction H hs rule: hashLevel.induct) auto

text \<open>
  C30. The merkle root commits to the transactions: for a digest that does not collide on what the two
  trees digest, two lists of as many hashes have the same root exactly when they are the same list. The
  number matters: an odd list and the same list with its last hash repeated have the same root, which is
  why a block with a repeated transaction has to be rejected before its root is compared.
\<close>

theorem merkle_root_commits:
  assumes "length hs = length hs'" and "hs \<noteq> []" and "\<forall>h \<in> set hs \<union> set hs'. length h = 32"
    and "\<And>x. length x = 64 \<Longrightarrow> length (H x) = 32" and "inj_on H (merkleInputs H hs \<union> merkleInputs H hs')"
  shows "(ComputeRoot H hs = ComputeRoot H hs' \<longleftrightarrow> hs = hs') \<and>
    (odd (length hs) \<and> length hs > 1 \<longrightarrow> ComputeRoot H (hs @ [last hs]) = ComputeRoot H hs)"
proof -
  have "hs' \<noteq> []" using assms(1,2) by auto
  then have roots: "ComputeRoot H hs = Inr (rootHash H hs)" "ComputeRoot H hs' = Inr (rootHash H hs')"
    "ComputeRoot H (hs @ [last hs]) = Inr (rootHash H (hs @ [last hs]))"
    using assms(2) by (simp_all add: ComputeRoot_rootHash)
  have "hs = hs'" if "rootHash H hs = rootHash H hs'"
    by (rule rootHash_binds [OF assms(1,2) _ _ assms(4,5) that]) (use assms(3) in simp_all)
  moreover have "rootHash H (hs @ [last hs]) = rootHash H hs" if "odd (length hs)" "length hs > 1"
    using that assms(2) by (simp add: rootHash.simps [of H hs] rootHash.simps [of H "hs @ [last hs]"] hashLevel_odd)
  ultimately show ?thesis unfolding roots by auto
qed

lemma sampleDigest_len: "length (sampleDigest x) = 32"
  by (simp add: sampleDigest_def)

theorem merkle_root_commits_witness:
  "ComputeRoot sampleDigest [replicate 32 1, replicate 32 2] \<noteq> ComputeRoot sampleDigest [replicate 32 3, replicate 32 2]"
proof -
  have "merkleInputs sampleDigest [a, b] = {a @ b}" for a b by (simp add: merkleInputs.simps)
  moreover have "sampleDigest (replicate 32 1 @ replicate 32 2) \<noteq> sampleDigest (replicate 32 3 @ replicate 32 2)"
    by code_simp
  ultimately have "inj_on sampleDigest (merkleInputs sampleDigest [replicate 32 1, replicate 32 2] \<union>
      merkleInputs sampleDigest [replicate 32 3, replicate 32 2])"
    by (auto simp: inj_on_def)
  then show ?thesis
    using merkle_root_commits [of "[replicate 32 1, replicate 32 2]" "[replicate 32 3, replicate 32 2]" sampleDigest]
      sampleDigest_len by simp
qed

definition sampleBlock :: Block where
  "sampleBlock = \<lparr>b_Header = emptyHeader\<lparr>h_Height := 5\<rparr>, b_Transactions = [sampleTx, sampleTx]\<rparr>"

lemma sampleBlock_wf: "Block_wf sampleBlock"
  using sampleTx_wf
  by (simp add: Block_wf_def sampleBlock_def Header_wf_def emptyHeader_def AuxPow_wf_def NewAuxPow_def BtcTx_wf_def
      BtcHeader_wf_def list_wf_def)

theorem block_tx_locations_witness:
  "\<exists>bs locs. Block_Serialize sampleBlock = (bs, None) \<and> Block_TxLoc sampleBlock = Inr locs \<and> length locs = 2 \<and>
    take (nat (TxLen (locs ! 1))) (drop (nat (TxStart (locs ! 1))) bs) = fst (Transaction_Serialize sampleTx)"
  using block_tx_locations [OF sampleBlock_wf] by (auto simp: sampleBlock_def)

theorem block_round_trip_witness:
  "\<exists>bs. DposBlock_Serialize \<lparr>db_Block = sampleBlock, db_HaveConfirm = True, db_Confirm = Some sampleConfirm\<rparr> = (bs, None) \<and>
    (\<forall>r. DposBlock_Deserialize (bs @ r) =
       Inr (\<lparr>db_Block = sampleBlock, db_HaveConfirm = True, db_Confirm = Some sampleConfirm\<rparr>, r))"
  by (rule block_round_trip)
    (simp add: DPOSBlock_wf_def sampleBlock_wf sampleConfirm_def Confirm_wf_def DPOSProposal_wf_def DPOSProposalVote_wf_def list_wf_def)

end
