(* ===== verification/Difficulty.thy ===== *)
theory Difficulty
  imports Curve "HOL-Library.Signed_Division"
begin

section \<open>Difficulty: blockchain/difficulty.go\<close>

text \<open>
  The compact form of a target (\<^verbatim>\<open>CompactToBig\<close>, \<^verbatim>\<open>BigToCompact\<close>), the work of a block, and the target
  the next block must have (\<^verbatim>\<open>CalcNextRequiredDifficulty\<close>). A \<^verbatim>\<open>*BlockNode\<close> is the list of the node and
  its ancestors along \<^verbatim>\<open>Parent\<close>, so nil is the empty list. A duration is its number of nanoseconds.
\<close>

subsection \<open>Compact targets\<close>

definition CompactToBig :: "u32 \<Rightarrow> int" where
  "CompactToBig compact =
     (let mantissa = compact AND 0x007fffff;
          isNegative = (compact AND 0x00800000 \<noteq> 0);
          exponent = unat (drop_bit 24 compact);
          bn = (if exponent \<le> 3 then uint (drop_bit (8 * (3 - exponent)) mantissa)
                else uint mantissa * 2 ^ (8 * (exponent - 3)))
      in if isNegative then - bn else bn)"

text \<open>\<^verbatim>\<open>Rsh\<close> of \<^verbatim>\<open>math/big\<close> rounds towards minus infinity; \<^verbatim>\<open>Bits()[0]\<close> is the low word of the absolute value.\<close>

definition BigToCompact :: "int \<Rightarrow> u32" where
  "BigToCompact n =
     (if n = 0 then 0
      else let exponent = length (beBytes n);
               mantissa = (if exponent \<le> 3 then push_bit (8 * (3 - exponent)) (word_of_int \<bar>n\<bar> :: u32)
                           else word_of_int \<bar>n div 2 ^ (8 * (exponent - 3))\<bar>);
               (mantissa, exponent) =
                 (if mantissa AND 0x00800000 \<noteq> 0 then (drop_bit 8 mantissa, exponent + 1)
                  else (mantissa, exponent));
               compact = ucast (push_bit 24 (word_of_nat exponent :: u64)) OR mantissa
           in if n < 0 then compact OR 0x00800000 else compact)"

definition HashToBig :: "Uint256 \<Rightarrow> int" where
  "HashToBig hash = beVal (rev hash)"

text \<open>\<^verbatim>\<open>Div\<close> of \<^verbatim>\<open>math/big\<close> is the Euclidean division, which panics on a zero divisor.\<close>

definition bigDiv :: "int \<Rightarrow> int \<Rightarrow> int res" where
  "bigDiv x y =
     (if y = 0 then Inl (PanicMsg ''division by zero'')
      else Inr (if y > 0 then x div y else - (x div (- y))))"

definition CalcWork :: "u32 \<Rightarrow> int" where
  "CalcWork bits =
     (let difficultyNum = CompactToBig bits in
      if difficultyNum \<le> 0 then 0 else 2 ^ 256 div (difficultyNum + 1))"

subsection \<open>Retargeting\<close>

record BlockNode =
  node_Hash :: Uint256
  node_ParentHash :: Uint256
  node_Height :: u32
  node_Version :: u32
  node_Bits :: u32
  node_Timestamp :: u32
  node_WorkSum :: int

record PowParams =
  PowLimit :: int
  PowLimitBits :: u32
  TargetTimespan :: int
  TargetTimePerBlock :: int
  AdjustmentFactor :: int

record Retarget =
  minRetargetTimespan :: int
  maxRetargetTimespan :: int
  blocksPerRetarget :: u32

abbreviation nanosPerSecond :: int where "nanosPerSecond \<equiv> 1000000000"

definition int64 :: "int \<Rightarrow> int" where
  "int64 x = signed_take_bit 63 x"

definition New_retarget :: "PowParams \<Rightarrow> Retarget res" where
  "New_retarget params =
     (let targetTimespan = TargetTimespan params sdiv nanosPerSecond;
          targetTimePerBlock = TargetTimePerBlock params sdiv nanosPerSecond;
          adjustmentFactor = AdjustmentFactor params in
      if adjustmentFactor = 0 \<or> targetTimePerBlock = 0 then Inl (PanicMsg ''integer divide by zero'')
      else Inr \<lparr>minRetargetTimespan = targetTimespan sdiv adjustmentFactor,
                maxRetargetTimespan = int64 (targetTimespan * adjustmentFactor),
                blocksPerRetarget = word_of_int (targetTimespan sdiv targetTimePerBlock)\<rparr>)"

definition CalcNextRequiredDifficulty :: "PowParams \<Rightarrow> Retarget \<Rightarrow> BlockNode list \<Rightarrow> (string + u32) res" where
  "CalcNextRequiredDifficulty params b chain =
     (case chain of
        [] \<Rightarrow> Inl NilDereference
      | prevNode # _ \<Rightarrow>
          if node_Height prevNode = 0 \<or> PowLimitBits params = 0x207fffff then Inr (Inr (PowLimitBits params))
          else if blocksPerRetarget b = 0 then Inl (PanicMsg ''integer divide by zero'')
          else if (node_Height prevNode + 1) mod blocksPerRetarget b \<noteq> 0 then Inr (Inr (node_Bits prevNode))
          else let height = node_Height prevNode - blocksPerRetarget b + 1 in
               if height > node_Height prevNode then Inr (Inl ''unable to obtain previous retarget block'')
               else case dropWhile (\<lambda>n. node_Height n \<noteq> height) chain of
                      [] \<Rightarrow> Inl NilDereference
                    | firstNode # _ \<Rightarrow>
                        (let actualTimespan = uint (node_Timestamp prevNode - node_Timestamp firstNode);
                             adjustedTimespan =
                               (if actualTimespan < minRetargetTimespan b then minRetargetTimespan b
                                else if actualTimespan > maxRetargetTimespan b then maxRetargetTimespan b
                                else actualTimespan);
                             oldTarget = CompactToBig (node_Bits prevNode);
                             targetTimeSpan = TargetTimespan params sdiv nanosPerSecond
                         in bindR (bigDiv (oldTarget * adjustedTimespan) targetTimeSpan) (\<lambda>newTarget.
                              Inr (Inr (BigToCompact
                                (if newTarget > PowLimit params then PowLimit params else newTarget))))))"

definition CalcCurrentDifficulty :: "PowParams \<Rightarrow> u32 \<Rightarrow> int res" where
  "CalcCurrentDifficulty params currentBits =
     bigDiv (CompactToBig (PowLimitBits params)) (CompactToBig currentBits)"

definition getNetworkHashPS :: "BlockNode list \<Rightarrow> int res" where
  "getNetworkHashPS chain =
     (case chain of
        [] \<Rightarrow> Inl NilDereference
      | tipNode # _ \<Rightarrow>
          (let below = (\<lambda>n. node_Height n \<noteq> node_Height tipNode - 120);
               times = map node_Timestamp (takeWhile below chain);
               minTime = fold min times (node_Timestamp tipNode);
               maxTime = fold max times (node_Timestamp tipNode)
           in if minTime = maxTime then Inr 0
              else let firstWorkSum = (case dropWhile below chain of [] \<Rightarrow> 0 | firstNode # _ \<Rightarrow> node_WorkSum firstNode)
                   in bigDiv (node_WorkSum tipNode - firstWorkSum) (uint (maxTime - minTime))))"

subsection \<open>The precision of compact targets\<close>

lemma pack:
  assumes "e < 256" and "0 \<le> m" and "m < 2 ^ 24"
  shows "(ucast (push_bit 24 (word_of_nat e :: u64)) OR word_of_int m :: u32) = word_of_int (int e * 2 ^ 24 + m)"
proof -
  have bits: "\<not> bit m i" if "24 \<le> i" for i
  proof -
    have "take_bit 24 m = m" using assms by (simp add: take_bit_int_eq_self_iff)
    then have "bit m i \<longleftrightarrow> i < 24 \<and> bit m i" by (metis bit_take_bit_iff)
    then show ?thesis using that by auto
  qed
  have "int e * 2 ^ 24 + m = push_bit 24 (int e) OR m"
  proof -
    have "push_bit 24 (int e) + m = push_bit 24 (int e) OR m"
      by (rule disjunctive_add_eq_or) (rule bit_eqI, use bits in \<open>auto simp: bit_simps\<close>)
    then show ?thesis by (simp add: push_bit_eq_mult)
  qed
  then have "(word_of_int (int e * 2 ^ 24 + m) :: u32) = word_of_int (push_bit 24 (int e)) OR word_of_int m"
    by (simp add: of_int_or_eq)
  moreover have "(ucast (push_bit 24 (word_of_nat e :: u64)) :: u32) = word_of_int (push_bit 24 (int e))"
    by (rule bit_word_eqI) (auto simp: bit_simps)
  ultimately show ?thesis by simp
qed

lemma uint_drop_bit: "uint (drop_bit k (w :: u32)) = uint w div 2 ^ k"
proof -
  have "take_bit LENGTH(32) (uint w) = uint w"
    using unsigned_less [of w, where 'a = int] by (intro take_bit_int_eq_self) simp_all
  then show ?thesis by (simp only: unsigned_drop_bit_eq drop_bit_eq_div [of k "uint w"])
qed

lemma mantissa_of:
  assumes "e < 256" and "0 \<le> m" and "m < 2 ^ 23" and w: "(w :: u32) = word_of_int (int e * 2 ^ 24 + m)"
  shows "uint (w AND 0x007fffff) = m" and "w AND 0x00800000 = 0" and "unat (drop_bit 24 w) = e"
proof -
  have "uint w = take_bit 32 (int e * 2 ^ 24 + m)" unfolding w by (subst uint_word_of_int) (simp add: take_bit_eq_mod)
  also have "\<dots> = int e * 2 ^ 24 + m" using assms(1-3) by (intro take_bit_int_eq_self) auto
  finally have u: "uint w = int e * 2 ^ 24 + m" .
  have "w AND 0x007fffff = take_bit 23 w" by (simp add: take_bit_eq_mask mask_eq_exp_minus_1)
  then have "uint (w AND 0x007fffff) = uint w mod 2 ^ 23"
    by (simp only: unsigned_take_bit_eq take_bit_eq_mod [of 23 "uint w"])
  also have "\<dots> = (m + 2 ^ 23 * (2 * int e)) mod 2 ^ 23" unfolding u by (simp add: algebra_simps)
  also have "\<dots> = m" using assms by (subst mod_mult_self2) (simp add: mod_pos_pos_trivial)
  finally show "uint (w AND 0x007fffff) = m" .
  have "\<not> bit (uint w) 23"
  proof -
    have "uint w div 2 ^ 23 = 2 * int e" using u assms by simp
    then show ?thesis by (simp add: bit_iff_odd)
  qed
  then have "\<not> bit w 23" by (simp add: bit_uint_iff)
  then have "w AND 2 ^ 23 = 0" by (simp only: and_exp_eq_0_iff_not_bit not_False_eq_True)
  then show "w AND 0x00800000 = 0" by simp
  have "uint (drop_bit 24 w) = uint w div 2 ^ 24" by (rule uint_drop_bit)
  also have "\<dots> = int e" using u assms by simp
  finally show "unat (drop_bit 24 w) = e" by (simp flip: nat_uint_eq)
qed

lemma CompactToBig_pack:
  assumes "e < 256" and "0 \<le> m" and "m < 2 ^ 23" and "(w :: u32) = word_of_int (int e * 2 ^ 24 + m)"
  shows "CompactToBig w = (if e \<le> 3 then m div 256 ^ (3 - e) else m * 256 ^ (e - 3))"
proof -
  note facts = mantissa_of [OF assms]
  have "uint (drop_bit k (w AND 0x007fffff)) = m div 2 ^ k" for k
    by (simp only: uint_drop_bit facts(1))
  then show ?thesis
    unfolding CompactToBig_def Let_def facts by (simp add: power_mult)
qed

text \<open>
  The significant bytes of a target: \<open>bytesOf n\<close> bytes, of which \<open>mantissaOf n\<close> holds the leading three;
  \<open>lost n\<close> bytes are lost.
\<close>

definition bytesOf :: "int \<Rightarrow> nat" where
  "bytesOf n = length (beBytes n)"

definition mantissaOf :: "int \<Rightarrow> int" where
  "mantissaOf n = (if bytesOf n \<le> 3 then n * 256 ^ (3 - bytesOf n) else n div 256 ^ (bytesOf n - 3))"

definition lost :: "int \<Rightarrow> nat" where
  "lost n = (if mantissaOf n < 2 ^ 23 then bytesOf n - 3 else bytesOf n - 2)"

lemma le_quotient: "0 < q \<Longrightarrow> m * q \<le> n \<Longrightarrow> m \<le> n div (q :: int)"
  using zdiv_mono1 [of "m * q" n q] by simp

lemma quotient_less: "0 < q \<Longrightarrow> n < m * q \<Longrightarrow> n div (q :: int) < m"
proof (rule ccontr)
  assume q: "0 < q" "n < m * q" and "\<not> n div q < m"
  then have "m * q \<le> n div q * q" by simp
  also have "\<dots> \<le> n" using q(1) by (metis div_mult_mod_eq le_add_same_cancel1 pos_mod_sign)
  finally show False using q(2) by simp
qed

lemma bytesOf_le: "0 < n \<Longrightarrow> bytesOf n \<le> k \<longleftrightarrow> n < 256 ^ k"
  by (simp add: bytesOf_def beBytes_def length_natBytes_le nat_less_iff)

lemma bytesOf_bounds:
  assumes "0 < n"
  shows "256 ^ (bytesOf n - 1) \<le> n" and "n < 256 ^ bytesOf n" and "0 < bytesOf n"
proof -
  note le = bytesOf_le [OF assms]
  show "n < 256 ^ bytesOf n" using le by blast
  show pos: "0 < bytesOf n" using le [of 0] assms by auto
  show "256 ^ (bytesOf n - 1) \<le> n" using le [of "bytesOf n - 1"] pos by linarith
qed

lemma mantissaOf_bounds:
  assumes "0 < n"
  shows "2 ^ 16 \<le> mantissaOf n" and "mantissaOf n < 2 ^ 24"
proof -
  let ?e = "bytesOf n"
  note b = bytesOf_bounds [OF assms]
  have "2 ^ 16 \<le> mantissaOf n \<and> mantissaOf n < 2 ^ 24"
  proof (cases "?e \<le> 3")
    case True
    then have "?e = 1 \<or> ?e = 2 \<or> ?e = 3" using b(3) by auto
    then show ?thesis using b by (auto simp: mantissaOf_def)
  next
    case False
    then obtain k where k: "?e = k + 3" by (metis add.commute le_Suc_ex nat_le_linear)
    have "256 ^ (k + 2) \<le> n" "n < 256 ^ (k + 3)" using b k by simp_all
    then have "2 ^ 16 * 256 ^ k \<le> n" "n < 2 ^ 24 * 256 ^ k" by (simp_all add: power_add)
    then have "2 ^ 16 \<le> n div 256 ^ k" "n div 256 ^ k < 2 ^ 24"
      by (simp_all add: le_quotient quotient_less)
    then show ?thesis using False k by (simp add: mantissaOf_def)
  qed
  then show "2 ^ 16 \<le> mantissaOf n" and "mantissaOf n < 2 ^ 24" by auto
qed

text \<open>\<^verbatim>\<open>BigToCompact\<close> of a positive number that fits packs the exponent and the leading bits.\<close>

lemma BigToCompact_pack:
  assumes "0 < n" and "bytesOf n < 255"
  defines "m \<equiv> mantissaOf n"
  shows "BigToCompact n =
    (if m < 2 ^ 23 then word_of_int (int (bytesOf n) * 2 ^ 24 + m)
     else word_of_int (int (bytesOf n + 1) * 2 ^ 24 + m div 256))"
proof -
  let ?e = "bytesOf n"
  note b = mantissaOf_bounds [OF assms(1), folded m_def]
  let ?w = "word_of_int m :: u32"
  have w: "(if ?e \<le> 3 then push_bit (8 * (3 - ?e)) (word_of_int \<bar>n\<bar> :: u32)
      else word_of_int \<bar>n div 2 ^ (8 * (?e - 3))\<bar>) = ?w"
  proof (cases "?e \<le> 3")
    case True
    then show ?thesis using assms(1) by (simp add: m_def mantissaOf_def push_bit_eq_mult power_mult)
  next
    case False
    then show ?thesis using assms(1) by (simp add: m_def mantissaOf_def power_mult pos_imp_zdiv_nonneg_iff)
  qed
  have u: "uint ?w = m"
  proof -
    have "uint ?w = take_bit 32 m" by (subst uint_word_of_int) (simp add: take_bit_eq_mod)
    then show ?thesis using b by (simp add: take_bit_int_eq_self)
  qed
  have bit: "?w AND 0x00800000 = 0 \<longleftrightarrow> m < 2 ^ 23"
  proof -
    have "?w AND 0x00800000 = 0 \<longleftrightarrow> \<not> bit ?w 23" using and_exp_eq_0_iff_not_bit [of ?w 23] by simp
    also have "\<dots> \<longleftrightarrow> even (m div 2 ^ 23)" using u bit_uint_iff [of ?w 23] by (simp add: bit_iff_odd)
    also have "m div 2 ^ 23 = (if m < 2 ^ 23 then 0 else 1)"
      using b int_div_pos_eq [of m "2 ^ 23" 1 "m - 2 ^ 23"] by (simp add: div_pos_pos_trivial)
    finally show ?thesis by simp
  qed
  have "uint (drop_bit 8 ?w) = m div 256" unfolding uint_drop_bit u by simp
  then have drop: "drop_bit 8 ?w = word_of_int (m div 256)" by (metis word_of_int_uint)
  show ?thesis
    using assms(1,2) b pack [of ?e m] pack [of "?e + 1" "m div 256"]
    by (simp add: BigToCompact_def Let_def w bit drop flip: bytesOf_def)
qed

lemma CompactToBig_BigToCompact:
  assumes "0 < n" and "bytesOf n < 255"
  shows "CompactToBig (BigToCompact n) = n div 256 ^ lost n * 256 ^ lost n"
proof -
  let ?e = "bytesOf n" and ?m = "mantissaOf n"
  note b = mantissaOf_bounds [OF assms(1)]
  note pos = bytesOf_bounds(3) [OF assms(1)]
  show ?thesis
  proof (cases "?m < 2 ^ 23")
    case True
    then have "CompactToBig (BigToCompact n) = (if ?e \<le> 3 then ?m div 256 ^ (3 - ?e) else ?m * 256 ^ (?e - 3))"
      using BigToCompact_pack [OF assms] assms(2) b by (intro CompactToBig_pack) auto
    then show ?thesis using True by (auto simp: mantissaOf_def lost_def)
  next
    case False
    have small: "?m div 256 < 2 ^ 23" using b by simp
    from False have c: "CompactToBig (BigToCompact n) =
        (if ?e + 1 \<le> 3 then ?m div 256 div 256 ^ (3 - (?e + 1)) else ?m div 256 * 256 ^ (?e + 1 - 3))"
      using BigToCompact_pack [OF assms] assms(2) b small by (intro CompactToBig_pack) auto
    consider "?e = 1" | "?e = 2" | k where "?e = k + 3"
    proof -
      have "?e = 1 \<or> ?e = 2 \<or> ?e = (?e - 3) + 3" using pos by linarith
      then show thesis using that by metis
    qed
    then show ?thesis
    proof cases
      case 3
      then have "?m = n div 256 ^ k" by (cases k) (simp_all add: mantissaOf_def)
      then have "?m div 256 = n div 256 ^ (k + 1)" 
        using zdiv_zmult2_eq [of 256 n "256 ^ k"] by (simp only: power_add power_one_right)
      then show ?thesis using 3 False c by (simp add: lost_def)
    qed (use c False in \<open>simp_all add: mantissaOf_def lost_def\<close>)
  qed
qed

lemma lost_nonzero:
  assumes "lost n \<noteq> 0"
  obtains j where "bytesOf n = j + 3" and "lost n = (if mantissaOf n < 2 ^ 23 then j else j + 1)"
  by (rule that [of "bytesOf n - 3"]) (use assms in \<open>simp_all add: lost_def split: if_splits\<close>)

lemma lost_small:
  assumes "0 < n" and "lost n \<noteq> 0"
  shows "2 ^ 15 * 256 ^ lost n \<le> n"
proof -
  let ?e = "bytesOf n" and ?m = "mantissaOf n"
  note b = bytesOf_bounds [OF assms(1)]
  show ?thesis
  proof (cases "?m < 2 ^ 23")
    case True
    then obtain k where k: "?e = k + 3" "lost n = k" using lost_nonzero [OF assms(2)] by metis
    then have "2 ^ 16 * 256 ^ k \<le> n" using b(1) by (simp add: power_add)
    moreover have "0 \<le> (256 :: int) ^ k" by simp
    ultimately show ?thesis using k(2) by (simp del: zero_le_power)
  next
    case False
    then obtain k where k: "?e = k + 3" "lost n = k + 1" using lost_nonzero [OF assms(2)] by metis
    have "2 ^ 23 * 256 ^ k \<le> n"
    proof (rule ccontr)
      assume "\<not> 2 ^ 23 * 256 ^ k \<le> n"
      then have "n div 256 ^ k < 2 ^ 23" by (intro quotient_less) simp_all
      with False k(1) show False by (cases k) (simp_all add: mantissaOf_def)
    qed
    then show ?thesis using k(2) by simp
  qed
qed

text \<open>What is lost does not show in the compact form.\<close>

lemma kept:
  assumes "0 < n" and "k < bytesOf n"
  defines "c \<equiv> n div 256 ^ k * 256 ^ k"
  shows "0 < c" and "bytesOf c = bytesOf n"
proof -
  let ?e = "bytesOf n"
  note b = bytesOf_bounds [OF assms(1)]
  have split: "(256 :: int) ^ (?e - 1) = 256 ^ (?e - 1 - k) * 256 ^ k" using assms(2) by (simp flip: power_add)
  have "256 ^ (?e - 1 - k) \<le> n div 256 ^ k" using b(1) split by (intro le_quotient) simp_all
  then have ge: "256 ^ (?e - 1) \<le> c" unfolding c_def split by (rule mult_right_mono) simp
  show pos: "0 < c" using ge by (meson less_le_trans zero_less_numeral zero_less_power)
  have "c \<le> n" unfolding c_def by (metis div_mult_mod_eq le_add_same_cancel1 pos_mod_sign zero_less_numeral zero_less_power)
  then have "bytesOf c \<le> ?e" using b(2) by (simp add: bytesOf_le [OF pos])
  moreover have "\<not> bytesOf c \<le> ?e - 1" using ge by (simp add: bytesOf_le [OF pos] del: One_nat_def)
  ultimately show "bytesOf c = ?e" by linarith
qed

lemma BigToCompact_lost:
  assumes "0 < n" and "bytesOf n < 255"
  shows "BigToCompact (n div 256 ^ lost n * 256 ^ lost n) = BigToCompact n"
proof (cases "lost n = 0")
  case False
  let ?e = "bytesOf n" and ?m = "mantissaOf n" and ?c = "n div 256 ^ lost n * 256 ^ lost n"
  obtain j where e: "?e = j + 3" and j: "lost n = (if ?m < 2 ^ 23 then j else j + 1)"
    using lost_nonzero [OF False] .
  have "lost n < ?e" using e j by (simp split: if_splits)
  note k = kept [OF assms(1) this]
  have m: "?m = n div 256 ^ j" using e by (cases j) (simp_all add: mantissaOf_def)
  have mc: "mantissaOf ?c = ?c div 256 ^ j" using e k(2) by (cases j) (simp_all add: mantissaOf_def)
  have "?c div 256 ^ j = (if ?m < 2 ^ 23 then ?m else ?m div 256 * 256)"
  proof (cases "?m < 2 ^ 23")
    case False
    have "?m div 256 = n div 256 ^ (j + 1)"
      unfolding m using zdiv_zmult2_eq [of 256 n "256 ^ j"] by (simp only: power_add power_one_right)
    then have "?c = (?m div 256 * 256) * 256 ^ j" using False j by (simp add: power_add)
    then show ?thesis using False by simp
  qed (use j m in simp)
  then have "mantissaOf ?c = (if ?m < 2 ^ 23 then ?m else ?m div 256 * 256)" using mc by simp
  moreover have "2 ^ 23 \<le> ?m div 256 * 256" if "\<not> ?m < 2 ^ 23" using that by simp
  ultimately show ?thesis
    using BigToCompact_pack [OF assms] BigToCompact_pack [OF k(1)] k(2) assms(2) by (auto split: if_splits)
qed simp

text \<open>
  C35. The compact form of a target loses less than one part in 2^15: for every positive target of fewer
  than 255 bytes, reading back its compact form gives a number that is at most the target and differs from
  it by less than that part of it, and whose compact form is the same.
\<close>

theorem compact_precision:
  assumes "0 < n" and "length (beBytes n) < 255"
  shows "CompactToBig (BigToCompact n) \<le> n \<and> 2 ^ 15 * (n - CompactToBig (BigToCompact n)) < n \<and>
    BigToCompact (CompactToBig (BigToCompact n)) = BigToCompact n"
proof -
  let ?k = "lost n"
  let ?c = "n div 256 ^ ?k * 256 ^ ?k"
  note e = assms(2) [folded bytesOf_def]
  have c: "CompactToBig (BigToCompact n) = ?c" by (rule CompactToBig_BigToCompact [OF assms(1) e])
  have gap: "n - ?c = n mod 256 ^ ?k" by (simp add: minus_div_mult_eq_mod)
  then have "?c \<le> n" by (metis diff_ge_0_iff_ge pos_mod_sign zero_less_numeral zero_less_power)
  moreover have "2 ^ 15 * (n - ?c) < n"
  proof (cases "?k = 0")
    case False
    have "2 ^ 15 * (n mod 256 ^ ?k) < 2 ^ 15 * 256 ^ ?k" by (intro mult_strict_left_mono pos_mod_bound) simp_all
    then show ?thesis using lost_small [OF assms(1) False] unfolding gap by (rule less_le_trans)
  qed (use assms(1) gap in simp)
  ultimately show ?thesis unfolding c using BigToCompact_lost [OF assms(1) e] by blast
qed

lemma beBytes_sample: "beBytes 0x7fff80ffff = [0x7f, 0xff, 0x80, 0xff, 0xff]"
  by (simp add: beBytes_def natBytes.simps)

theorem compact_precision_witness:
  "CompactToBig (BigToCompact 0x7fff80ffff) \<le> 0x7fff80ffff \<and>
    2 ^ 15 * (0x7fff80ffff - CompactToBig (BigToCompact 0x7fff80ffff)) < 0x7fff80ffff \<and>
    BigToCompact (CompactToBig (BigToCompact 0x7fff80ffff)) = BigToCompact 0x7fff80ffff"
  by (rule compact_precision) (simp_all add: beBytes_sample)

subsection \<open>The bounds of a retarget\<close>

text \<open>The node and its ancestors, with the heights counting down to the genesis block.\<close>

fun linked :: "BlockNode list \<Rightarrow> bool" where
  "linked [] \<longleftrightarrow> False"
| "linked [node] \<longleftrightarrow> node_Height node = 0"
| "linked (node # parent # rest) \<longleftrightarrow>
     node_Height node \<noteq> 0 \<and> node_Height node = node_Height parent + 1 \<and> linked (parent # rest)"

lemma height_pred:
  assumes "(h :: u32) \<noteq> 0" and "h = p + 1"
  shows "unat h = Suc (unat p)"
  using assms unatSuc [of p] by (simp add: add.commute)

lemma ancestor_at:
  assumes "linked chain" and "h \<le> node_Height (hd chain)"
  shows "dropWhile (\<lambda>n. node_Height n \<noteq> h) chain = drop (unat (node_Height (hd chain)) - unat h) chain \<and>
    unat (node_Height (hd chain)) - unat h < length chain"
  using assms
proof (induction chain rule: linked.induct)
  case (3 node parent rest)
  have n: "unat (node_Height node) = Suc (unat (node_Height parent))" using 3 by (auto intro: height_pred)
  show ?case
  proof (cases "node_Height node = h")
    case False
    then have "h < node_Height node" using 3(3) by simp
    then have "unat h < unat (node_Height node)" by (simp only: word_less_nat_alt)
    then have "h \<le> node_Height parent" using n by (simp add: word_le_nat_alt)
    with 3 False n show ?thesis by (simp add: word_le_nat_alt Suc_diff_le)
  qed simp
qed auto

lemma retarget_height:
  fixes H B :: u32
  assumes "B \<noteq> 0" and "(H + 1) mod B = 0"
  shows "H - B + 1 \<le> H" and "unat H - unat (H - B + 1) = unat B - 1"
proof -
  have pos: "0 < unat B" using assms(1) by (simp add: unat_gt_0)
  show le: "H - B + 1 \<le> H"
  proof (cases "H + 1 = 0")
    case True
    then have "H = - 1" by (simp add: eq_neg_iff_add_eq_0)
    then show ?thesis by (simp only: word_n1_ge)
  next
    case False
    then have h: "unat (H + 1) = Suc (unat H)" using unatSuc [of H] by (simp add: add.commute)
    have "unat B dvd unat (H + 1)" using assms(2) by (metis mod_eq_0_iff_dvd unat_mod unat_0)
    then have B: "unat B \<le> Suc (unat H)" unfolding h by (rule dvd_imp_le) simp
    have "unat (H + 1 - B) = Suc (unat H) - unat B" using B h by (subst unat_sub) (simp_all add: word_le_nat_alt)
    with pos have "unat (H + 1 - B) \<le> unat H" by simp
    then show ?thesis by (simp add: word_le_nat_alt algebra_simps)
  qed
  have "unat H - unat (H - B + 1) = unat (H - (H - B + 1))" using le by (rule unat_sub [symmetric])
  also have "H - (H - B + 1) = B - 1" by simp
  also have "unat (B - 1) = unat B - unat (1 :: u32)" using pos by (intro unat_sub) (simp add: word_le_nat_alt)
  finally show "unat H - unat (H - B + 1) = unat B - 1" by simp
qed

text \<open>The new target before its compact form, from the time the blocks took.\<close>

definition retarget :: "PowParams \<Rightarrow> Retarget \<Rightarrow> int \<Rightarrow> int \<Rightarrow> int" where
  "retarget params b oldTarget actual =
     min (PowLimit params)
       (oldTarget * max (minRetargetTimespan b) (min (maxRetargetTimespan b) actual) div
        (TargetTimespan params sdiv nanosPerSecond))"

lemma CalcNext_retarget:
  assumes "linked (prev # rest)" and "node_Height prev \<noteq> 0" and "PowLimitBits params \<noteq> 0x207fffff"
    and "blocksPerRetarget b \<noteq> 0" and "(node_Height prev + 1) mod blocksPerRetarget b = 0"
    and "0 < TargetTimespan params sdiv nanosPerSecond" and "minRetargetTimespan b \<le> maxRetargetTimespan b"
  defines "first \<equiv> (prev # rest) ! (unat (blocksPerRetarget b) - 1)"
  shows "CalcNextRequiredDifficulty params b (prev # rest) =
    Inr (Inr (BigToCompact (retarget params b (CompactToBig (node_Bits prev))
      (uint (node_Timestamp prev - node_Timestamp first)))))"
proof -
  let ?h = "node_Height prev - blocksPerRetarget b + 1"
  note h = retarget_height [OF assms(4,5)]
  have d: "dropWhile (\<lambda>n. node_Height n \<noteq> ?h) (prev # rest) = drop (unat (blocksPerRetarget b) - 1) (prev # rest)"
    "unat (blocksPerRetarget b) - 1 < length (prev # rest)"
    using ancestor_at [OF assms(1), of ?h] h by simp_all
  then have "dropWhile (\<lambda>n. node_Height n \<noteq> ?h) (prev # rest) =
      first # drop (Suc (unat (blocksPerRetarget b) - 1)) (prev # rest)"
    unfolding first_def by (metis Cons_nth_drop_Suc)
  then show ?thesis
    using assms(2-7) h(1) unfolding CalcNextRequiredDifficulty_def Let_def
    by (simp add: bigDiv_def retarget_def del: dropWhile.simps) 
qed

lemma New_retarget_spans:
  assumes "New_retarget params = Inr b"
    and "0 < TargetTimespan params sdiv nanosPerSecond" and "0 < AdjustmentFactor params"
    and "TargetTimespan params sdiv nanosPerSecond * AdjustmentFactor params < 2 ^ 32"
  defines "T \<equiv> TargetTimespan params sdiv nanosPerSecond"
  shows "minRetargetTimespan b = T div AdjustmentFactor params" and "maxRetargetTimespan b = T * AdjustmentFactor params"
proof -
  have "b = \<lparr>minRetargetTimespan = T sdiv AdjustmentFactor params,
                maxRetargetTimespan = int64 (T * AdjustmentFactor params),
                blocksPerRetarget = word_of_int (T sdiv (TargetTimePerBlock params sdiv nanosPerSecond))\<rparr>"
    using assms(1) by (auto simp: New_retarget_def Let_def T_def split: if_splits)
  moreover have "T sdiv AdjustmentFactor params = T div AdjustmentFactor params"
    using assms(2,3) by (simp add: signed_divide_int_def T_def)
  moreover have "int64 (T * AdjustmentFactor params) = T * AdjustmentFactor params"
  proof -
    have "0 < T * AdjustmentFactor params" unfolding T_def using assms(2,3) by (rule mult_pos_pos)
    then show ?thesis
      unfolding int64_def using assms(4) by (intro signed_take_bit_int_eq_self) (auto simp: T_def)
  qed
  ultimately show "minRetargetTimespan b = T div AdjustmentFactor params"
    and "maxRetargetTimespan b = T * AdjustmentFactor params" by simp_all
qed

lemma retarget_bounds:
  assumes "0 < T" and "0 < F" and "0 < oldTarget"
    and T: "TargetTimespan params sdiv nanosPerSecond = T"
    and "minRetargetTimespan b = T div F" and "maxRetargetTimespan b = T * F"
  shows "retarget params b oldTarget actual \<le> PowLimit params"
    and "retarget params b oldTarget actual \<le> F * oldTarget"
    and "retarget params b oldTarget actual = PowLimit params \<or>
      oldTarget * (T div F) div T \<le> retarget params b oldTarget actual"
    and "T * F \<le> actual \<Longrightarrow> retarget params b oldTarget actual = min (PowLimit params) (F * oldTarget)"
proof -
  define adj where "adj = max (T div F) (min (T * F) actual)"
  have ret: "retarget params b oldTarget actual = min (PowLimit params) (oldTarget * adj div T)"
    unfolding retarget_def adj_def using assms by simp
  have "T div F \<le> T div 1" using assms(1,2) by (intro zdiv_mono2) auto
  also have "\<dots> \<le> T * F" using assms(1,2) by simp
  finally have range: "T div F \<le> T * F" .
  have cancel: "oldTarget * (T * F) div T = F * oldTarget" using assms(1) by (simp add: algebra_simps)
  have "oldTarget * adj div T \<le> oldTarget * (T * F) div T"
    using assms(1,3) range unfolding adj_def by (intro zdiv_mono1 mult_left_mono) auto
  then show "retarget params b oldTarget actual \<le> F * oldTarget" unfolding ret cancel by simp
  have "oldTarget * (T div F) div T \<le> oldTarget * adj div T"
    using assms(1,3) unfolding adj_def by (intro zdiv_mono1 mult_left_mono) auto
  then show "retarget params b oldTarget actual = PowLimit params \<or>
      oldTarget * (T div F) div T \<le> retarget params b oldTarget actual" unfolding ret by (auto simp: min_def)
  show "retarget params b oldTarget actual \<le> PowLimit params" unfolding ret by simp
  show "retarget params b oldTarget actual = min (PowLimit params) (F * oldTarget)" if "T * F \<le> actual"
  proof -
    have "adj = T * F" using that range unfolding adj_def by simp
    then show ?thesis unfolding ret using cancel by simp
  qed
qed

text \<open>
  C36. The difficulty moves by at most the adjustment factor: at a retarget height the node returns the
  compact form of a target that does not exceed the limit of the network, is at most the factor times the
  old target, and is at least the old one divided by the factor (unless it is the limit). When the last
  block of the period carries an earlier time than the first one, the difference of the two unsigned
  times wraps around, and the difficulty falls as if the period had been too long.
\<close>

theorem difficulty_retarget_bounded:
  assumes "New_retarget params = Inr b"
    and "0 < TargetTimespan params sdiv nanosPerSecond" and "0 < AdjustmentFactor params"
    and "TargetTimespan params sdiv nanosPerSecond * AdjustmentFactor params < 2 ^ 32"
    and "linked (prev # rest)" and "node_Height prev \<noteq> 0" and "PowLimitBits params \<noteq> 0x207fffff"
    and "blocksPerRetarget b \<noteq> 0" and "(node_Height prev + 1) mod blocksPerRetarget b = 0"
    and "0 < CompactToBig (node_Bits prev)"
  shows "\<exists>target. CalcNextRequiredDifficulty params b (prev # rest) = Inr (Inr (BigToCompact target)) \<and>
    target \<le> PowLimit params \<and>
    target \<le> AdjustmentFactor params * CompactToBig (node_Bits prev) \<and>
    (target = PowLimit params \<or>
     CompactToBig (node_Bits prev) * (TargetTimespan params sdiv nanosPerSecond div AdjustmentFactor params) div
       (TargetTimespan params sdiv nanosPerSecond) \<le> target) \<and>
    (TargetTimespan params sdiv nanosPerSecond * AdjustmentFactor params \<le>
       uint (node_Timestamp prev - node_Timestamp ((prev # rest) ! (unat (blocksPerRetarget b) - 1))) \<longrightarrow>
     target = min (PowLimit params) (AdjustmentFactor params * CompactToBig (node_Bits prev)))"
proof -
  note spans = New_retarget_spans [OF assms(1-4)]
  note bounds = retarget_bounds [OF assms(2,3,10) refl spans]
  let ?T = "TargetTimespan params sdiv nanosPerSecond"
  have "?T div AdjustmentFactor params \<le> ?T div 1" using assms(2,3) by (intro zdiv_mono2) auto
  also have "\<dots> \<le> ?T * AdjustmentFactor params" using assms(2,3) by simp
  finally have "minRetargetTimespan b \<le> maxRetargetTimespan b" unfolding spans .
  from CalcNext_retarget [OF assms(5-9,2) this] bounds show ?thesis by blast
qed

definition samplePow :: PowParams where
  "samplePow = \<lparr>PowLimit = 2 ^ 240, PowLimitBits = 0x1f010000, TargetTimespan = 2 * nanosPerSecond,
     TargetTimePerBlock = nanosPerSecond, AdjustmentFactor = 4\<rparr>"

definition sampleNode :: "u32 \<Rightarrow> u32 \<Rightarrow> BlockNode" where
  "sampleNode ht tm = \<lparr>node_Hash = [], node_ParentHash = [], node_Height = ht, node_Version = 0,
     node_Bits = 0x04001000, node_Timestamp = tm, node_WorkSum = 0\<rparr>"

lemma sampleRetarget: "New_retarget samplePow =
    Inr \<lparr>minRetargetTimespan = 0, maxRetargetTimespan = 8, blocksPerRetarget = 2\<rparr>"
  by (simp add: New_retarget_def samplePow_def signed_divide_int_def int64_def signed_take_bit_int_eq_self)

theorem difficulty_retarget_bounded_witness:
  "\<exists>target. CalcNextRequiredDifficulty samplePow \<lparr>minRetargetTimespan = 0, maxRetargetTimespan = 8, blocksPerRetarget = 2\<rparr>
      [sampleNode 1 100, sampleNode 0 101] = Inr (Inr (BigToCompact target)) \<and> target = 4 * CompactToBig 0x04001000"
proof -
  have c: "CompactToBig 0x04001000 = 0x100000" by (simp add: CompactToBig_def Let_def)
  have "uint (- 1 :: u32) = 0xffffffff" by (simp add: unsigned_minus_1_eq_mask mask_eq_exp_minus_1)
  then show ?thesis
    using difficulty_retarget_bounded [OF sampleRetarget, of "sampleNode 1 100" "[sampleNode 0 101]"]
    by (simp add: samplePow_def sampleNode_def signed_divide_int_def c)
qed

end
