(* ===== verification/MedianTime.thy ===== *)
theory MedianTime
  imports Difficulty
begin

section \<open>Network time: blockchain/mediantime.go\<close>

text \<open>
  The clock of a node, adjusted by the median of the offsets its peers report, and the median of the
  times of the last blocks. The local clock is a parameter \<open>now\<close>, in seconds; the version messages that
  carry the samples have a precision of one second too, so the difference of the two is a whole number of
  seconds, which \<^verbatim>\<open>time.Time.Sub\<close> limits to what fits a duration.
\<close>

abbreviation maxAllowedOffsetSecs :: int where "maxAllowedOffsetSecs \<equiv> 70 * 60"
abbreviation similarTimeSecs :: int where "similarTimeSecs \<equiv> 5 * 60"
abbreviation maxMedianTimeEntries :: nat where "maxMedianTimeEntries \<equiv> 199"
abbreviation maxDurationSecs :: int where "maxDurationSecs \<equiv> 9223372036"

record medianTime =
  knownIDs :: "string set"
  offsets :: "int list"
  offsetSecs :: int
  invalidTimeChecked :: bool

definition NewMedianTime :: medianTime where
  "NewMedianTime = \<lparr>knownIDs = {}, offsets = [], offsetSecs = 0, invalidTimeChecked = False\<rparr>"

definition medianTime_Reset :: "medianTime \<Rightarrow> medianTime" where
  "medianTime_Reset m = m\<lparr>knownIDs := {}, offsets := [], offsetSecs := 0, invalidTimeChecked := False\<rparr>"

definition AdjustedTime :: "int \<Rightarrow> medianTime \<Rightarrow> int" where
  "AdjustedTime now m = now + offsetSecs m"

definition medianTime_Offset :: "medianTime \<Rightarrow> int" where
  "medianTime_Offset m = offsetSecs m"

definition secondsBetween :: "int \<Rightarrow> int \<Rightarrow> int" where
  "secondsBetween timeVal now = max (- maxDurationSecs) (min maxDurationSecs (timeVal - now))"

definition AddTimeSample :: "string \<Rightarrow> int \<Rightarrow> int \<Rightarrow> medianTime \<Rightarrow> medianTime" where
  "AddTimeSample sourceID timeVal now m =
     (if sourceID \<in> knownIDs m then m
      else let m = m\<lparr>knownIDs := insert sourceID (knownIDs m)\<rparr>;
               kept = (if length (offsets m) = maxMedianTimeEntries then tl (offsets m) else offsets m);
               m = m\<lparr>offsets := kept @ [secondsBetween timeVal now]\<rparr>;
               numOffsets = length (offsets m);
               sortedOffsets = sort (offsets m)
           in if numOffsets < 5 \<or> even numOffsets then m
              else let median = sortedOffsets ! (numOffsets div 2) in
                   if \<bar>median\<bar> < maxAllowedOffsetSecs then m\<lparr>offsetSecs := median\<rparr>
                   else m\<lparr>offsetSecs := 0, invalidTimeChecked := True\<rparr>)"

subsection \<open>The time of the last blocks\<close>

abbreviation medianTimeBlocks :: nat where "medianTimeBlocks \<equiv> 11"

definition CalcPastMedianTime :: "BlockNode list \<Rightarrow> int res" where
  "CalcPastMedianTime chain =
     (let timestamps = map (\<lambda>n. uint (node_Timestamp n)) (take medianTimeBlocks chain);
          numNodes = length timestamps
      in if numNodes = 0 then Inl IndexOutOfRange else Inr (sort timestamps ! (numNodes div 2)))"

text \<open>\<^verbatim>\<open>MedianTimePast\<close> of the chain is a parameter.\<close>

definition MedianAdjustedTime :: "int \<Rightarrow> int \<Rightarrow> medianTime \<Rightarrow> int" where
  "MedianAdjustedTime now medianTimePast m =
     (let newTimestamp = AdjustedTime now m; minTimestamp = medianTimePast + 1 in
      if newTimestamp < minTimestamp then minTimestamp else newTimestamp)"

subsection \<open>A median is where the majority is\<close>

lemma sorted_prefix_le:
  assumes "k < length xs"
  shows "Suc k \<le> length (filter (\<lambda>x. x \<le> sort xs ! k) xs)"
proof -
  let ?ys = "sort xs"
  have "set (take (Suc k) ?ys) \<subseteq> {x. x \<le> ?ys ! k}"
    using assms by (auto simp: in_set_conv_nth intro!: sorted_nth_mono)
  then have "filter (\<lambda>x. x \<le> ?ys ! k) (take (Suc k) ?ys) = take (Suc k) ?ys"
    by (simp add: subset_iff)
  then have "Suc k \<le> length (filter (\<lambda>x. x \<le> ?ys ! k) (take (Suc k) ?ys @ drop (Suc k) ?ys))"
    using assms by (simp del: append_take_drop_id)
  then show ?thesis by (simp add: filter_sort)
qed

lemma sorted_suffix_ge:
  assumes "k < length xs"
  shows "length xs - k \<le> length (filter (\<lambda>x. sort xs ! k \<le> x) xs)"
proof -
  let ?ys = "sort xs"
  have "set (drop k ?ys) \<subseteq> {x. ?ys ! k \<le> x}"
    using assms by (auto simp: in_set_conv_nth intro!: sorted_nth_mono)
  then have "filter (\<lambda>x. ?ys ! k \<le> x) (drop k ?ys) = drop k ?ys"
    by (simp add: subset_iff)
  then have "length xs - k \<le> length (filter (\<lambda>x. ?ys ! k \<le> x) (take k ?ys @ drop k ?ys))"
    by (simp del: append_take_drop_id)
  then show ?thesis by (simp add: filter_sort)
qed

lemma filter_disjoint:
  assumes "\<And>x. P x \<Longrightarrow> \<not> Q x"
  shows "length (filter P xs) + length (filter Q xs) \<le> length xs"
  using assms by (induction xs) auto

lemma median_in_majority:
  fixes xs :: "int list"
  assumes "length xs div 2 < length (filter (\<lambda>x. lo \<le> x \<and> x \<le> hi) xs)"
  shows "lo \<le> sort xs ! (length xs div 2)" and "sort xs ! (length xs div 2) \<le> hi"
proof -
  let ?k = "length xs div 2" and ?in = "\<lambda>x. lo \<le> x \<and> x \<le> hi"
  have k: "?k < length xs" using assms by (metis div_less_dividend filter.simps(1) gr0I length_0_conv not_less0 one_less_numeral_iff semiring_norm(76))
  show "lo \<le> sort xs ! ?k"
  proof (rule ccontr)
    assume "\<not> ?thesis"
    then have "length (filter (\<lambda>x. x \<le> sort xs ! ?k) xs) + length (filter ?in xs) \<le> length xs"
      by (intro filter_disjoint) auto
    then show False using sorted_prefix_le [OF k] assms by linarith
  qed
  show "sort xs ! ?k \<le> hi"
  proof (rule ccontr)
    assume "\<not> ?thesis"
    then have "length (filter (\<lambda>x. sort xs ! ?k \<le> x) xs) + length (filter ?in xs) \<le> length xs"
      by (intro filter_disjoint) auto
    then show False using sorted_suffix_ge [OF k] assms by linarith
  qed
qed

subsection \<open>The invariant of the clock\<close>

definition clock_ok :: "medianTime \<Rightarrow> bool" where
  "clock_ok m \<longleftrightarrow> \<bar>offsetSecs m\<bar> < maxAllowedOffsetSecs \<and> length (offsets m) \<le> maxMedianTimeEntries \<and>
     finite (knownIDs m) \<and> length (offsets m) \<le> card (knownIDs m)"

lemma clock_ok_new: "clock_ok NewMedianTime"
  by (simp add: clock_ok_def NewMedianTime_def)

lemma clock_ok_sample: "clock_ok m \<Longrightarrow> clock_ok (AddTimeSample sourceID timeVal now m)"
  by (auto simp: clock_ok_def AddTimeSample_def Let_def)

type_synonym sample = "string \<times> int \<times> int"

definition addSample :: "sample \<Rightarrow> medianTime \<Rightarrow> medianTime" where
  "addSample = (\<lambda>(sourceID, timeVal, now). AddTimeSample sourceID timeVal now)"

lemma clock_ok_run: "clock_ok m \<Longrightarrow> clock_ok (fold addSample samples m)"
  by (induction samples arbitrary: m) (auto simp: addSample_def intro: clock_ok_sample)

lemma AddTimeSample_offset:
  assumes "sourceID \<notin> knownIDs m" and "os = offsets (AddTimeSample sourceID timeVal now m)"
    and "5 \<le> length os" and "odd (length os)" and "length os div 2 < length (filter (\<lambda>x. lo \<le> x \<and> x \<le> hi) os)"
  shows "offsetSecs (AddTimeSample sourceID timeVal now m) \<in> insert 0 {lo..hi} \<and>
    (- maxAllowedOffsetSecs < lo \<and> hi < maxAllowedOffsetSecs \<longrightarrow>
       offsetSecs (AddTimeSample sourceID timeVal now m) \<in> {lo..hi})"
proof -
  let ?median = "sort os ! (length os div 2)"
  have "offsetSecs (AddTimeSample sourceID timeVal now m) = (if \<bar>?median\<bar> < maxAllowedOffsetSecs then ?median else 0)"
    using assms by (auto simp: AddTimeSample_def Let_def split: if_splits)
  then show ?thesis using median_in_majority [OF assms(5)] by auto
qed

lemma AddTimeSample_keeps:
  assumes "os = offsets (AddTimeSample sourceID timeVal now m)"
  shows "sourceID \<in> knownIDs m \<Longrightarrow> AddTimeSample sourceID timeVal now m = m"
    and "length os < 5 \<or> even (length os) \<Longrightarrow> offsetSecs (AddTimeSample sourceID timeVal now m) = offsetSecs m"
  using assms by (auto simp: AddTimeSample_def Let_def split: if_splits)

text \<open>
  C33. A minority of peers cannot move the clock. After every sequence of samples the adjusted time is
  less than 70 minutes from the local clock and at most 199 offsets are kept. A further sample of a peer
  that was heard before changes nothing; one that leaves fewer than five offsets or an even number of
  them leaves the adjustment as it was; and one of a new peer that makes their number odd and at least
  five, with more than half of them between two bounds, sets the adjustment to a value between the
  bounds, or to zero, and to a value between them when the bounds are within 70 minutes.
\<close>

theorem median_time_robust:
  assumes "m = fold addSample samples NewMedianTime" and "m' = AddTimeSample sourceID timeVal now m"
  shows "\<bar>AdjustedTime clock m - clock\<bar> < 4200 \<and> length (offsets m) \<le> 199 \<and>
    (sourceID \<in> knownIDs m \<longrightarrow> m' = m) \<and>
    (length (offsets m') < 5 \<or> even (length (offsets m')) \<longrightarrow> medianTime_Offset m' = medianTime_Offset m) \<and>
    (sourceID \<notin> knownIDs m \<and> 5 \<le> length (offsets m') \<and> odd (length (offsets m')) \<and>
     length (offsets m') div 2 < length (filter (\<lambda>x. lo \<le> x \<and> x \<le> hi) (offsets m')) \<longrightarrow>
       medianTime_Offset m' \<in> insert 0 {lo..hi} \<and>
       (-4200 < lo \<and> hi < 4200 \<longrightarrow> medianTime_Offset m' \<in> {lo..hi}))"
proof -
  have "clock_ok m"
    unfolding assms(1) by (rule clock_ok_run [OF clock_ok_new])
  then show ?thesis
    using AddTimeSample_offset [of sourceID m "offsets m'" timeVal now lo hi]
      AddTimeSample_keeps [of "offsets m'" sourceID timeVal now m]
    by (simp add: clock_ok_def AdjustedTime_def medianTime_Offset_def assms(2))
qed

definition sampleTimes :: "sample list" where
  "sampleTimes = [(''a'', 110, 100), (''b'', 112, 100), (''c'', 9000, 100), (''d'', 111, 100)]"

lemma sampleTimes_run:
  "fold addSample sampleTimes NewMedianTime =
     \<lparr>knownIDs = {''a'', ''b'', ''c'', ''d''}, offsets = [10, 12, 8900, 11], offsetSecs = 0, invalidTimeChecked = False\<rparr>"
  "offsets (AddTimeSample ''e'' 50 100 (fold addSample sampleTimes NewMedianTime)) = [10, 12, 8900, 11, -50]"
  by (auto simp: sampleTimes_def addSample_def AddTimeSample_def NewMedianTime_def secondsBetween_def Let_def)

theorem median_time_robust_witness:
  "medianTime_Offset (AddTimeSample ''e'' 50 100 (fold addSample sampleTimes NewMedianTime)) \<in> {10..12}"
proof -
  have new: "''e'' \<notin> knownIDs (fold addSample sampleTimes NewMedianTime)"
    by (simp add: sampleTimes_run(1))
  show ?thesis
    using median_time_robust [OF refl refl, of 100 sampleTimes "''e''" 50 100 10 12] new
    by (simp only: sampleTimes_run(2)) simp
qed

end
