(* ===== verification/BlockCheck.thy ===== *)
theory BlockCheck
  imports TxContext Blocks MedianTime
begin

section \<open>The checks of a block: blockchain/blockvalidator.go and confirmvalidator.go\<close>

text \<open>
  \<^verbatim>\<open>CheckBlockSanity\<close>, what a block must satisfy on its own; \<^verbatim>\<open>CheckBlockContext\<close>, what it must satisfy on
  top of the chain, with the reward of its coinbase; and the checks of the confirm with which the arbiters
  vote for it. The local clock, the limit of the proof of work and the digests are parameters.

  \<open>Ledger\<close> is what the checks read of the arbiters of \<^verbatim>\<open>DefaultLedger\<close>; \<open>getTxReference\<close> is the cache of
  unspent outputs, which maps the position of an input to the output it spends.
\<close>

subsection \<open>The proof of work\<close>

definition CheckProofOfWork :: "Crypto \<Rightarrow> Header \<Rightarrow> int \<Rightarrow> string option" where
  "CheckProofOfWork cr header powLimit =
     (let target = CompactToBig (h_Bits header) in
      if target \<le> 0 then Some ''[BlockValidator], block target difficulty is too low.''
      else if target > powLimit
      then Some ''[BlockValidator], block target difficulty is higher than max of limit.''
      else let hash = BtcHeader_Hash (Sha256D cr) (ParBlockHeader (h_AuxPow header)) in
           if HashToBig hash > target
           then Some ''[BlockValidator], block target difficulty is higher than expected difficulty.''
           else None)"

subsection \<open>A block on its own\<close>

datatype BlockError =
    BlockMsg string
  | TxSanity "ErrCode \<times> string"
  | TxCtx "ErrCode \<times> string"
  | UnknownReferredTx
  | SerializeError string

text \<open>The loop over the transactions: their hashes, with those met so far and the outputs spent so far.\<close>

fun sanityLoop ::
  "BlockChain \<Rightarrow> Base58 \<Rightarrow> Crypto \<Rightarrow> u32 \<Rightarrow> Transaction list \<Rightarrow> Uint256 set \<Rightarrow> string set \<Rightarrow> (BlockError + Uint256 list) res"
where
  "sanityLoop b b58 cr ht [] existingTxIDs existingTxInputs = Inr (Inr [])"
| "sanityLoop b b58 cr ht (txn # txns) existingTxIDs existingTxInputs =
     bindR (Transaction_Hash (Sha256D cr) txn) (\<lambda>txID.
       if txID \<in> existingTxIDs then Inr (Inl (BlockMsg ''[PowCheckBlockSanity] block contains duplicate transaction''))
       else bindR (CheckTransactionSanity b b58 cr ht txn) (\<lambda>err.
         case err of
           Some e \<Rightarrow> Inr (Inl (TxSanity e))
         | None \<Rightarrow>
             (case markAll (BlockMsg ''[PowCheckBlockSanity] block contains duplicate UTXO'')
                 (map Input_ReferKey (tx_Inputs txn)) existingTxInputs of
                Inl e \<Rightarrow> Inr (Inl e)
              | Inr existingTxInputs' \<Rightarrow>
                  bindR (sanityLoop b b58 cr ht txns (insert txID existingTxIDs) existingTxInputs') (\<lambda>r.
                    Inr (map_sum id (Cons txID) r)))))"

text \<open>The keys that may occur once in a block.\<close>

record existingKeys =
  existingSideTxs :: "Uint256 set"
  existingProducer :: "string set"
  existingProducerNode :: "string set"
  existingCR :: "Uint168 set"

definition markProducer :: "bytes \<Rightarrow> bytes option \<Rightarrow> existingKeys \<Rightarrow> string + existingKeys" where
  "markProducer owner node s =
     bindR (markAll ''[PowCheckBlockSanity] block contains duplicate producer''
         [hexEncodeToString owner] (existingProducer s)) (\<lambda>producers.
       case node of
         None \<Rightarrow> Inr (s\<lparr>existingProducer := producers\<rparr>)
       | Some node \<Rightarrow>
           bindR (markAll ''[PowCheckBlockSanity] block contains duplicate producer node''
               [hexEncodeToString node] (existingProducerNode s)) (\<lambda>nodes.
             Inr (s\<lparr>existingProducer := producers, existingProducerNode := nodes\<rparr>)))"

definition markCR :: "Uint168 \<Rightarrow> existingKeys \<Rightarrow> string + existingKeys" where
  "markCR cid s =
     bindR (markAll ''[PowCheckBlockSanity] block contains duplicate CR'' [cid] (existingCR s)) (\<lambda>crs.
       Inr (s\<lparr>existingCR := crs\<rparr>))"

definition markTx :: "Transaction \<Rightarrow> existingKeys \<Rightarrow> (string + existingKeys) res" where
  "markTx txn s =
     (if tx_TxType txn = TxType_WithdrawFromSideChain then
        (case tx_Payload txn of
           Some (PWithdrawFromSideChain p) \<Rightarrow>
             Inr (bindR (markAll ''[PowCheckBlockSanity] block contains duplicate sidechain Tx''
               (wfs_SideChainTransactionHashes p) (existingSideTxs s)) (\<lambda>hs. Inr (s\<lparr>existingSideTxs := hs\<rparr>)))
         | _ \<Rightarrow> Inl TypeAssertion)
      else if tx_TxType txn = TxType_RegisterProducer then
        (case tx_Payload txn of
           Some (PProducerInfo p) \<Rightarrow> Inr (markProducer (info_OwnerPublicKey p) (Some (info_NodePublicKey p)) s)
         | _ \<Rightarrow> Inr (Inl ''[PowCheckBlockSanity] invalid register producer payload''))
      else if tx_TxType txn = TxType_UpdateProducer then
        (case tx_Payload txn of
           Some (PProducerInfo p) \<Rightarrow> Inr (markProducer (info_OwnerPublicKey p) (Some (info_NodePublicKey p)) s)
         | _ \<Rightarrow> Inr (Inl ''[PowCheckBlockSanity] invalid update producer payload''))
      else if tx_TxType txn = TxType_CancelProducer then
        (case tx_Payload txn of
           Some (PProcessProducer p) \<Rightarrow> Inr (markProducer (process_OwnerPublicKey p) None s)
         | _ \<Rightarrow> Inr (Inl ''[PowCheckBlockSanity] invalid cancel producer payload''))
      else if tx_TxType txn = TxType_RegisterCR then
        (case tx_Payload txn of
           Some (PCRInfo p) \<Rightarrow> Inr (markCR (crinfo_CID p) s)
         | _ \<Rightarrow> Inr (Inl ''[PowCheckBlockSanity] invalid register CR payload''))
      else if tx_TxType txn = TxType_UpdateCR then
        (case tx_Payload txn of
           Some (PCRInfo p) \<Rightarrow> Inr (markCR (crinfo_CID p) s)
         | _ \<Rightarrow> Inr (Inl ''[PowCheckBlockSanity] invalid update CR payload''))
      else if tx_TxType txn = TxType_UnregisterCR then
        (case tx_Payload txn of
           Some (PUnregisterCR p) \<Rightarrow> Inr (markCR (ucr_CID p) s)
         | _ \<Rightarrow> Inr (Inl ''[PowCheckBlockSanity] invalid unregister CR payload''))
      else Inr (Inr s))"

fun duplicateLoop :: "Transaction list \<Rightarrow> existingKeys \<Rightarrow> check" where
  "duplicateLoop [] s = Inr None"
| "duplicateLoop (txn # txns) s =
     bindR (markTx txn s) (\<lambda>r. case r of Inl msg \<Rightarrow> Inr (Some msg) | Inr s' \<Rightarrow> duplicateLoop txns s')"

definition checkDuplicateTx :: "Block \<Rightarrow> check" where
  "checkDuplicateTx block =
     duplicateLoop (b_Transactions block)
       \<lparr>existingSideTxs = {}, existingProducer = {}, existingProducerNode = {}, existingCR = {}\<rparr>"

abbreviation AuxPowChainID :: int where "AuxPowChainID \<equiv> 1224"
abbreviation MaxTimeOffsetSeconds :: int where "MaxTimeOffsetSeconds \<equiv> 2 * 60 * 60"
abbreviation MaxTxPerBlock :: u32 where "MaxTxPerBlock \<equiv> 10000"
abbreviation MaxBlockHeaderSize :: int where "MaxBlockHeaderSize \<equiv> 1000000"

definition blockMsg :: "check \<Rightarrow> BlockError option res" where
  "blockMsg c = bindR c (\<lambda>e. Inr (map_option BlockMsg e))"

text \<open>The hashes and the Merkle root, the end of the check.\<close>

definition checkBlockTxs :: "BlockChain \<Rightarrow> Base58 \<Rightarrow> Crypto \<Rightarrow> Block \<Rightarrow> BlockError option res" where
  "checkBlockTxs b b58 cr block =
     bindR (sanityLoop b b58 cr (h_Height (b_Header block)) (b_Transactions block) {} {}) (\<lambda>r.
       case r of
         Inl e \<Rightarrow> Inr (Some e)
       | Inr txIDs \<Rightarrow>
           andThen (blockMsg (checkDuplicateTx block))
             (case ComputeRoot (Sha256D cr) txIDs of
                Inl _ \<Rightarrow> Inr (Some (BlockMsg ''[PowCheckBlockSanity] merkleTree compute failed''))
              | Inr calcTransactionsRoot \<Rightarrow>
                  require (h_MerkleRoot (b_Header block) = calcTransactionsRoot)
                    (BlockMsg ''[PowCheckBlockSanity] block merkle root is invalid'')))"

text \<open>The time of a block is in whole seconds, so the check of its precision cannot fail and is left out.\<close>

definition CheckBlockSanity ::
  "BlockChain \<Rightarrow> Base58 \<Rightarrow> Crypto \<Rightarrow> int \<Rightarrow> int \<Rightarrow> medianTime \<Rightarrow> Block \<Rightarrow> BlockError option res" where
  "CheckBlockSanity b b58 cr powLimit now timeSource block =
     (let header = b_Header block; transactions = b_Transactions block in
      bindR (AuxPow_Check (Sha256D cr) (h_AuxPow header) (Header_Hash (Sha256D cr) header) AuxPowChainID) (\<lambda>ok.
        andThen (require ok (BlockMsg ''[PowCheckBlockSanity] block check aux pow failed''))
       (andThen (require (CheckProofOfWork cr header powLimit = None)
          (BlockMsg ''[PowCheckBlockSanity] block check proof of work failed''))
       (andThen (require (\<not> uint (h_Timestamp header) > AdjustedTime now timeSource + MaxTimeOffsetSeconds)
          (BlockMsg ''[PowCheckBlockSanity] block timestamp of is too far in the future''))
       (andThen (require (length transactions \<noteq> 0)
          (BlockMsg ''[PowCheckBlockSanity]  block does not contain any transactions''))
       (andThen (require (\<not> word_of_nat (length transactions) > MaxTxPerBlock)
          (BlockMsg (''[PowCheckBlockSanity]  block contains too many transactions, tx count: '' @
             decimal (length transactions))))
       (andThen (require (\<not> Header_GetSize header > MaxBlockHeaderSize)
          (BlockMsg ''[PowCheckBlockSanity] serialized block header is too big''))
       (bindR (Block_GetSize block) (\<lambda>blockSize.
          andThen (require (\<not> blockSize > MaxBlockContextSize + MaxBlockHeaderSize)
             (BlockMsg ''[PowCheckBlockSanity] serialized block is too big''))
         (andThen (require (IsCoinBaseTx (transactions ! 0))
             (BlockMsg ''[PowCheckBlockSanity] first transaction in block is not a coinbase''))
         (andThen (checkEach (\<lambda>tx. require (\<not> IsCoinBaseTx tx)
             (BlockMsg ''[PowCheckBlockSanity] block contains second coinbase'')) (drop 1 transactions))
           (checkBlockTxs b b58 cr block))))))))))))"

subsection \<open>A block on top of the chain\<close>

record Ledger =
  lg_CurrentArbitrators :: "bytes list"
  lg_ArbitersRoundReward :: "Uint168 \<Rightarrow> Fixed64 option"
  lg_FinalRoundChange :: Fixed64
  lg_illegalBlocksPayloadHashes :: "Uint256 set"
  lg_NeedAppropriation :: bool

definition IsFinalizedTransaction :: "Transaction \<Rightarrow> u32 \<Rightarrow> bool" where
  "IsFinalizedTransaction msgTx blockHeight =
     (if tx_LockTime msgTx = 0 then True
      else if tx_LockTime msgTx < blockHeight then True
      else \<not> list_ex (\<lambda>txIn. in_Sequence txIn \<noteq> 0xFFFF) (tx_Inputs msgTx))"

definition addValue :: "Output \<Rightarrow> (Uint256 \<Rightarrow> Fixed64 option) \<Rightarrow> (Uint256 \<Rightarrow> Fixed64 option)" where
  "addValue x m =
     m(out_AssetID x \<mapsto> (case m (out_AssetID x) of Some amount \<Rightarrow> amount + out_Value x | None \<Rightarrow> out_Value x))"

text \<open>The loops over the two maps write different keys, so their order does not matter.\<close>

definition GetTxFeeMap ::
  "(nat set \<Rightarrow> nat list) \<Rightarrow> Transaction \<Rightarrow> (nat \<Rightarrow> Output option) \<Rightarrow> Uint256 \<Rightarrow> Fixed64 option" where
  "GetTxFeeMap ordI tx references =
     (let inputs = fold addValue (spentOutputs ordI references) Map.empty;
          outputs = fold addValue (tx_Outputs tx) Map.empty
      in (\<lambda>asset. case outputs asset of
           Some outputValue \<Rightarrow>
             (case inputs asset of
                Some inputValue \<Rightarrow> Some (inputValue - outputValue)
              | None \<Rightarrow> Some (0 - outputValue))
         | None \<Rightarrow> inputs asset))"

definition GetTxFee ::
  "(nat set \<Rightarrow> nat list) \<Rightarrow> Transaction \<Rightarrow> Uint256 \<Rightarrow> (nat \<Rightarrow> Output option) \<Rightarrow> Fixed64" where
  "GetTxFee ordI tx assetId references =
     (case GetTxFeeMap ordI tx references assetId of Some fee \<Rightarrow> fee | None \<Rightarrow> 0)"

definition checkCoinbaseArbitratorsReward :: "Ledger \<Rightarrow> Transaction \<Rightarrow> check" where
  "checkCoinbaseArbitratorsReward lg coinbase =
     (let rewards = lg_ArbitersRoundReward lg in
      if int (card (dom rewards)) \<noteq> int (length (tx_Outputs coinbase)) - 2
      then Inr (Some ''coinbase output count not match'')
      else checkEach (\<lambda>x. case rewards (out_ProgramHash x) of
            None \<Rightarrow> Inr (Some ''unknown dpos reward address'')
          | Some amount \<Rightarrow> require (amount = out_Value x) ''incorrect dpos reward amount'')
        (drop 2 (tx_Outputs coinbase)))"

definition checkCoinbaseTransactionContext ::
  "BlockChain \<Rightarrow> Ledger \<Rightarrow> u32 \<Rightarrow> Transaction \<Rightarrow> Fixed64 \<Rightarrow> check" where
  "checkCoinbaseTransactionContext b lg blockHeight coinbase totalTxFee =
     (if blockHeight \<ge> PublicDPOSHeight_of b then
        (let totalReward = totalTxFee + cp_RewardPerBlock (bc_chainParams b);
             rewardDPOSArbiter = word_of_int (ceiled (floatTimes (floatOf (sint totalReward)) (fraction 35 100)))
         in if length (tx_Outputs coinbase) < 2 then Inl IndexOutOfRange
            else andThen (require (totalReward - rewardDPOSArbiter + lg_FinalRoundChange lg =
                out_Value (tx_Outputs coinbase ! 0) + out_Value (tx_Outputs coinbase ! 1))
                ''reward amount in coinbase not correct'')
              (checkCoinbaseArbitratorsReward lg coinbase))
      else
        (let rewardInCoinbase = sum_list (map out_Value (tx_Outputs coinbase)) in
         require (rewardInCoinbase - totalTxFee = cp_RewardPerBlock (bc_chainParams b))
           (''Reward amount in coinbase not correct, height:'' @ decimal (unat blockHeight) @
            ''dposheight: '' @ decimal (unat (cp_PublicDPOSHeight mainNetParams)))))"

text \<open>The loop over the transactions behind the coinbase, which adds up their fees.\<close>

fun contextLoop ::
  "BlockChain \<Rightarrow> ChainState \<Rightarrow> Validation \<Rightarrow> (Transaction \<Rightarrow> (nat \<Rightarrow> Output option) option) \<Rightarrow> u32 \<Rightarrow> Transaction list \<Rightarrow>
   Fixed64 \<Rightarrow> (BlockError + Fixed64) res"
where
  "contextLoop b cs vd getTxReference ht [] totalTxFee = Inr (Inr totalTxFee)"
| "contextLoop b cs vd getTxReference ht (tx # txs) totalTxFee =
     (case getTxReference tx of
        None \<Rightarrow> Inr (Inl UnknownReferredTx)
      | Some references \<Rightarrow>
          bindR (CheckTransactionContext b cs vd ht tx references 0) (\<lambda>err.
            case err of
              Some e \<Rightarrow> Inr (Inl (TxCtx e))
            | None \<Rightarrow> contextLoop b cs vd getTxReference ht txs
                (totalTxFee + GetTxFee (vd_ordI vd) tx (ELAAssetID (vd_Crypto vd)) references)))"

text \<open>
  When the coinbase check fails the block is serialised for the log; below \<^verbatim>\<open>CheckRewardHeight\<close> the result of
  that overwrites the error.
\<close>

definition coinbaseVerdict :: "BlockChain \<Rightarrow> Block \<Rightarrow> string option \<Rightarrow> BlockError option res" where
  "coinbaseVerdict b block err =
     (case err of
        None \<Rightarrow> Inr None
      | Some msg \<Rightarrow>
          (case Block_Serialize block of
             (_, Some WNilDereference) \<Rightarrow> Inl NilDereference
           | (_, Some (WErr e)) \<Rightarrow> Inr (Some (SerializeError e))
           | (_, None) \<Rightarrow>
               if h_Height (b_Header block) < cp_CheckRewardHeight (bc_chainParams b) then Inr None
               else Inr (Some (BlockMsg msg))))"

definition checkTxsContext ::
  "BlockChain \<Rightarrow> ChainState \<Rightarrow> Validation \<Rightarrow> Ledger \<Rightarrow> (Transaction \<Rightarrow> (nat \<Rightarrow> Output option) option) \<Rightarrow> Block \<Rightarrow>
   BlockError option res" where
  "checkTxsContext b cs vd lg getTxReference block =
     (let ht = h_Height (b_Header block) in
      bindR (contextLoop b cs vd getTxReference ht (drop 1 (b_Transactions block)) 0) (\<lambda>r.
        case r of
          Inl e \<Rightarrow> Inr (Some e)
        | Inr totalTxFee \<Rightarrow>
            (case b_Transactions block of
               [] \<Rightarrow> Inl IndexOutOfRange
             | coinbase # _ \<Rightarrow>
                 bindR (checkCoinbaseTransactionContext b lg ht coinbase totalTxFee) (coinbaseVerdict b block))))"

definition CheckDPOSIllegalTx :: "Crypto \<Rightarrow> Ledger \<Rightarrow> Block \<Rightarrow> check" where
  "CheckDPOSIllegalTx cr lg block =
     (if lg_illegalBlocksPayloadHashes lg = {} then Inr None
      else bindR (foldR (\<lambda>tx found.
          if tx_TxType tx = TxType_IllegalBlockEvidence then
            (case tx_Payload tx of
               Some (PDPOSIllegalBlocks p) \<Rightarrow> Inr (insert (DPOSIllegalBlocks_Hash (Sha256D cr) p) found)
             | _ \<Rightarrow> Inl TypeAssertion)
          else Inr found) (b_Transactions block) {}) (\<lambda>found.
        require (lg_illegalBlocksPayloadHashes lg \<subseteq> found) ''expect an illegal blocks transaction in this block''))"

definition CheckCRCAppropriationTx :: "Ledger \<Rightarrow> Block \<Rightarrow> check" where
  "CheckCRCAppropriationTx lg block =
     (let appropriationCount = length (filter IsCRCAppropriationTx (b_Transactions block));
          needAppropriationCount = (if lg_NeedAppropriation lg then 1 else 0)
      in require (appropriationCount = needAppropriationCount)
        (''current block height '' @ decimal (unat (h_Height (b_Header block))) @
         '', appropriation transaction count should be '' @ decimal needAppropriationCount @
         '', current block contains '' @ decimal appropriationCount))"

text \<open>
  The chain is the list of the nodes from the previous block down to the genesis block. The time of the
  block is taken one nanosecond late, so a block of the same second as the median passes.
\<close>

definition CheckBlockContext ::
  "BlockChain \<Rightarrow> PowParams \<Rightarrow> Retarget \<Rightarrow> ChainState \<Rightarrow> Validation \<Rightarrow> Ledger \<Rightarrow>
   (Transaction \<Rightarrow> (nat \<Rightarrow> Output option) option) \<Rightarrow> Block \<Rightarrow> BlockNode list \<Rightarrow> BlockError option res" where
  "CheckBlockContext b pow rt cs vd lg getTxReference block chain =
     (if chain = [] then Inr None
      else let header = b_Header block in
        bindR (CalcNextRequiredDifficulty pow rt chain) (\<lambda>r.
        case r of
          Inl err \<Rightarrow> Inr (Some (BlockMsg err))
        | Inr expectedDifficulty \<Rightarrow>
            andThen (require (h_Bits header = expectedDifficulty) (BlockMsg ''block difficulty is not the expected''))
           (bindR (CalcPastMedianTime chain) (\<lambda>medianTime.
            andThen (require (uint (h_Timestamp header) \<ge> medianTime) (BlockMsg ''block timestamp is not after expected''))
           (if b_Transactions block = [] then Inl IndexOutOfRange
            else andThen (checkEach (\<lambda>tx. require (IsFinalizedTransaction tx (h_Height header))
                (BlockMsg ''block contains unfinalized transaction'')) (drop 1 (b_Transactions block)))
              (andThen (blockMsg (CheckDPOSIllegalTx (vd_Crypto vd) lg block))
              (andThen (blockMsg (CheckCRCAppropriationTx lg block))
                (checkTxsContext b cs vd lg getTxReference block))))))))"

subsection \<open>The confirm of a block\<close>

definition ProposalSanityCheck :: "Crypto \<Rightarrow> DPOSProposal \<Rightarrow> string option" where
  "ProposalSanityCheck cr proposal =
     (case DecodePoint (proposal_Sponsor proposal) of
        Inl err \<Rightarrow> Some err
      | Inr pubKey \<Rightarrow> Verify cr pubKey (DPOSProposal_SerializeUnsigned proposal) (proposal_Sign proposal))"

definition VoteSanityCheck :: "Crypto \<Rightarrow> DPOSProposalVote \<Rightarrow> string option" where
  "VoteSanityCheck cr vote =
     (case DecodePoint (vote_Signer vote) of
        Inl err \<Rightarrow> Some err
      | Inr pubKey \<Rightarrow> Verify cr pubKey (DPOSProposalVote_SerializeUnsigned vote) (vote_Sign vote))"

definition ProposalContextCheck :: "Ledger \<Rightarrow> DPOSProposal \<Rightarrow> string option" where
  "ProposalContextCheck lg proposal =
     (if proposal_Sponsor proposal \<in> set (lg_CurrentArbitrators lg) then None
      else Some ''current arbitrators verify error'')"

definition VoteContextCheck :: "Ledger \<Rightarrow> DPOSProposalVote \<Rightarrow> string option" where
  "VoteContextCheck lg vote =
     (if vote_Signer vote \<in> set (lg_CurrentArbitrators lg) then None else Some ''current arbitrators verify error'')"

definition GetArbitersMajorityCount :: "Ledger \<Rightarrow> int" where
  "GetArbitersMajorityCount lg =
     truncated (floatDiv (floatTimes (floatOf (int (length (lg_CurrentArbitrators lg)))) (floatOf 2)) (floatOf 3))"

fun sanityVotes :: "Crypto \<Rightarrow> Uint256 \<Rightarrow> DPOSProposalVote list \<Rightarrow> string option" where
  "sanityVotes cr proposalHash [] = None"
| "sanityVotes cr proposalHash (vote # votes) =
     (if \<not> vote_Accept vote then Some ''[ConfirmSanityCheck] confirm contains reject vote''
      else if proposalHash \<noteq> vote_ProposalHash vote then Some ''[ConfirmSanityCheck] confirm contains invalid vote''
      else case VoteSanityCheck cr vote of
        Some err \<Rightarrow> Some (''[ConfirmSanityCheck] confirm contain invalid vote: '' @ err)
      | None \<Rightarrow> sanityVotes cr proposalHash votes)"

definition ConfirmSanityCheck :: "Crypto \<Rightarrow> Confirm \<Rightarrow> string option" where
  "ConfirmSanityCheck cr confirm =
     (case ProposalSanityCheck cr (confirm_Proposal confirm) of
        Some err \<Rightarrow> Some (''[ConfirmSanityCheck] confirm contain invalid proposal: '' @ err)
      | None \<Rightarrow>
          sanityVotes cr (DPOSProposal_Hash (Sha256D cr) (confirm_Proposal confirm)) (confirm_Votes confirm))"

fun contextVotes :: "Ledger \<Rightarrow> DPOSProposalVote list \<Rightarrow> string option" where
  "contextVotes lg [] = None"
| "contextVotes lg (vote # votes) =
     (case VoteContextCheck lg vote of
        Some err \<Rightarrow> Some (''[ConfirmContextCheck] confirm contain invalid vote: '' @ err)
      | None \<Rightarrow> contextVotes lg votes)"

definition ConfirmContextCheck :: "Ledger \<Rightarrow> Confirm \<Rightarrow> string option" where
  "ConfirmContextCheck lg confirm =
     (let signers = set (map (\<lambda>vote. hexEncodeToString (vote_Signer vote)) (confirm_Votes confirm)) in
      if int (card signers) \<le> GetArbitersMajorityCount lg
      then Some ''[ConfirmContextCheck] signers less than majority count''
      else case ProposalContextCheck lg (confirm_Proposal confirm) of
        Some err \<Rightarrow> Some (''[ConfirmContextCheck] confirm contain invalid proposal: '' @ err)
      | None \<Rightarrow> contextVotes lg (confirm_Votes confirm))"

subsection \<open>What an accepted block satisfies\<close>

lemma run_iff:
  "(case err of None \<Rightarrow> d | Some e \<Rightarrow> Inr (Inl (g e))) = Inr (Inr y) \<longleftrightarrow> err = None \<and> d = Inr (Inr y)"
  "(case r of Inl e \<Rightarrow> Inr (Inl e) | Inr x \<Rightarrow> f x) = Inr (Inr y) \<longleftrightarrow> (\<exists>x. r = Inr x \<and> f x = Inr (Inr y))"
  "map_sum id h t = Inr z \<longleftrightarrow> (\<exists>x. t = Inr x \<and> z = h x)"
  "(case u of Inl e \<Rightarrow> Inr (Some (j e)) | Inr x \<Rightarrow> k x) = Inr None \<longleftrightarrow> (\<exists>x. u = Inr x \<and> k x = Inr None)"
  subgoal by (cases err) simp_all
  subgoal by (cases r) simp_all
  subgoal by (cases t) auto
  subgoal by (cases u) simp_all
  done

lemma sanityLoop_ok:
  assumes "sanityLoop b b58 cr ht txns ids spent = Inr (Inr txIDs)"
  shows "map (Transaction_Hash (Sha256D cr)) txns = map Inr txIDs \<and> distinct txIDs \<and> set txIDs \<inter> ids = {} \<and>
    (\<forall>txn \<in> set txns. CheckTransactionSanity b b58 cr ht txn = Inr None) \<and>
    distinct (concat (map (\<lambda>txn. map Input_ReferKey (tx_Inputs txn)) txns)) \<and>
    set (concat (map (\<lambda>txn. map Input_ReferKey (tx_Inputs txn)) txns)) \<inter> spent = {}"
  using assms
proof (induction txns arbitrary: ids spent txIDs)
  case Nil
  then show ?case by simp
next
  case (Cons txn txns)
  from Cons.prems obtain txID rest where
      id: "Transaction_Hash (Sha256D cr) txn = Inr txID" "txID \<notin> ids" and
      sane: "CheckTransactionSanity b b58 cr ht txn = Inr None" and
      keys: "distinct (map Input_ReferKey (tx_Inputs txn))" "set (map Input_ReferKey (tx_Inputs txn)) \<inter> spent = {}" and
      rest: "sanityLoop b b58 cr ht txns (insert txID ids) (spent \<union> set (map Input_ReferKey (tx_Inputs txn))) = Inr (Inr rest)" and
      txIDs: "txIDs = txID # rest"
    by (auto simp: bindR_Inr_iff markAll_Inr run_iff split: if_splits)
  let ?keys = "\<lambda>txns. concat (map (\<lambda>txn. map Input_ReferKey (tx_Inputs txn)) txns)"
  note ih = Cons.IH [OF rest]
  then have "set (?keys txns) \<inter> (spent \<union> set (map Input_ReferKey (tx_Inputs txn))) = {}" by blast
  then have "set (map Input_ReferKey (tx_Inputs txn)) \<inter> set (?keys txns) = {}" "set (?keys txns) \<inter> spent = {}" by blast+
  then have "distinct (?keys (txn # txns)) \<and> set (?keys (txn # txns)) \<inter> spent = {}"
    using keys ih by (simp only: list.map concat.simps distinct_append set_append Int_Un_distrib2) blast
  with ih id sane show ?case unfolding txIDs by auto
qed

lemma CheckBlockSanity_parts:
  assumes "CheckBlockSanity b b58 cr powLimit now m block = Inr None"
  shows "AuxPow_Check (Sha256D cr) (h_AuxPow (b_Header block)) (Header_Hash (Sha256D cr) (b_Header block)) AuxPowChainID = Inr True"
    and "CheckProofOfWork cr (b_Header block) powLimit = None"
    and "uint (h_Timestamp (b_Header block)) \<le> AdjustedTime now m + MaxTimeOffsetSeconds"
    and "\<exists>coinbase txs. b_Transactions block = coinbase # txs \<and> IsCoinBaseTx coinbase \<and> (\<forall>tx \<in> set txs. \<not> IsCoinBaseTx tx)"
    and "checkBlockTxs b b58 cr block = Inr None"
  using assms
  by (auto simp: CheckBlockSanity_def Let_def bindR_Inr_iff not_less split: if_splits) (cases "b_Transactions block"; simp)

lemma checkBlockTxs_parts:
  assumes "checkBlockTxs b b58 cr block = Inr None"
  obtains txIDs where "sanityLoop b b58 cr (h_Height (b_Header block)) (b_Transactions block) {} {} = Inr (Inr txIDs)"
    and "ComputeRoot (Sha256D cr) txIDs = Inr (h_MerkleRoot (b_Header block))"
    and "checkDuplicateTx block = Inr None"
proof -
  have msg: "blockMsg c = Inr None \<longleftrightarrow> c = Inr None" for c by (cases c) (auto simp: blockMsg_def)
  from assms show ?thesis
    by (auto simp: checkBlockTxs_def bindR_Inr_iff msg run_iff intro: that)
qed

text \<open>
  C20. A block that passes the sanity check has one coinbase, which is its first transaction; all its
  transactions pass theirs, no two have the same hash, and no output is spent twice in the block, by one
  transaction or by two; its Merkle root is the one of the hashes; the hash of its parent block is at most the
  target in its header, which is positive and at most the limit; and it is at most two hours ahead.
\<close>

theorem block_sanity_sound:
  assumes "CheckBlockSanity b b58 cr powLimit now m block = Inr None"
  shows "(\<exists>coinbase txs. b_Transactions block = coinbase # txs \<and> IsCoinBaseTx coinbase \<and> \<not> list_ex IsCoinBaseTx txs) \<and>
    (\<exists>txIDs. map (Transaction_Hash (Sha256D cr)) (b_Transactions block) = map Inr txIDs \<and> distinct txIDs \<and>
      ComputeRoot (Sha256D cr) txIDs = Inr (h_MerkleRoot (b_Header block))) \<and>
    list_all (\<lambda>tx. CheckTransactionSanity b b58 cr (h_Height (b_Header block)) tx = Inr None) (b_Transactions block) \<and>
    distinct (concat (map (\<lambda>tx. map in_Previous (tx_Inputs tx)) (b_Transactions block))) \<and>
    HashToBig (BtcHeader_Hash (Sha256D cr) (ParBlockHeader (h_AuxPow (b_Header block)))) \<le> CompactToBig (h_Bits (b_Header block)) \<and>
    0 < CompactToBig (h_Bits (b_Header block)) \<and> CompactToBig (h_Bits (b_Header block)) \<le> powLimit \<and>
    uint (h_Timestamp (b_Header block)) \<le> AdjustedTime now m + 7200"
proof -
  note parts = CheckBlockSanity_parts [OF assms]
  obtain txIDs where ids: "sanityLoop b b58 cr (h_Height (b_Header block)) (b_Transactions block) {} {} = Inr (Inr txIDs)"
      and root: "ComputeRoot (Sha256D cr) txIDs = Inr (h_MerkleRoot (b_Header block))"
    using checkBlockTxs_parts [OF parts(5)] by blast
  note loop = sanityLoop_ok [OF ids]
  have keys: "map OutPoint_ReferKey (concat (map (\<lambda>tx. map in_Previous (tx_Inputs tx)) txs)) =
      concat (map (\<lambda>tx. map Input_ReferKey (tx_Inputs tx)) txs)" for txs
    by (induction txs) (simp_all add: Input_ReferKey_def)
  have "distinct (map OutPoint_ReferKey (concat (map (\<lambda>tx. map in_Previous (tx_Inputs tx)) (b_Transactions block))))"
    unfolding keys using loop by blast
  then have "distinct (concat (map (\<lambda>tx. map in_Previous (tx_Inputs tx)) (b_Transactions block)))"
    by (simp only: distinct_map)
  moreover have "HashToBig (BtcHeader_Hash (Sha256D cr) (ParBlockHeader (h_AuxPow (b_Header block)))) \<le> CompactToBig (h_Bits (b_Header block))"
      "0 < CompactToBig (h_Bits (b_Header block))" "CompactToBig (h_Bits (b_Header block)) \<le> powLimit"
    using parts(2) by (simp_all add: CheckProofOfWork_def Let_def split: if_splits)
  ultimately show ?thesis
    using parts(3,4) loop root by (auto simp: list_all_iff list_ex_iff)
qed

text \<open>A block of a coinbase alone, under a digest that is the same for all strings.\<close>

definition minedScript :: bytes where
  "minedScript = pchMergedMiningHeader @ replicate 32 1 @ [1, 0, 0, 0] @ [0, 0, 0, 0]"

definition minedBlock :: Block where
  "minedBlock =
     \<lparr>b_Header = emptyHeader\<lparr>h_MerkleRoot := replicate 32 1, h_Timestamp := 2000, h_Bits := 0x207fffff, h_Height := 1000,
        h_AuxPow := sampleProof (Sha256D plainCrypto) [sampleScript minedScript] []\<rparr>,
      b_Transactions = [sampleCoinbase]\<rparr>"

lemma mined_script: "checkScript minedScript (replicate 32 1) 0 0 1224 = Inr True"
  by code_simp

definition fits :: "int res \<Rightarrow> bool" where
  "fits r = (case r of Inr n \<Rightarrow> 0 < n \<and> n \<le> 1000000 | Inl _ \<Rightarrow> False)"

lemma mined_sizes: "fits (Inr (Header_GetSize (b_Header minedBlock)))" "fits (Block_GetSize minedBlock)"
    "fits (Transaction_GetSize sampleCoinbase)"
  by code_simp+

lemma mined_work:
  "HashToBig (replicate 32 1) \<le> CompactToBig 0x207fffff" "0 < CompactToBig 0x207fffff" "CompactToBig 0x207fffff \<le> 2 ^ 255 - 1"
proof -
  have "CompactToBig 0x207fffff = 0x7fffff * 2 ^ 232" by (simp add: CompactToBig_def)
  moreover have "replicate 32 (1 :: u8) = 1 # replicate 31 1" using replicate_Suc [of 31 "1 :: u8"] by simp
  then have "beNat (replicate 32 1) = 256 ^ 31 + beNat (replicate 31 1)" by (simp only: beNat.simps length_replicate) simp
  ultimately show "HashToBig (replicate 32 1) \<le> CompactToBig 0x207fffff" "0 < CompactToBig 0x207fffff" "CompactToBig 0x207fffff \<le> 2 ^ 255 - 1"
    using beNat_less [of "replicate 31 1"] by (simp_all add: HashToBig_def beVal_def)
qed

lemma mined_sane: "CheckTransactionSanity mainChain plainBase58 plainCrypto 1000 sampleCoinbase = Inr None"
proof -
  have "checkTransactionSize sampleCoinbase = Inr None"
    using mined_sizes(3) by (auto simp: checkTransactionSize_def fits_def split: sum.splits)
  moreover have "truncated (floatTimes (floatOf 101) (fraction 3 10)) = 30" by code_simp
  then have "checkTransactionOutput mainChain plainBase58 plainCrypto sampleCoinbase 1000 = Inr None"
    by (simp add: checkTransactionOutput_def checkCoinbaseOutput_def sampleCoinbase_def mainNetParams_def pays_def)
  moreover have "checkAssetPrecision sampleCoinbase = Inr None"
    by (simp add: checkAssetPrecision_def checkAmountPrecise_def)
  ultimately show ?thesis
    by (simp add: CheckTransactionSanity_def checkTxHeightVersion_def checkTransactionInput_def checkAttributeProgram_def
        checkTransactionPayload_def checkDuplicateSidechainTx_def sampleCoinbase_def)
qed

lemma minedBlock_sane: "CheckBlockSanity mainChain plainBase58 plainCrypto (2 ^ 255 - 1) 2000 NewMedianTime minedBlock = Inr None"
proof -
  have H: "Sha256D plainCrypto x = replicate 32 1" for x by (simp add: Sha256D_def plainCrypto_def)
  have "AuxPow_Check (Sha256D plainCrypto) (h_AuxPow (b_Header minedBlock)) (Header_Hash (Sha256D plainCrypto) (b_Header minedBlock)) 1224 = Inr True"
    using mined_script by (simp add: minedBlock_def sampleProof_Check Header_Hash_def H sampleScript_def)
  moreover have "CheckProofOfWork plainCrypto (b_Header minedBlock) (2 ^ 255 - 1) = None"
    using mined_work unfolding CheckProofOfWork_def BtcHeader_Hash_def H by (simp add: minedBlock_def Let_def)
  moreover have "checkBlockTxs mainChain plainBase58 plainCrypto minedBlock = Inr None"
  proof -
    have "snd (Transaction_SerializeUnsigned sampleCoinbase) = None" by code_simp
    then obtain bs where "Transaction_SerializeUnsigned sampleCoinbase = (bs, None)" by (metis prod.collapse)
    then have "Transaction_Hash (Sha256D plainCrypto) sampleCoinbase = Inr (replicate 32 1)"
      by (simp add: Transaction_Hash_def H)
    moreover have "tx_Inputs sampleCoinbase = [\<lparr>in_Previous = \<lparr>op_TxID = EmptyHash, op_Index = 0xFFFF\<rparr>, in_Sequence = 0xFFFFFFFF\<rparr>]"
        "tx_TxType sampleCoinbase = TxType_CoinBase"
      by (simp_all add: sampleCoinbase_def)
    ultimately show ?thesis
      using mined_sane by (simp add: checkBlockTxs_def minedBlock_def checkDuplicateTx_def markTx_def blockMsg_def ComputeRoot_def)
  qed
  moreover have "IsCoinBaseTx sampleCoinbase" by (simp add: sampleCoinbase_def)
  moreover have "\<not> Header_GetSize (b_Header minedBlock) > MaxBlockHeaderSize"
    "\<exists>n. Block_GetSize minedBlock = Inr n \<and> \<not> n > MaxBlockContextSize + MaxBlockHeaderSize"
    using mined_sizes by (auto simp: fits_def split: sum.splits)
  moreover have "b_Transactions minedBlock = [sampleCoinbase]" "h_Timestamp (b_Header minedBlock) = 2000"
    by (simp_all add: minedBlock_def)
  ultimately show ?thesis
    by (auto simp: CheckBlockSanity_def AdjustedTime_def NewMedianTime_def)
qed

theorem block_sanity_sound_witness:
  "CheckBlockSanity mainChain plainBase58 plainCrypto (2 ^ 255 - 1) 2000 NewMedianTime minedBlock = Inr None \<and>
   HashToBig (BtcHeader_Hash (Sha256D plainCrypto) (ParBlockHeader (h_AuxPow (b_Header minedBlock)))) \<le>
     CompactToBig (h_Bits (b_Header minedBlock))"
  using block_sanity_sound [OF minedBlock_sane] minedBlock_sane by blast

subsection \<open>Two confirms share a third of the arbiters\<close>

lemma sanityVotes_ok:
  "sanityVotes cr h votes = None \<Longrightarrow> vote \<in> set votes \<Longrightarrow>
     vote_Accept vote \<and> vote_ProposalHash vote = h \<and> VoteSanityCheck cr vote = None"
  by (induction votes) (auto split: if_splits option.splits)

lemma contextVotes_ok: "contextVotes lg votes = None \<Longrightarrow> vote \<in> set votes \<Longrightarrow> vote_Signer vote \<in> set (lg_CurrentArbitrators lg)"
  by (induction votes) (auto simp: VoteContextCheck_def split: if_splits option.splits)

definition signers :: "Confirm \<Rightarrow> bytes set" where
  "signers confirm = vote_Signer ` set (confirm_Votes confirm)"

lemma confirm_majority:
  assumes "ConfirmContextCheck lg confirm = None" and "length (lg_CurrentArbitrators lg) < 2 ^ 40"
  shows "signers confirm \<subseteq> set (lg_CurrentArbitrators lg) \<and> 2 * length (lg_CurrentArbitrators lg) < 3 * card (signers confirm)"
proof -
  have "card (set (map (\<lambda>vote. hexEncodeToString (vote_Signer vote)) (confirm_Votes confirm))) = card (hexEncodeToString ` signers confirm)"
    by (simp add: signers_def image_image)
  also have "\<dots> = card (signers confirm)" by (intro card_image inj_onI) (simp add: hexEncodeToString_inject)
  finally have "GetArbitersMajorityCount lg < int (card (signers confirm))"
    using assms(1) by (auto simp: ConfirmContextCheck_def Let_def split: if_splits)
  moreover have "signers confirm \<subseteq> set (lg_CurrentArbitrators lg)"
    using assms(1) contextVotes_ok [of lg "confirm_Votes confirm"]
    by (auto simp: ConfirmContextCheck_def Let_def signers_def split: if_splits option.splits)
  ultimately show ?thesis
    using two_thirds [of "int (length (lg_CurrentArbitrators lg))"] assms(2) by (auto simp: GetArbitersMajorityCount_def)
qed

text \<open>
  C21. Two confirms that are accepted under the same arbiters (different keys, fewer than \<open>2 ^ 40\<close> of them), for
  the same block or for different ones, share more than a third of the arbiters: each of these is an arbiter
  and has signed a vote for both proposals. So two different blocks are confirmed only when more than a third
  of the arbiters vote twice.
\<close>

theorem confirm_quorums_meet:
  assumes "ConfirmSanityCheck cr confirm = None" and "ConfirmContextCheck lg confirm = None"
    and "ConfirmSanityCheck cr confirm' = None" and "ConfirmContextCheck lg confirm' = None"
    and "distinct (lg_CurrentArbitrators lg)" and "length (lg_CurrentArbitrators lg) < 2 ^ 40"
  shows "\<exists>S. S \<subseteq> set (lg_CurrentArbitrators lg) \<and> length (lg_CurrentArbitrators lg) < 3 * card S \<and>
    (\<forall>k \<in> S. \<exists>pk vote vote'. DecodePoint k = Inr pk \<and> vote \<in> set (confirm_Votes confirm) \<and> vote' \<in> set (confirm_Votes confirm') \<and>
      vote_ProposalHash vote = DPOSProposal_Hash (Sha256D cr) (confirm_Proposal confirm) \<and> vote_Accept vote \<and>
      vote_ProposalHash vote' = DPOSProposal_Hash (Sha256D cr) (confirm_Proposal confirm') \<and> vote_Accept vote' \<and>
      Verify cr pk (DPOSProposalVote_SerializeUnsigned vote) (vote_Sign vote) = None \<and>
      Verify cr pk (DPOSProposalVote_SerializeUnsigned vote') (vote_Sign vote') = None)"
proof (intro exI [of _ "signers confirm \<inter> signers confirm'"] conjI ballI)
  let ?S = "signers confirm \<inter> signers confirm'" and ?A = "set (lg_CurrentArbitrators lg)"
  note maj = confirm_majority [OF assms(2,6)] confirm_majority [OF assms(4,6)]
  show "?S \<subseteq> ?A" using maj by blast
  have fin: "finite (signers c)" for c by (simp add: signers_def)
  have "card (signers confirm) + card (signers confirm') = card (signers confirm \<union> signers confirm') + card ?S"
    by (rule card_Un_Int [OF fin fin])
  moreover have "card (signers confirm \<union> signers confirm') \<le> card ?A" using maj by (intro card_mono) auto
  moreover have "card ?A = length (lg_CurrentArbitrators lg)" using assms(5) by (rule distinct_card)
  ultimately show "length (lg_CurrentArbitrators lg) < 3 * card ?S" using maj by linarith
  fix k assume "k \<in> ?S"
  then obtain vote vote' where v: "vote \<in> set (confirm_Votes confirm)" "vote_Signer vote = k"
      "vote' \<in> set (confirm_Votes confirm')" "vote_Signer vote' = k"
    by (auto simp: signers_def)
  have ok: "sanityVotes cr (DPOSProposal_Hash (Sha256D cr) (confirm_Proposal c)) (confirm_Votes c) = None"
    if "ConfirmSanityCheck cr c = None" for c
    using that by (auto simp: ConfirmSanityCheck_def split: option.splits)
  from sanityVotes_ok [OF ok [OF assms(1)] v(1)] sanityVotes_ok [OF ok [OF assms(3)] v(3)] v
  show "\<exists>pk vote vote'. DecodePoint k = Inr pk \<and> vote \<in> set (confirm_Votes confirm) \<and> vote' \<in> set (confirm_Votes confirm') \<and>
      vote_ProposalHash vote = DPOSProposal_Hash (Sha256D cr) (confirm_Proposal confirm) \<and> vote_Accept vote \<and>
      vote_ProposalHash vote' = DPOSProposal_Hash (Sha256D cr) (confirm_Proposal confirm') \<and> vote_Accept vote' \<and>
      Verify cr pk (DPOSProposalVote_SerializeUnsigned vote) (vote_Sign vote) = None \<and>
      Verify cr pk (DPOSProposalVote_SerializeUnsigned vote') (vote_Sign vote') = None"
    by (auto simp: VoteSanityCheck_def split: sum.splits)
qed

definition loneArbiter :: Ledger where
  "loneArbiter = \<lparr>lg_CurrentArbitrators = [samplePoint], lg_ArbitersRoundReward = Map.empty, lg_FinalRoundChange = 0,
     lg_illegalBlocksPayloadHashes = {}, lg_NeedAppropriation = False\<rparr>"

definition loneConfirm :: Confirm where
  "loneConfirm =
     (let p = \<lparr>proposal_Sponsor = samplePoint, proposal_BlockHash = replicate 32 1, proposal_ViewOffset = 0,
        proposal_Sign = replicate 64 0\<rparr>
      in \<lparr>confirm_Proposal = p, confirm_Votes = [\<lparr>vote_ProposalHash = replicate 32 1, vote_Signer = samplePoint,
           vote_Accept = True, vote_Sign = replicate 64 0\<rparr>]\<rparr>)"

theorem confirm_quorums_meet_witness:
  "ConfirmSanityCheck plainCrypto loneConfirm = None \<and> ConfirmContextCheck loneArbiter loneConfirm = None \<and>
   (\<exists>S. S \<subseteq> {samplePoint} \<and> 1 < 3 * card S)"
proof -
  have sane: "ConfirmSanityCheck plainCrypto loneConfirm = None"
    by (simp add: ConfirmSanityCheck_def ProposalSanityCheck_def VoteSanityCheck_def loneConfirm_def decode_samplePoint
        Verify_def plainCrypto_def sampleCrypto_def DPOSProposal_Hash_def Sha256D_def)
  have "GetArbitersMajorityCount loneArbiter = 0" by code_simp
  then have ctx: "ConfirmContextCheck loneArbiter loneConfirm = None"
    by (simp add: ConfirmContextCheck_def ProposalContextCheck_def VoteContextCheck_def loneConfirm_def)
      (simp add: loneArbiter_def)
  from confirm_quorums_meet [OF sane ctx sane ctx] sane ctx show ?thesis
    by (auto simp: loneArbiter_def)
qed

subsection \<open>What a block accepted on top of the chain satisfies\<close>

lemma contextLoop_ok:
  "contextLoop b cs vd refs ht txs fee = Inr (Inr reward) \<Longrightarrow>
     (\<forall>tx \<in> set txs. \<exists>references. refs tx = Some references \<and> CheckTransactionContext b cs vd ht tx references 0 = Inr None) \<and>
     reward = fee + (\<Sum>tx \<leftarrow> txs. GetTxFee (vd_ordI vd) tx (ELAAssetID (vd_Crypto vd)) (the (refs tx)))"
proof (induction txs arbitrary: fee)
  case (Cons tx txs)
  then obtain references where r: "refs tx = Some references" by (auto split: option.splits)
  with Cons.prems have "CheckTransactionContext b cs vd ht tx references 0 = Inr None"
    and rest: "contextLoop b cs vd refs ht txs (fee + GetTxFee (vd_ordI vd) tx (ELAAssetID (vd_Crypto vd)) references) = Inr (Inr reward)"
    by (auto simp: bindR_Inr_iff run_iff)
  with Cons.IH [OF rest] r show ?case by (simp add: add.assoc)
qed simp

lemma blockMsg_ok [simp]: "blockMsg c = Inr None \<longleftrightarrow> c = Inr None"
  by (cases c) (auto simp: blockMsg_def)

lemma coinbaseVerdict_ok:
  assumes "coinbaseVerdict b block err = Inr None" and "cp_CheckRewardHeight (bc_chainParams b) \<le> h_Height (b_Header block)"
  shows "err = None"
  using assms by (auto simp: coinbaseVerdict_def split: option.splits prod.splits write_error.splits if_splits)

lemma blockContext_parts:
  assumes "CheckBlockContext b pow rt cs vd lg refs block chain = Inr None" and "chain \<noteq> []"
  shows "CalcNextRequiredDifficulty pow rt chain = Inr (Inr (h_Bits (b_Header block)))"
    and "\<exists>t. CalcPastMedianTime chain = Inr t \<and> t \<le> uint (h_Timestamp (b_Header block))"
    and "\<forall>tx \<in> set (drop 1 (b_Transactions block)). IsFinalizedTransaction tx (h_Height (b_Header block))"
    and "checkTxsContext b cs vd lg refs block = Inr None"
  using assms by (auto simp: CheckBlockContext_def Let_def bindR_Inr_iff run_iff split: if_splits)

lemma rewards_ok:
  assumes "checkCoinbaseArbitratorsReward lg coinbase = Inr None" and "2 \<le> length (tx_Outputs coinbase)"
  shows "card (dom (lg_ArbitersRoundReward lg)) = length (drop 2 (tx_Outputs coinbase))"
    and "\<forall>x \<in> set (drop 2 (tx_Outputs coinbase)). lg_ArbitersRoundReward lg (out_ProgramHash x) = Some (out_Value x)"
proof -
  show "card (dom (lg_ArbitersRoundReward lg)) = length (drop 2 (tx_Outputs coinbase))"
    using assms by (simp add: checkCoinbaseArbitratorsReward_def Let_def split: if_splits)
  show "\<forall>x \<in> set (drop 2 (tx_Outputs coinbase)). lg_ArbitersRoundReward lg (out_ProgramHash x) = Some (out_Value x)"
    using assms(1) by (auto simp: checkCoinbaseArbitratorsReward_def Let_def split: if_splits option.splits)
qed

lemma rewards_exact:
  assumes "checkCoinbaseArbitratorsReward lg coinbase = Inr None" and "2 \<le> length (tx_Outputs coinbase)"
    and "finite (dom (lg_ArbitersRoundReward lg))" and "distinct (map out_ProgramHash (drop 2 (tx_Outputs coinbase)))"
  shows "lg_ArbitersRoundReward lg = map_of (map (\<lambda>x. (out_ProgramHash x, out_Value x)) (drop 2 (tx_Outputs coinbase)))"
proof -
  let ?paid = "drop 2 (tx_Outputs coinbase)" and ?rewards = "lg_ArbitersRoundReward lg"
  note ok = rewards_ok [OF assms(1,2)]
  note dist = assms(4)
  have sub: "out_ProgramHash ` set ?paid \<subseteq> dom ?rewards" using ok(2) by auto
  have "card (out_ProgramHash ` set ?paid) = card (dom ?rewards)"
    using distinct_card [OF dist] ok(1) by simp
  then have dom: "out_ProgramHash ` set ?paid = dom ?rewards" using card_subset_eq [OF assms(3) sub] by simp
  let ?pairs = "map (\<lambda>x. (out_ProgramHash x, out_Value x)) ?paid"
  have fst: "map fst ?pairs = map out_ProgramHash ?paid" by simp
  show "?rewards = map_of ?pairs"
  proof
    fix h
    show "?rewards h = map_of ?pairs h"
    proof (cases "h \<in> dom ?rewards")
      case True
      then obtain x where x: "x \<in> set ?paid" "h = out_ProgramHash x" using dom by auto
      then have "(h, out_Value x) \<in> set ?pairs" by force
      then have "map_of ?pairs h = Some (out_Value x)" using dist fst by (simp only: map_of_eq_Some_iff)
      with ok(2) x show ?thesis by simp
    next
      case False
      then have "h \<notin> fst ` set ?pairs" using dom by (auto simp: image_image)
      then have "map_of ?pairs h = None" by (simp only: map_of_eq_None_iff not_False_eq_True)
      with False show ?thesis by (simp only: domIff not_not)
    qed
  qed
qed

text \<open>
  An address may be paid more than once: when a coinbase is accepted, so is the one that pays any of the
  arbiters in the place of all the others.
\<close>

theorem arbiter_rewards_repeated:
  assumes "checkCoinbaseArbitratorsReward lg coinbase = Inr None" and "2 \<le> length (tx_Outputs coinbase)"
    and "x \<in> set (drop 2 (tx_Outputs coinbase))"
  shows "checkCoinbaseArbitratorsReward lg
    (coinbase\<lparr>tx_Outputs := take 2 (tx_Outputs coinbase) @ replicate (length (tx_Outputs coinbase) - 2) x\<rparr>) = Inr None"
  using rewards_ok [OF assms(1,2)] assms(2,3) by (auto simp: checkCoinbaseArbitratorsReward_def Let_def)

text \<open>
  C19. A block that is accepted on top of the chain, from the heights on at which the public consensus and the
  check of the reward hold: its target is the required one, its time is not before the median of the last
  blocks, every transaction behind the coinbase is final and passes the check against the chain with the
  outputs it spends, and the first two outputs of the coinbase are worth the reward of a block and all the
  fees, less the share of the arbiters, and with what is left of the last round (in 64-bit arithmetic); and
  when the other outputs of the coinbase go to different addresses, they pay exactly the rewards of the round.
\<close>

theorem block_context_sound:
  assumes "CheckBlockContext b pow rt cs vd lg refs block chain = Inr None" and "chain \<noteq> []"
    and "cp_CheckRewardHeight (bc_chainParams b) \<le> h_Height (b_Header block)"
    and "PublicDPOSHeight_of b \<le> h_Height (b_Header block)"
  shows "CalcNextRequiredDifficulty pow rt chain = Inr (Inr (h_Bits (b_Header block))) \<and>
    (\<exists>t. CalcPastMedianTime chain = Inr t \<and> t \<le> uint (h_Timestamp (b_Header block))) \<and>
    (\<exists>coinbase txs reward. b_Transactions block = coinbase # txs \<and>
      (\<forall>tx \<in> set txs. IsFinalizedTransaction tx (h_Height (b_Header block)) \<and>
        (\<exists>references. refs tx = Some references \<and>
          CheckTransactionContext b cs vd (h_Height (b_Header block)) tx references 0 = Inr None)) \<and>
      reward = (\<Sum>tx \<leftarrow> txs. GetTxFee (vd_ordI vd) tx (ELAAssetID (vd_Crypto vd)) (the (refs tx))) + cp_RewardPerBlock (bc_chainParams b) \<and>
      out_Value (tx_Outputs coinbase ! 0) + out_Value (tx_Outputs coinbase ! 1) =
        reward - word_of_int (ceiled (floatTimes (floatOf (fixed reward)) (fraction 35 100))) + lg_FinalRoundChange lg \<and>
      (finite (dom (lg_ArbitersRoundReward lg)) \<and> distinct (map out_ProgramHash (drop 2 (tx_Outputs coinbase))) \<longrightarrow>
        lg_ArbitersRoundReward lg = map_of (map (\<lambda>x. (out_ProgramHash x, out_Value x)) (drop 2 (tx_Outputs coinbase)))))"
proof -
  note parts = blockContext_parts [OF assms(1,2)]
  let ?ht = "h_Height (b_Header block)"
  obtain coinbase txs fees where txs: "b_Transactions block = coinbase # txs"
      and loop: "contextLoop b cs vd refs ?ht txs 0 = Inr (Inr fees)"
      and verdict: "bindR (checkCoinbaseTransactionContext b lg ?ht coinbase fees) (coinbaseVerdict b block) = Inr None"
    using parts(4) by (cases "b_Transactions block") (auto simp: checkTxsContext_def Let_def bindR_Inr_iff run_iff)
  have "checkCoinbaseTransactionContext b lg ?ht coinbase fees = Inr None"
    using verdict coinbaseVerdict_ok [OF _ assms(3)] by (auto simp: bindR_Inr_iff)
  then have paid: "checkCoinbaseArbitratorsReward lg coinbase = Inr None" "2 \<le> length (tx_Outputs coinbase)"
    and "out_Value (tx_Outputs coinbase ! 0) + out_Value (tx_Outputs coinbase ! 1) =
      fees + cp_RewardPerBlock (bc_chainParams b) -
        word_of_int (ceiled (floatTimes (floatOf (fixed (fees + cp_RewardPerBlock (bc_chainParams b)))) (fraction 35 100))) +
        lg_FinalRoundChange lg"
    using assms(4) by (simp_all add: checkCoinbaseTransactionContext_def Let_def split: if_splits)
  with parts(1-3) txs contextLoop_ok [OF loop] rewards_exact [OF paid] show ?thesis by auto
qed

definition payTo :: "Uint168 \<Rightarrow> Fixed64 \<Rightarrow> Output" where
  "payTo h v = (pays plainCrypto v)\<lparr>out_ProgramHash := h\<rparr>"

subsection \<open>The two computations of a fee\<close>

lemma fold_addValue:
  "fold addValue xs m asset =
     (if \<exists>x \<in> set xs. out_AssetID x = asset
      then Some ((case m asset of Some v \<Rightarrow> v | None \<Rightarrow> 0) + sum_list (map out_Value (filter (\<lambda>x. out_AssetID x = asset) xs)))
      else m asset)"
  by (induction xs arbitrary: m) (auto simp: addValue_def add.assoc split: option.splits)

text \<open>
  The fee of a transaction is computed twice, once when the transaction is checked and once, by asset, when
  the fees of a block are added up for its coinbase; when all outputs that are spent and paid are of the
  coin of the chain, both give the same.
\<close>

theorem fees_agree:
  assumes "\<forall>x \<in> set (tx_Outputs tx). out_AssetID x = asset"
    and "\<forall>x \<in> set (spentOutputs ordI references). out_AssetID x = asset"
  shows "GetTxFee ordI tx asset references = getTransactionFee ordI tx references"
proof -
  have total: "fold addValue xs Map.empty asset = (if xs = [] then None else Some (sum_list (map out_Value xs)))"
    if "\<forall>x \<in> set xs. out_AssetID x = asset" for xs
  proof -
    have "filter (\<lambda>x. out_AssetID x = asset) xs = xs" using that by (simp add: filter_id_conv)
    then show ?thesis using that by (cases xs) (auto simp: fold_addValue addValue_def)
  qed
  show ?thesis
    unfolding GetTxFee_def GetTxFeeMap_def getTransactionFee_def Let_def total [OF assms(1)] total [OF assms(2)] by auto
qed

subsection \<open>A block on a chain of one\<close>

definition genesisNode :: BlockNode where
  "genesisNode = \<lparr>node_Hash = replicate 32 1, node_ParentHash = replicate 32 0, node_Height = 0, node_Version = 0,
     node_Bits = 0x207fffff, node_Timestamp = 1000, node_WorkSum = 0\<rparr>"

definition samplePowParams :: PowParams where
  "samplePowParams = \<lparr>PowLimit = 2 ^ 255 - 1, PowLimitBits = 0x207fffff, TargetTimespan = 86400 * 10 ^ 9,
     TargetTimePerBlock = 120 * 10 ^ 9, AdjustmentFactor = 4\<rparr>"

definition sampleRt :: Retarget where
  "sampleRt = \<lparr>minRetargetTimespan = 21600, maxRetargetTimespan = 345600, blocksPerRetarget = 720\<rparr>"

definition laterBlock :: Block where
  "laterBlock = minedBlock\<lparr>b_Header := (b_Header minedBlock)\<lparr>h_Height := 700000\<rparr>,
     b_Transactions := [sampleCoinbase\<lparr>tx_Outputs := [payTo [] 326484018, payTo [] 0]\<rparr>]\<rparr>"

lemma laterBlock_coinbase:
  "checkCoinbaseTransactionContext mainChain loneArbiter 700000
     (sampleCoinbase\<lparr>tx_Outputs := [payTo [] 326484018, payTo [] 0]\<rparr>) 0 = Inr None"
proof -
  have "cp_RewardPerBlock mainNetParams = 502283105" by code_simp
  moreover have "ceiled (floatTimes (floatOf 502283105) (fraction 35 100)) = 175799087" by code_simp
  moreover have "cp_PublicDPOSHeight mainNetParams \<le> 700000" by code_simp
  ultimately show ?thesis
    by (simp add: checkCoinbaseTransactionContext_def checkCoinbaseArbitratorsReward_def Let_def)
      (simp add: loneArbiter_def payTo_def pays_def)
qed

lemma laterBlock_context:
  "CheckBlockContext mainChain samplePowParams sampleRt sampleChain sampleValidation loneArbiter (\<lambda>_. None) laterBlock [genesisNode] = Inr None"
proof -
  have "CalcNextRequiredDifficulty samplePowParams sampleRt [genesisNode] = Inr (Inr 0x207fffff)" by code_simp
  moreover have "CalcPastMedianTime [genesisNode] = Inr 1000" by code_simp
  moreover have "b_Transactions laterBlock = [sampleCoinbase\<lparr>tx_Outputs := [payTo [] 326484018, payTo [] 0]\<rparr>]"
    "h_Height (b_Header laterBlock) = 700000" "h_Bits (b_Header laterBlock) = 0x207fffff" "h_Timestamp (b_Header laterBlock) = 2000"
    by (simp_all add: laterBlock_def minedBlock_def)
  ultimately show ?thesis
    using laterBlock_coinbase
    by (simp add: CheckBlockContext_def CheckDPOSIllegalTx_def CheckCRCAppropriationTx_def checkTxsContext_def coinbaseVerdict_def Let_def)
      (simp add: loneArbiter_def sampleCoinbase_def)
qed

theorem block_context_sound_witness:
  "\<exists>coinbase. b_Transactions laterBlock = [coinbase] \<and>
     out_Value (tx_Outputs coinbase ! 0) + out_Value (tx_Outputs coinbase ! 1) = 326484018"
proof -
  have "cp_CheckRewardHeight mainNetParams \<le> 700000" "cp_PublicDPOSHeight mainNetParams \<le> 700000"
    and reward: "cp_RewardPerBlock mainNetParams = 502283105"
    and share: "ceiled (floatTimes (floatOf 502283105) (fraction 35 100)) = 175799087" by code_simp+
  moreover have "h_Height (b_Header laterBlock) = 700000" "\<exists>coinbase. b_Transactions laterBlock = [coinbase]"
    by (simp_all add: laterBlock_def)
  ultimately show ?thesis
    using block_context_sound [OF laterBlock_context] by (auto simp: loneArbiter_def)
qed

end
