(* ===== verification/Spec2Isabelle.thy ===== *)
theory Spec2Isabelle
  imports DposVotes TreapIter BlockCheck
begin

text \<open>
  \<^bold>\<open>A verification library for the Elastos main chain node (\<^verbatim>\<open>src/ELA\<close>).\<close>

  The node keeps a chain of blocks of transactions. Blocks and transactions arrive as bytes, are checked
  (proof of work, signatures, amounts), and a block that is accepted is run through the state of the
  delegated consensus (DPoS), which keeps the producers, their votes and their deposits, and which must be
  able to undo a block when the chain is reorganised. Blocks are stored in a database with an ordered
  cache. The library models these parts, as far as the list below goes, as executable HOL functions, one
  definition for each function, method or type of the code, and proves what the parts promise each other.
  The transaction pool, in which unconfirmed transactions wait, is not modelled.

  \<^bold>\<open>Conventions\<close> (Prelude). Integers keep their width as words; \<^verbatim>\<open>math/big\<close> numbers are integers. Bytes are
  lists of 8-bit words, Go strings are HOL strings. A panic is a value (\<open>'a res\<close>), an error is the text the
  code returns. A Go map is a partial function; where the code ranges over one, the order is a parameter
  \<open>ord\<close> of which only \<open>ranges ord\<close> is assumed. Pointers are subtrees, or references into an explicit
  store where the code relies on sharing (DposChange). Locks are left out: the methods modelled here hold
  the lock of their object from beginning to end, so they are atomic steps.

  \<^bold>\<open>The wire format.\<close>
  \<^item> Codec (\<^verbatim>\<open>common/serialize.go\<close>, \<^verbatim>\<open>uint256.go\<close>, \<^verbatim>\<open>uint168.go\<close>, \<^verbatim>\<open>fixed64.go\<close>): readers and writers. The locale
    \<open>codec\<close> is the contract of a Serialize/Deserialize pair, \<open>canonical_codec\<close> the one that also excludes
    other encodings of the same value; every pair of the following theories interprets one of them.
  \<^item> Payload, TxPayload (\<^verbatim>\<open>core/types/payload\<close>): all payloads and the dispatch on the transaction type.
    \<open>checked_codec\<close> is the contract of a writer that can fail.
  \<^item> VoteOutput (\<^verbatim>\<open>outputpayload/vote.go\<close>) and Transaction (\<^verbatim>\<open>core/types\<close>): votes, inputs, outputs,
    attributes, programs, and transactions. A well-formed value is read back as it was written, and the
    hash of a transaction commits to everything but its programs.

  \<^bold>\<open>The DPoS state.\<close>
  \<^item> History (\<^verbatim>\<open>utils/history.go\<close>): the undo log. It refines a timeline of states: Commit appends, RollbackTo
    truncates, SeekTo looks back. This holds for blocks that the rollback of their changes undoes; the locale
    \<open>independent_changes\<close> is what the history needs of its client for that, because the changes of a block
    are undone first to last. What goes wrong otherwise (a second seek, a second temporary commit) is proved
    as well.
  \<^item> KeyFrame (\<^verbatim>\<open>dpos/state/keyframe.go\<close>): producers, the data of the state and the checkpoint format.
  \<^item> DposChange, DposIndependence, DposState (\<^verbatim>\<open>dpos/state/state.go\<close>): the closures the handlers give to the
    history as data, when two of them are independent (the interpretation \<open>dpos\<close> of the locale), and the
    handlers of all transactions with ProcessBlock and RollbackTo.
  \<^item> DposBlock: processing a block and rolling it back. The locale \<open>recorder\<close> is the contract of the handlers:
    they change the state only by appending changes to the history, each of which satisfies a given predicate
    in the state it is recorded in. It is interpreted twice, with no condition (\<open>plain\<close>) and with the
    invariant of the producer maps (\<open>filing\<close>).
  \<^item> DposInvariant: every producer is in one of five maps, the one of its state, under its owner key. Blocks
    keep this when registrations use new owner keys, updates and cancellations find the producer of the owner that
    signs them, only pending and active producers are canceled, and no two changes of a block concern
    the same producer. The code ensures neither of the conditions on updates and cancellations, and what
    happens without them is proved too. Empty blocks make progress.
  \<^item> DposVotes: the counting of votes and its undoing.

  \<^bold>\<open>Keys, scripts and signatures.\<close>
  \<^item> Curve (\<^verbatim>\<open>crypto/encode.go\<close>), Contract (\<^verbatim>\<open>core/contract\<close>, \<^verbatim>\<open>crypto/common.go\<close>), Signature
    (\<^verbatim>\<open>blockchain/validation.go\<close>, \<^verbatim>\<open>crypto/crypto.go\<close>): public keys, redeem scripts, and that an output is
    spent only with the signature, or the threshold of signatures, its address asks for (withdrawals of
    council proposals apart, whose signatures the code does not check). The digests and
    the elliptic curve check are parameters (\<open>Crypto\<close>).

  \<^bold>\<open>Validation.\<close>
  \<^item> Doubles: Go's \<^verbatim>\<open>float64\<close>, in which shares of a reward and majorities are computed, with the error of
    rounding.
  \<^item> TxCheck (\<^verbatim>\<open>blockchain/txvalidator.go\<close>): \<^verbatim>\<open>CheckTransactionSanity\<close> with everything it calls, addresses
    (\<^verbatim>\<open>common/uint168.go\<close>), and the checks on the outputs that are spent up to the fee. A check is a value that
    accepts, rejects with a text, or panics; \<open>andThen\<close> and \<open>checkEach\<close> run checks one after another.
    Value is conserved as long as no sum wraps around, and nothing in the checks keeps it from doing so.
  \<^item> TxContext (\<^verbatim>\<open>CheckTransactionContext\<close>): the check of a transaction against the chain, in its order: payload,
    double spends, locks, deposits, votes, fee, destruction address, signatures. The checks of the payloads of the
    single types, the double spend query and the lists of producers and council members are parameters (\<open>Validation\<close>, \<open>ChainState\<close>).
  \<^item> BlockCheck (\<^verbatim>\<open>blockchain/blockvalidator.go\<close>, \<^verbatim>\<open>confirmvalidator.go\<close>): the check of a block by itself, its
    check on top of the chain with the reward of the coinbase, and the check of a confirm. Two confirms share
    more than a third of the arbiters.

  \<^bold>\<open>Storage.\<close>
  \<^item> Treap, TreapIter (\<^verbatim>\<open>database/internal/treap\<close>): both treaps are ordered maps, by the locale \<open>ordered_map\<close>,
    and their iterator visits a range in order. The random priorities are parameters.

  \<^bold>\<open>Proof of work.\<close>
  \<^item> Difficulty (\<^verbatim>\<open>blockchain/difficulty.go\<close>): compact targets and their precision, work, retargeting.
  \<^item> MedianTime (\<^verbatim>\<open>blockchain/mediantime.go\<close>): the clock agreed with the peers, and that a minority cannot move it.
  \<^item> AuxPow (\<^verbatim>\<open>auxpow\<close>): merge mining, the proof that a Bitcoin block was mined for a block of this chain.

  \<^bold>\<open>Blocks.\<close>
  \<^item> Blocks (\<^verbatim>\<open>core/types/block.go\<close>, \<^verbatim>\<open>header.go\<close>, \<^verbatim>\<open>dposblock.go\<close>, \<^verbatim>\<open>crypto/merkletree.go\<close>): the block format, where the
    transactions stand in it, and the Merkle root. Digests are a parameter, and what the theorems ask of
    it is injectivity on the finitely many strings a check digests.

  \<^bold>\<open>Bounds.\<close> No definition uses fuel: every loop is structural or has a termination proof. Lengths read from the
  wire are bounded as in the code, and \<^verbatim>\<open>make\<close> panics beyond the address space (\<open>makeSlice\<close>).

  \<^bold>\<open>Not modelled.\<close> Digests, elliptic curve arithmetic and the sorting of the standard library are parameters.
  The checks of the payloads of the single transaction types against the
  chain (producers, council, side chains) and the council state are large and are left out; so are the
  transaction pool and the choice of the arbiters of a round. Network peers, the database files, RPC servers, the command line and mining threads are input and output
  and goroutines. The side chains, wallets and SDKs beside \<^verbatim>\<open>src/ELA\<close> (among them the fork of
  go-ethereum) are separate programs.
\<close>

end
